(* ===== verification/Prelude.thy ===== *)
theory Prelude
  imports Main "HOL-Library.Sublist"
begin

text \<open>
  Shared vocabulary of the development: the error taxonomy of the program, the
  exception monad on \<open>error + 'a\<close> that models JavaScript's \<open>throw\<close>/\<open>try\<close>, and
  generic lemmas on lists and sums that the component theories use.
  The named collection \<open>model_simps\<close> gathers the characteristic equations of the
  operations that the component proofs unfold together.
\<close>

named_theorems model_simps "characteristic equations of the modelled operations"

subsection \<open>Errors\<close>

text \<open>
  Every exception the sources can raise or propagate:
  \<^item> \<open>TransportError\<close>: a rejected promise of a provider SDK call
    (\<open>chat.sendMessage\<close>, \<open>ollama.chat\<close>): network, authentication or quota failure;
  \<^item> \<open>ResponseError\<close>: \<open>response.text()\<close> of the Gemini SDK raising on a blocked
    response;
  \<^item> \<open>TypeError\<close>: a JavaScript \<open>TypeError\<close> raised by the code itself
    (a method called on \<open>undefined\<close>, or on a value that lacks it).
\<close>

datatype error = TransportError string | ResponseError string | TypeError string

type_synonym 'a result = "error + 'a"

text \<open>\<open>error instanceof Error ? error.message : String(error)\<close>: every error the
  model raises is an \<open>Error\<close>, so this is its message.\<close>

definition error_message :: "error \<Rightarrow> string" where
  "error_message e = (case e of TransportError m \<Rightarrow> m | ResponseError m \<Rightarrow> m | TypeError m \<Rightarrow> m)"

subsection \<open>The exception monad\<close>

definition bindE :: "'e + 'a \<Rightarrow> ('a \<Rightarrow> 'e + 'b) \<Rightarrow> 'e + 'b" where
  "bindE m f = (case m of Inl e \<Rightarrow> Inl e | Inr a \<Rightarrow> f a)"

lemma bindE_Inl [simp]: "bindE (Inl e) f = Inl e"
  by (simp add: bindE_def)

lemma bindE_Inr [simp]: "bindE (Inr a) f = f a"
  by (simp add: bindE_def)

lemma bindE_eq_Inr:
  "bindE m f = Inr b \<longleftrightarrow> (\<exists>a. m = Inr a \<and> f a = Inr b)"
  by (cases m) auto

lemma bindE_eq_Inl:
  "bindE m f = Inl e \<longleftrightarrow> m = Inl e \<or> (\<exists>a. m = Inr a \<and> f a = Inl e)"
  by (cases m) auto

subsection \<open>Lists\<close>

lemma filter_empty_conv_list_all:
  "filter P xs = [] \<longleftrightarrow> list_all (\<lambda>x. \<not> P x) xs"
  by (induction xs) auto

end
