(* ===== verification/JS_Number.thy ===== *)
theory JS_Number
  imports Complex_Main Prelude
begin

text \<open>
  JavaScript numbers as IEEE 754 binary64 values, with the operations the two sources
  apply to them: \<open>+\<close> and \<open>-\<close> on numbers (ECMAScript Number::add and Number::subtract),
  ToNumber applied to a string (StringToNumber) and Number::toString.

  A finite double is \<open>Fin m e\<close>, the value \<open>m * 2^e\<close> in lowest terms (\<open>m\<close> odd, or
  \<open>Fin 0 0\<close> for \<open>+0\<close>); \<open>NegZero\<close>, \<open>PosInf\<close>, \<open>NegInf\<close> and \<open>NaN\<close> are the
  other values. \<open>jsnum_ok\<close> says \<open>Fin m e\<close> is a double: at most 53 significant
  bits, exponent at least \<open>-1074\<close> (subnormals), magnitude below \<open>2^1024\<close>.
  Rounding (\<open>round_dyadic\<close>) is round-to-nearest, ties to even, computed on integers:
  \<open>ilog2\<close> finds the binary exponent, \<open>rne\<close> the rounded quotient. Number::toString
  searches the shortest digit string that reads back as the number (\<open>shortest\<close>,
  whose fuel \<open>dec_len M\<close> reaches the exact digits, which always read back) and
  prints it in ECMAScript's four formats (\<open>fmt_digits\<close>); among shortest strings it
  takes the one nearest the number.

  The lemmas characterise the rounding on the reals (\<open>round_dyadic_real\<close>), show
  that every operation yields a double (\<open>jsnum_ok\<close>), that addition of doubles is
  the correctly rounded real sum, that integers up to \<open>2^53\<close> add exactly, and that
  ToNumber inverts Number::toString.
\<close>

datatype jsnum = NaN | PosInf | NegInf | NegZero | Fin int int

subsection \<open>Binary digits and dyadic values\<close>

fun bitlen :: "nat \<Rightarrow> nat" where
  "bitlen n = (if n = 0 then 0 else Suc (bitlen (n div 2)))"

declare bitlen.simps [simp del]

function norm_dyadic :: "int \<Rightarrow> int \<Rightarrow> int \<times> int" where
  "norm_dyadic m e =
     (if m = 0 then (0, 0) else if even m then norm_dyadic (m div 2) (e + 1) else (m, e))"
  by pat_completeness auto
termination
  by (relation "measure (\<lambda>(m, e). nat \<bar>m\<bar>)") auto

declare norm_dyadic.simps [simp del]

definition mk_fin :: "int \<Rightarrow> int \<Rightarrow> jsnum" where
  "mk_fin m e = (case norm_dyadic m e of (m', e') \<Rightarrow> Fin m' e')"

definition is_double :: "int \<Rightarrow> int \<Rightarrow> bool" where
  "is_double m e \<longleftrightarrow>
     (m = 0 \<and> e = 0) \<or>
     (odd m \<and> bitlen (nat \<bar>m\<bar>) \<le> 53 \<and> -1074 \<le> e \<and> int (bitlen (nat \<bar>m\<bar>)) + e \<le> 1024)"

fun jsnum_ok :: "jsnum \<Rightarrow> bool" where
  "jsnum_ok (Fin m e) = is_double m e"
| "jsnum_ok _ = True"

subsection \<open>Rounding to the nearest double\<close>

definition ilog2 :: "nat \<Rightarrow> nat \<Rightarrow> int" where
  "ilog2 a b = (if b \<le> a then int (bitlen (a div b)) - 1 else - int (bitlen ((b - 1) div a)))"

definition rne :: "nat \<Rightarrow> nat \<Rightarrow> nat" where
  "rne p q =
     (let d = p div q; r = p mod q in
      if 2 * r < q then d else if q < 2 * r then Suc d else if even d then d else Suc d)"

definition round_dyadic :: "bool \<Rightarrow> nat \<Rightarrow> nat \<Rightarrow> int \<Rightarrow> jsnum" where
  "round_dyadic neg a b e =
     (let zero = (if neg then NegZero else Fin 0 0) in
      if a = 0 then zero else
      let t = ilog2 a b + e; j = max (t - 52) (-1074);
          n = (if j \<le> e then rne (a * 2 ^ nat (e - j)) b else rne a (b * 2 ^ nat (j - e)))
      in if n = 0 then zero
         else if 1024 < int (bitlen n) + j then (if neg then NegInf else PosInf)
         else mk_fin (if neg then - int n else int n) j)"

subsection \<open>Addition and subtraction (Number::add, Number::subtract)\<close>

fun num_neg :: "jsnum \<Rightarrow> jsnum" where
  "num_neg NaN = NaN"
| "num_neg PosInf = NegInf"
| "num_neg NegInf = PosInf"
| "num_neg NegZero = Fin 0 0"
| "num_neg (Fin m e) = (if m = 0 then NegZero else Fin (- m) e)"

definition add_fin :: "int \<Rightarrow> int \<Rightarrow> int \<Rightarrow> int \<Rightarrow> jsnum" where
  "add_fin m1 e1 m2 e2 =
     (let e = min e1 e2; s = m1 * 2 ^ nat (e1 - e) + m2 * 2 ^ nat (e2 - e) in
      if s = 0 then Fin 0 0 else round_dyadic (s < 0) (nat \<bar>s\<bar>) 1 e)"

fun num_add :: "jsnum \<Rightarrow> jsnum \<Rightarrow> jsnum" where
  "num_add NaN _ = NaN"
| "num_add _ NaN = NaN"
| "num_add PosInf NegInf = NaN"
| "num_add NegInf PosInf = NaN"
| "num_add PosInf _ = PosInf"
| "num_add NegInf _ = NegInf"
| "num_add _ PosInf = PosInf"
| "num_add _ NegInf = NegInf"
| "num_add NegZero y = y"
| "num_add x NegZero = x"
| "num_add (Fin m1 e1) (Fin m2 e2) = add_fin m1 e1 m2 e2"

definition num_sub :: "jsnum \<Rightarrow> jsnum \<Rightarrow> jsnum" where
  "num_sub x y = num_add x (num_neg y)"

definition num_of_int :: "int \<Rightarrow> jsnum" where
  "num_of_int i = (if i = 0 then Fin 0 0 else round_dyadic (i < 0) (nat \<bar>i\<bar>) 1 0)"

subsection \<open>Decimal digits\<close>

definition digit_char :: "nat \<Rightarrow> char" where
  "digit_char d = char_of (48 + d)"

fun nat_to_dec :: "nat \<Rightarrow> string" where
  "nat_to_dec n =
     (if n < 10 then [digit_char n] else nat_to_dec (n div 10) @ [digit_char (n mod 10)])"

declare nat_to_dec.simps [simp del]

definition int_to_dec :: "int \<Rightarrow> string" where
  "int_to_dec i = (if i < 0 then CHR ''-'' # nat_to_dec (nat (- i)) else nat_to_dec (nat i))"

definition is_digit :: "char \<Rightarrow> bool" where
  "is_digit c \<longleftrightarrow> 48 \<le> (of_char c :: nat) \<and> (of_char c :: nat) \<le> 57"

definition digit_val :: "char \<Rightarrow> nat" where
  "digit_val c = of_char c - 48"

fun dec_value :: "nat \<Rightarrow> string \<Rightarrow> nat" where
  "dec_value acc [] = acc"
| "dec_value acc (c # cs) = dec_value (10 * acc + digit_val c) cs"

definition digits_num :: "string \<Rightarrow> bool" where
  "digits_num ds \<longleftrightarrow> ds \<noteq> [] \<and> list_all is_digit ds"

subsection \<open>StringToNumber\<close>

text \<open>The double nearest to \<open>s * 10 ^ x\<close>.\<close>

definition dec_round :: "nat \<Rightarrow> int \<Rightarrow> jsnum" where
  "dec_round s x =
     (if 0 \<le> x then round_dyadic False (s * 5 ^ nat x) 1 x else round_dyadic False s (5 ^ nat (- x)) x)"

definition js_space :: "char \<Rightarrow> bool" where
  "js_space c \<longleftrightarrow> (of_char c :: nat) \<in> set [9, 10, 11, 12, 13, 32, 160]"

definition js_trim :: "string \<Rightarrow> string" where
  "js_trim s = rev (dropWhile js_space (rev (dropWhile js_space s)))"

definition parse_exponent :: "string \<Rightarrow> int option" where
  "parse_exponent r =
     (case r of
        [] \<Rightarrow> Some 0
      | c # r' \<Rightarrow>
          if c = CHR ''e'' \<or> c = CHR ''E'' then
            (case r' of
               [] \<Rightarrow> None
             | d # ds \<Rightarrow>
                 if d = CHR ''+'' then (if digits_num ds then Some (int (dec_value 0 ds)) else None)
                 else if d = CHR ''-'' then (if digits_num ds then Some (- int (dec_value 0 ds)) else None)
                 else if digits_num r' then Some (int (dec_value 0 r')) else None)
          else None)"

definition parse_decimal :: "string \<Rightarrow> (nat \<times> int) option" where
  "parse_decimal cs =
     (let d1 = takeWhile is_digit cs; r1 = dropWhile is_digit cs in
      case r1 of
        [] \<Rightarrow> (if d1 = [] then None else Some (dec_value 0 d1, 0))
      | c # r2 \<Rightarrow>
          if c = CHR ''.'' then
            (let d2 = takeWhile is_digit r2; r3 = dropWhile is_digit r2 in
             if d1 = [] \<and> d2 = [] then None
             else map_option (\<lambda>x. (dec_value 0 (d1 @ d2), x - int (length d2))) (parse_exponent r3))
          else if d1 = [] then None
          else map_option (\<lambda>x. (dec_value 0 d1, x)) (parse_exponent r1))"

definition radix_digit :: "nat \<Rightarrow> char \<Rightarrow> nat option" where
  "radix_digit r c =
     (let n = (of_char c :: nat);
          v = (if 48 \<le> n \<and> n \<le> 57 then n - 48 else if 97 \<le> n \<and> n \<le> 122 then n - 87
               else if 65 \<le> n \<and> n \<le> 90 then n - 55 else 36)
      in if v < r then Some v else None)"

fun radix_value :: "nat \<Rightarrow> nat \<Rightarrow> string \<Rightarrow> nat option" where
  "radix_value r acc [] = Some acc"
| "radix_value r acc (c # cs) =
     (case radix_digit r c of None \<Rightarrow> None | Some v \<Rightarrow> radix_value r (r * acc + v) cs)"

definition parse_radix :: "string \<Rightarrow> nat option" where
  "parse_radix t =
     (case t of
        z # p # ds \<Rightarrow>
          if z = CHR ''0'' \<and> ds \<noteq> [] then
            (if p = CHR ''x'' \<or> p = CHR ''X'' then radix_value 16 0 ds
             else if p = CHR ''o'' \<or> p = CHR ''O'' then radix_value 8 0 ds
             else if p = CHR ''b'' \<or> p = CHR ''B'' then radix_value 2 0 ds
             else None)
          else None
      | _ \<Rightarrow> None)"

definition parse_unsigned :: "string \<Rightarrow> jsnum" where
  "parse_unsigned u =
     (if u = ''Infinity'' then PosInf
      else case parse_decimal u of None \<Rightarrow> NaN | Some (s, x) \<Rightarrow> dec_round s x)"

definition str_to_num :: "string \<Rightarrow> jsnum" where
  "str_to_num str =
     (let t = js_trim str in
      if t = [] then Fin 0 0
      else case parse_radix t of
        Some n \<Rightarrow> num_of_int (int n)
      | None \<Rightarrow>
          (case t of
             c # u \<Rightarrow>
               if c = CHR ''-'' then num_neg (parse_unsigned u)
               else if c = CHR ''+'' then parse_unsigned u
               else parse_unsigned t
           | [] \<Rightarrow> Fin 0 0))"

subsection \<open>Number::toString\<close>

text \<open>The exact decimal value \<open>M * 10 ^ E\<close> of the positive double \<open>m * 2 ^ e\<close>.\<close>

definition exact_dec :: "nat \<Rightarrow> int \<Rightarrow> nat \<times> int" where
  "exact_dec m e = (if 0 \<le> e then (m * 2 ^ nat e, 0) else (m * 5 ^ nat (- e), e))"

definition dec_len :: "nat \<Rightarrow> nat" where
  "dec_len n = length (nat_to_dec n)"

text \<open>\<open>x / 10 ^ u\<close> rounded down, and whether the division is exact, for \<open>x = M * 10 ^ E\<close>.\<close>

definition dec_div :: "nat \<Rightarrow> int \<Rightarrow> int \<Rightarrow> nat \<times> bool" where
  "dec_div M E u =
     (if u \<le> E then (M * 10 ^ nat (E - u), True)
      else (M div 10 ^ nat (u - E), M mod 10 ^ nat (u - E) = 0))"

text \<open>The distance from \<open>s * 10 ^ u\<close> to \<open>M * 10 ^ E\<close>, scaled by \<open>10 ^ - w\<close>.\<close>

definition dec_dist :: "nat \<Rightarrow> int \<Rightarrow> nat \<Rightarrow> int \<Rightarrow> int \<Rightarrow> nat" where
  "dec_dist M E s u w = nat \<bar>int s * 10 ^ nat (u - w) - int M * 10 ^ nat (E - w)\<bar>"

text \<open>The candidates with \<open>k\<close> digits: \<open>(s, n)\<close> with \<open>10^(k-1) \<le> s < 10^k\<close> whose value
  \<open>s * 10 ^ (n - k)\<close> reads back as \<open>x\<close>; only the neighbours of \<open>x / 10 ^ (n - k)\<close>
  for \<open>n\<close> the decimal exponent of \<open>x\<close> or one more can be.\<close>

definition digit_cands :: "jsnum \<Rightarrow> nat \<Rightarrow> int \<Rightarrow> nat \<Rightarrow> (nat \<times> int) list" where
  "digit_cands x M E k =
     (let nx = int (dec_len M) + E in
      filter (\<lambda>(s, n). 10 ^ (k - 1) \<le> s \<and> s < 10 ^ k \<and> dec_round s (n - int k) = x)
        (concat (map (\<lambda>n. let (q, ex) = dec_div M E (n - int k) in
                            if ex then [(q, n)] else [(q, n), (Suc q, n)]) [nx, nx + 1])))"

fun closest_cand :: "nat \<Rightarrow> int \<Rightarrow> nat \<Rightarrow> int \<Rightarrow> (nat \<times> int) list \<Rightarrow> (nat \<times> int) option" where
  "closest_cand M E k w [] = None"
| "closest_cand M E k w (c # cs) =
     (case closest_cand M E k w cs of
        None \<Rightarrow> Some c
      | Some c' \<Rightarrow>
          (let d = dec_dist M E (fst c) (snd c - int k) w; d' = dec_dist M E (fst c') (snd c' - int k) w in
           if d < d' \<or> (d = d' \<and> even (fst c)) then Some c else Some c'))"

fun shortest :: "nat \<Rightarrow> jsnum \<Rightarrow> nat \<Rightarrow> int \<Rightarrow> nat \<Rightarrow> nat \<times> nat \<times> int" where
  "shortest 0 x M E k = (M, dec_len M, int (dec_len M) + E)"
| "shortest (Suc fuel) x M E k =
     (case closest_cand M E k (min E (int (dec_len M) + E - int k)) (digit_cands x M E k) of
        Some (s, n) \<Rightarrow> (s, k, n)
      | None \<Rightarrow> shortest fuel x M E (Suc k))"

definition fmt_digits :: "nat \<Rightarrow> nat \<Rightarrow> int \<Rightarrow> string" where
  "fmt_digits s k n =
     (let ds = nat_to_dec s in
      if int k \<le> n \<and> n \<le> 21 then ds @ replicate (nat n - k) (CHR ''0'')
      else if 0 < n \<and> n \<le> 21 then take (nat n) ds @ CHR ''.'' # drop (nat n) ds
      else if -6 < n \<and> n \<le> 0 then CHR ''0'' # CHR ''.'' # replicate (nat (- n)) (CHR ''0'') @ ds
      else
        let es = (if 0 \<le> n - 1 then CHR ''+'' else CHR ''-'') # nat_to_dec (nat \<bar>n - 1\<bar>) in
        if k = 1 then ds @ CHR ''e'' # es else take 1 ds @ CHR ''.'' # drop 1 ds @ CHR ''e'' # es)"

text \<open>The digits of a positive double: the fuel lets the search reach the exact digits.\<close>

definition pos_to_string :: "nat \<Rightarrow> int \<Rightarrow> string" where
  "pos_to_string m e =
     (case exact_dec m e of
        (M, E) \<Rightarrow> (case shortest (dec_len M) (Fin (int m) e) M E 1 of (s, k, n) \<Rightarrow> fmt_digits s k n))"

fun num_to_string :: "jsnum \<Rightarrow> string" where
  "num_to_string NaN = ''NaN''"
| "num_to_string PosInf = ''Infinity''"
| "num_to_string NegInf = ''-Infinity''"
| "num_to_string NegZero = ''0''"
| "num_to_string (Fin m e) =
     (if m = 0 then ''0'' else if m < 0 then CHR ''-'' # pos_to_string (nat (- m)) e
      else pos_to_string (nat m) e)"

subsection \<open>Reading the rounding on the reals\<close>

text \<open>The specification of the rounding: \<open>rhe\<close> rounds a non-negative real to the nearest
  natural number, ties to even; \<open>rnd_real neg x\<close> rounds \<open>x > 0\<close> to 53 significant bits,
  or to the subnormal quantum \<open>2^-1074\<close>, and overflows to an infinity past \<open>2^1024\<close>;
  \<open>round_real\<close> is the double nearest a real, as IEEE 754 rounds a sum.\<close>

definition rhe :: "real \<Rightarrow> nat" where
  "rhe x =
     (let d = nat \<lfloor>x\<rfloor> in
      if x - real d < 1 / 2 then d else if 1 / 2 < x - real d then Suc d else if even d then d else Suc d)"

definition rnd_real :: "bool \<Rightarrow> real \<Rightarrow> jsnum" where
  "rnd_real neg x =
     (let zero = (if neg then NegZero else Fin 0 0); t = \<lfloor>log 2 x\<rfloor>; j = max (t - 52) (-1074);
          n = rhe (x / 2 powr j)
      in if n = 0 then zero
         else if 1024 < int (bitlen n) + j then (if neg then NegInf else PosInf)
         else mk_fin (if neg then - int n else int n) j)"

definition round_real :: "real \<Rightarrow> jsnum" where
  "round_real v = (if v = 0 then Fin 0 0 else rnd_real (v < 0) \<bar>v\<bar>)"

subsection \<open>Binary digits and normal forms\<close>

lemma bitlen_0 [simp]: "bitlen 0 = 0"
  by (simp add: bitlen.simps)

lemma bitlen_pos: "0 < n \<Longrightarrow> bitlen n = Suc (bitlen (n div 2))"
  by (simp add: bitlen.simps)

lemma bitlen_less_iff: "n < 2 ^ k \<longleftrightarrow> bitlen n \<le> k"
proof (induction n arbitrary: k rule: bitlen.induct)
  case (1 n)
  show ?case
  proof (cases "n = 0")
    case True
    then show ?thesis by simp
  next
    case False
    show ?thesis
    proof (cases k)
      case 0
      with False show ?thesis by (simp add: bitlen_pos)
    next
      case (Suc k')
      have "n < 2 ^ Suc k' \<longleftrightarrow> n div 2 < 2 ^ k'" by auto
      with False Suc "1.IH" show ?thesis by (simp add: bitlen_pos)
    qed
  qed
qed

lemma bitlen_lower: "0 < n \<Longrightarrow> 2 ^ (bitlen n - 1) \<le> n"
proof -
  assume n: "0 < n"
  have "\<not> n < 2 ^ (bitlen n - 1)"
  proof
    assume "n < 2 ^ (bitlen n - 1)"
    then have "bitlen n \<le> bitlen n - 1" by (simp add: bitlen_less_iff)
    moreover have "0 < bitlen n" using n by (simp add: bitlen_pos)
    ultimately show False by simp
  qed
  then show ?thesis by simp
qed

lemma bitlen_upper: "n < 2 ^ bitlen n"
  by (simp add: bitlen_less_iff)

lemma bitlen_double: "0 < n \<Longrightarrow> bitlen (2 * n) = Suc (bitlen n)"
  by (simp add: bitlen_pos)

lemma norm_dyadic_spec:
  "norm_dyadic m e = (m', e') \<Longrightarrow>
     (m = 0 \<longrightarrow> m' = 0 \<and> e' = 0) \<and> (m \<noteq> 0 \<longrightarrow> odd m' \<and> e \<le> e' \<and> m = m' * 2 ^ nat (e' - e))"
proof (induction m e arbitrary: m' e' rule: norm_dyadic.induct)
  case (1 m e)
  show ?case
  proof (cases "m = 0")
    case True
    with "1.prems" show ?thesis by (simp add: norm_dyadic.simps)
  next
    case False
    show ?thesis
    proof (cases "even m")
      case True
      with False "1.prems" have rec: "norm_dyadic (m div 2) (e + 1) = (m', e')"
        by (simp add: norm_dyadic.simps)
      from True False have "m div 2 \<noteq> 0" by auto
      with "1.IH" [OF False True rec] have "odd m'" "e + 1 \<le> e'" "m div 2 = m' * 2 ^ nat (e' - (e + 1))"
        by auto
      moreover have "nat (e' - e) = Suc (nat (e' - (e + 1)))" using \<open>e + 1 \<le> e'\<close> by simp
      ultimately show ?thesis using True False by auto
    next
      case odd: False
      with False "1.prems" show ?thesis by (simp add: norm_dyadic.simps)
    qed
  qed
qed

lemma norm_dyadic_odd: "odd m \<Longrightarrow> norm_dyadic m e = (m, e)"
  by (subst norm_dyadic.simps) auto

lemma mk_fin_odd: "odd m \<Longrightarrow> mk_fin m e = Fin m e"
  by (simp add: mk_fin_def norm_dyadic_odd)

subsection \<open>The binary exponent and the rounded quotient\<close>

text \<open>\<open>ilog2 a b\<close> is \<open>\<lfloor>log 2 (a / b)\<rfloor>\<close> and \<open>rne p q\<close> is \<open>rhe (p / q)\<close>, so \<open>round_dyadic\<close> computes \<open>rnd_real\<close> on integers.\<close>

lemma floor_log_ge:
  assumes q: "0 < q" and lo: "real (2 ^ (bitlen q - 1)) \<le> x" and hi: "x < real (2 ^ bitlen q)"
  shows "\<lfloor>log 2 x\<rfloor> = int (bitlen q) - 1"
proof (rule floor_unique)
  have x: "0 < x" using lo by (smt (verit) of_nat_0_less_iff zero_less_power zero_less_numeral)
  have b: "0 < bitlen q" using q by (simp add: bitlen_pos)
  have "2 powr real (bitlen q - 1) \<le> x" using lo by (simp add: powr_realpow)
  then show "real_of_int (int (bitlen q) - 1) \<le> log 2 x"
    using x b by (simp add: le_log_iff of_nat_diff)
  have "x < 2 powr real (bitlen q)" using hi by (simp add: powr_realpow)
  then show "log 2 x < real_of_int (int (bitlen q) - 1) + 1"
    using x by (simp add: log_less_iff)
qed

lemma floor_log_lt:
  assumes u: "0 < u" and lo: "1 \<le> x * 2 ^ u" and hi: "x * 2 ^ (u - 1) < 1" and x: "0 < x"
  shows "\<lfloor>log 2 x\<rfloor> = - int u"
proof (rule floor_unique)
  have "2 powr (- real u) \<le> x"
    using lo by (simp add: powr_minus powr_realpow divide_simps)
  then show "real_of_int (- int u) \<le> log 2 x" using x by (simp add: le_log_iff)
  have "2 powr (1 - real u) = 1 / 2 ^ (u - 1)"
    using u by (simp add: powr_diff powr_realpow of_nat_diff power_diff)
  moreover have "x < 1 / 2 ^ (u - 1)" using hi by (simp add: field_simps)
  ultimately have "x < 2 powr (1 - real u)" by simp
  then show "log 2 x < real_of_int (- int u) + 1" using x by (simp add: log_less_iff)
qed

lemma ilog2_floor:
  assumes a: "0 < a" and b: "0 < b"
  shows "ilog2 a b = \<lfloor>log 2 (real a / real b)\<rfloor>"
proof (cases "b \<le> a")
  case True
  let ?q = "a div b"
  have q: "0 < ?q" using True b by (simp add: div_greater_zero_iff)
  have "real (2 ^ (bitlen ?q - 1)) \<le> real ?q" using bitlen_lower [OF q] by linarith
  also have "real ?q \<le> real a / real b"
  proof -
    have "real (b * ?q) \<le> real a" using times_div_less_eq_dividend [of b a] by linarith
    with b show ?thesis by (simp add: field_simps)
  qed
  finally have lo: "real (2 ^ (bitlen ?q - 1)) \<le> real a / real b" .
  have "a < b * Suc ?q" using dividend_less_times_div [OF b, of a] by simp
  then have "real a < real b * real (Suc ?q)" by (metis of_nat_less_iff of_nat_mult)
  then have "real a / real b < real (Suc ?q)" using b by (simp add: field_simps)
  also have "real (Suc ?q) \<le> real (2 ^ bitlen ?q)" using bitlen_upper [of ?q] by linarith
  finally have hi: "real a / real b < real (2 ^ bitlen ?q)" .
  show ?thesis using True floor_log_ge [OF q lo hi] by (simp add: ilog2_def)
next
  case False
  let ?q = "(b - 1) div a" and ?u = "bitlen ((b - 1) div a)"
  have q: "0 < ?q" using False a by (simp add: div_greater_zero_iff)
  have u: "0 < ?u" using q by (simp add: bitlen_pos)
  have "b - 1 < a + a * ?q" by (rule dividend_less_times_div [OF a])
  also have "a + a * ?q = a * Suc ?q" by simp
  also have "\<dots> \<le> a * 2 ^ ?u" using bitlen_upper [of ?q] by (simp del: mult_Suc_right)
  finally have "b \<le> a * 2 ^ ?u" by simp
  then have "real b \<le> real a * 2 ^ ?u" by (metis of_nat_le_iff of_nat_mult of_nat_numeral of_nat_power)
  then have lo: "1 \<le> real a / real b * 2 ^ ?u" using b by (simp add: field_simps)
  have "a * 2 ^ (?u - 1) \<le> a * ?q" using bitlen_lower [OF q] by simp
  also have "a * ?q \<le> b - 1" by (rule times_div_less_eq_dividend)
  finally have "a * 2 ^ (?u - 1) < b" using False by simp
  then have "real a * 2 ^ (?u - 1) < real b" by (metis of_nat_less_iff of_nat_mult of_nat_numeral of_nat_power)
  then have hi: "real a / real b * 2 ^ (?u - 1) < 1" using b by (simp add: field_simps)
  have x: "0 < real a / real b" using a b by simp
  show ?thesis using False floor_log_lt [OF u lo hi x] by (simp add: ilog2_def)
qed

lemma rne_rhe:
  assumes q: "0 < q"
  shows "rne p q = rhe (real p / real q)"
proof -
  have d: "nat \<lfloor>real p / real q\<rfloor> = p div q"
    by (simp add: floor_divide_of_nat_eq)
  have r: "real p / real q - real (p div q) = real (p mod q) / real q"
  proof -
    have "real p = real (p div q) * real q + real (p mod q)"
      by (metis div_mult_mod_eq of_nat_add of_nat_mult)
    with q show ?thesis by (simp add: field_simps)
  qed
  have lt: "real (p mod q) / real q < 1 / 2 \<longleftrightarrow> 2 * (p mod q) < q"
    using q by (simp add: divide_simps) linarith
  have gt: "1 / 2 < real (p mod q) / real q \<longleftrightarrow> q < 2 * (p mod q)"
    using q by (simp add: divide_simps) linarith
  show ?thesis unfolding rne_def rhe_def Let_def d r lt gt ..
qed

lemma rne_1 [simp]: "rne p (Suc 0) = p"
  by (simp add: rne_def)

lemma bitlen_shift: "0 < x \<Longrightarrow> bitlen (x * 2 ^ k) = bitlen x + k"
proof (induction k)
  case (Suc k)
  have eq: "x * 2 ^ Suc k = 2 * (x * 2 ^ k)" by simp
  have bd: "bitlen (2 * (x * 2 ^ k)) = Suc (bitlen (x * 2 ^ k))" using Suc.prems by (intro bitlen_double) simp
  show ?case unfolding eq by (simp only: bd Suc.IH [OF Suc.prems])
qed simp

lemma norm_dyadic_shift: "odd m \<Longrightarrow> norm_dyadic (m * 2 ^ k) e = (m, e + int k)"
proof (induction k arbitrary: e)
  case 0
  then show ?case by (simp add: norm_dyadic_odd)
next
  case (Suc k)
  have "m * 2 ^ Suc k \<noteq> 0" using Suc.prems by auto
  moreover have "even (m * 2 ^ Suc k)" by simp
  moreover have "m * 2 ^ Suc k div 2 = m * 2 ^ k" by simp
  ultimately have "norm_dyadic (m * 2 ^ Suc k) e = norm_dyadic (m * 2 ^ k) (e + 1)"
    by (subst norm_dyadic.simps) simp
  with Suc show ?case by simp
qed

lemma round_dyadic_exact:
  assumes d: "is_double m e" and m: "m \<noteq> 0"
  shows "round_dyadic (m < 0) (nat \<bar>m\<bar>) 1 e = Fin m e"
proof -
  let ?a = "nat \<bar>m\<bar>"
  have a: "0 < ?a" using m by simp
  from d m have odd: "odd m" and b53: "bitlen ?a \<le> 53" and emin: "-1074 \<le> e"
    and emax: "int (bitlen ?a) + e \<le> 1024"
    by (auto simp: is_double_def)
  have "0 < bitlen ?a" using a by (simp add: bitlen_pos)
  have t: "ilog2 ?a 1 + e = int (bitlen ?a) - 1 + e" using a by (simp add: ilog2_def)
  define j where "j = max (int (bitlen ?a) - 1 + e - 52) (-1074)"
  have je: "j \<le> e" using b53 emin by (simp add: j_def)
  define k where "k = nat (e - j)"
  have n: "?a * 2 ^ k \<noteq> 0" using a by simp
  have len: "int (bitlen (?a * 2 ^ k)) + j = int (bitlen ?a) + e"
    using a je by (simp add: bitlen_shift k_def)
  have sgn: "(if m < 0 then - int (?a * 2 ^ k) else int (?a * 2 ^ k)) = m * 2 ^ k" by auto
  have "mk_fin (m * 2 ^ k) j = Fin m e"
    using odd je by (simp add: mk_fin_def norm_dyadic_shift k_def)
  then show ?thesis
    using n len emax je sgn unfolding round_dyadic_def Let_def t j_def [symmetric] k_def [symmetric]
    by simp
qed

lemma two_powr_int: "0 \<le> k \<Longrightarrow> (2::real) powr real_of_int k = 2 ^ nat k"
  by (metis of_int_of_nat_eq of_nat_numeral powr_realpow zero_less_numeral nat_0_le)

lemma round_dyadic_real:
  assumes a: "0 < a" and b: "0 < b"
  shows "round_dyadic neg a b e = rnd_real neg (real a / real b * 2 powr e)"
proof -
  let ?x = "real a / real b * 2 powr e"
  have x: "0 < real a / real b" using a b by simp
  have t: "ilog2 a b + e = \<lfloor>log 2 ?x\<rfloor>"
  proof -
    have "log 2 ?x = log 2 (real a / real b) + log 2 (2 powr real_of_int e)"
      using x by (subst log_mult) auto
    then have "log 2 ?x = log 2 (real a / real b) + real_of_int e" by simp
    then show ?thesis using ilog2_floor [OF a b] by simp
  qed
  define j where "j = max (ilog2 a b + e - 52) (-1074)"
  have n: "(if j \<le> e then rne (a * 2 ^ nat (e - j)) b else rne a (b * 2 ^ nat (j - e))) = rhe (?x / 2 powr j)"
  proof (cases "j \<le> e")
    case True
    have "?x / 2 powr j = real a / real b * 2 powr real_of_int (e - j)"
      by (simp add: powr_diff)
    also have "\<dots> = real (a * 2 ^ nat (e - j)) / real b"
      using True two_powr_int [of "e - j"] by simp
    finally show ?thesis using True b by (simp add: rne_rhe)
  next
    case False
    have "?x / 2 powr j = real a / real b / 2 powr real_of_int (j - e)"
      by (simp add: powr_diff)
    also have "\<dots> = real a / real (b * 2 ^ nat (j - e))"
      using False two_powr_int [of "j - e"] by simp
    finally show ?thesis using False b by (simp add: rne_rhe)
  qed
  show ?thesis
    using a unfolding round_dyadic_def rnd_real_def Let_def t [symmetric] j_def [symmetric] n
    by simp
qed

lemma round_dyadic_cong:
  assumes "0 < a" "0 < b" "0 < a'" "0 < b'"
    and "real a / real b * 2 powr e = real a' / real b' * 2 powr e'"
  shows "round_dyadic neg a b e = round_dyadic neg a' b' e'"
  using assms by (simp add: round_dyadic_real)

subsection \<open>Every rounding is a double\<close>

lemma mk_fin_ok:
  assumes n: "0 < n" "n \<le> 2 ^ 53" and j: "-1074 \<le> j" and hi: "int (bitlen n) + j \<le> 1024"
  shows "jsnum_ok (mk_fin (if neg then - int n else int n) j)"
proof -
  let ?m = "if neg then - int n else int n"
  obtain m' e' where nd: "norm_dyadic ?m j = (m', e')" by fastforce
  have m0: "?m \<noteq> 0" using n by simp
  from norm_dyadic_spec [OF nd] m0 have odd: "odd m'" and je: "j \<le> e'" and eq: "?m = m' * 2 ^ nat (e' - j)"
    by auto
  have am: "n = nat \<bar>m'\<bar> * 2 ^ nat (e' - j)"
  proof -
    have "int n = \<bar>?m\<bar>" by simp
    also have "\<dots> = \<bar>m'\<bar> * 2 ^ nat (e' - j)" by (simp add: eq abs_mult)
    finally show ?thesis by (metis nat_int nat_mult_distrib abs_ge_zero nat_power_eq zero_le_numeral nat_numeral)
  qed
  have m'0: "0 < nat \<bar>m'\<bar>" using odd by (auto intro: Nat.gr0I)
  have bl: "bitlen n = bitlen (nat \<bar>m'\<bar>) + nat (e' - j)"
    using am bitlen_shift [OF m'0] by simp
  have "bitlen n \<le> 54" using n(2) bitlen_less_iff [of n 54] by simp
  have b53: "bitlen (nat \<bar>m'\<bar>) \<le> 53"
  proof (cases "e' = j")
    case True
    with am have "n = nat \<bar>m'\<bar>" by simp
    moreover have "n \<noteq> 2 ^ 53"
    proof
      assume "n = 2 ^ 53"
      moreover have "m' = ?m" using True eq by simp
      ultimately have "even m'" by simp
      with odd show False by simp
    qed
    ultimately have "nat \<bar>m'\<bar> < 2 ^ 53" using n(2) by simp
    then show ?thesis using bitlen_less_iff [of "nat \<bar>m'\<bar>" 53] by simp
  next
    case False
    with je bl \<open>bitlen n \<le> 54\<close> show ?thesis by simp
  qed
  have "int (bitlen (nat \<bar>m'\<bar>)) + e' = int (bitlen n) + j" using bl je by simp
  with b53 odd je j hi show ?thesis by (simp add: mk_fin_def nd is_double_def)
qed

lemma rhe_le: "0 \<le> y \<Longrightarrow> y < 2 ^ k \<Longrightarrow> rhe y \<le> 2 ^ k"
proof -
  assume y: "0 \<le> y" "y < 2 ^ k"
  have "\<lfloor>y\<rfloor> < 2 ^ k" using y(2) by (metis floor_less_iff of_int_numeral of_int_power)
  then have "nat \<lfloor>y\<rfloor> < 2 ^ k" by (metis nat_less_iff of_nat_numeral of_nat_power floor_less_iff y(1) zero_le_floor)
  then have s: "Suc (nat \<lfloor>y\<rfloor>) \<le> 2 ^ k" by (rule Suc_leI)
  have "rhe y \<le> Suc (nat \<lfloor>y\<rfloor>)" by (simp add: rhe_def Let_def)
  from this s show ?thesis by (rule le_trans)
qed

lemma rnd_real_ok:
  assumes x: "0 < x"
  shows "jsnum_ok (rnd_real neg x)"
proof -
  define t where "t = \<lfloor>log 2 x\<rfloor>"
  define j where "j = max (t - 52) (-1074)"
  define n where "n = rhe (x / 2 powr j)"
  have "log 2 x < real_of_int t + 1" using t_def by linarith
  then have "x < 2 powr (real_of_int t + 1)" using x by (simp add: log_less_iff)
  then have "x / 2 powr j < 2 powr (real_of_int t + 1 - real_of_int j)" by (simp add: powr_diff divide_strict_right_mono)
  also have "\<dots> \<le> 2 powr 53" by (intro powr_mono) (auto simp: j_def)
  also have "\<dots> = 2 ^ 53" by (simp add: powr_realpow)
  finally have "rhe (x / 2 powr j) \<le> 2 ^ 53" using x by (intro rhe_le) auto
  then have "n \<le> 2 ^ 53" by (simp add: n_def)
  moreover have "-1074 \<le> j" by (simp add: j_def)
  ultimately show ?thesis
    unfolding rnd_real_def Let_def t_def [symmetric] j_def [symmetric] n_def [symmetric]
    using mk_fin_ok [of n j True] mk_fin_ok [of n j False] by (auto simp: is_double_def)
qed

lemma round_dyadic_ok: "0 < b \<Longrightarrow> jsnum_ok (round_dyadic neg a b e)"
proof (cases "a = 0")
  case True
  then show ?thesis by (simp add: round_dyadic_def is_double_def)
next
  case False
  assume b: "0 < b"
  have "0 < real a / real b * 2 powr e" using False b by simp
  with False b show ?thesis by (simp add: round_dyadic_real rnd_real_ok)
qed

subsection \<open>Decimal digits\<close>

lemma digit_char_is_digit: "d < 10 \<Longrightarrow> is_digit (digit_char d)"
  by (simp add: digit_char_def is_digit_def)

lemma digit_val_digit_char: "d < 10 \<Longrightarrow> digit_val (digit_char d) = d"
  by (simp add: digit_char_def digit_val_def)

lemma nat_to_dec_digits: "digits_num (nat_to_dec n)"
proof (induction n rule: nat_to_dec.induct)
  case (1 n)
  then show ?case
    by (subst nat_to_dec.simps) (auto simp: digits_num_def digit_char_is_digit)
qed

lemma dec_value_append: "dec_value acc (xs @ ys) = dec_value (dec_value acc xs) ys"
  by (induction xs arbitrary: acc) auto

lemma dec_value_snoc: "dec_value acc (xs @ [c]) = 10 * dec_value acc xs + digit_val c"
  by (simp add: dec_value_append)

lemma dec_value_nat_to_dec: "dec_value 0 (nat_to_dec n) = n"
proof (induction n rule: nat_to_dec.induct)
  case (1 n)
  show ?case
  proof (cases "n < 10")
    case True
    then show ?thesis by (subst nat_to_dec.simps) (simp add: digit_val_digit_char)
  next
    case False
    with "1.IH" show ?thesis
      by (subst nat_to_dec.simps) (simp add: dec_value_snoc digit_val_digit_char)
  qed
qed

lemma dec_value_zeros: "dec_value acc (replicate z CHR ''0'') = acc * 10 ^ z"
  by (induction z arbitrary: acc) (auto simp: digit_val_def)

lemma dec_value_mono_acc: "dec_value 0 (replicate z CHR ''0'' @ ds) = dec_value 0 ds"
  by (simp add: dec_value_append dec_value_zeros)

lemma length_nat_to_dec: "0 < n \<Longrightarrow> 10 ^ k \<le> n \<longleftrightarrow> k < length (nat_to_dec n)"
proof (induction n arbitrary: k rule: nat_to_dec.induct)
  case (1 n)
  show ?case
  proof (cases "n < 10")
    case True
    then show ?thesis
    proof (cases k)
      case (Suc j)
      have "(10::nat) \<le> 10 * 10 ^ j" by simp
      then have "\<not> 10 * 10 ^ j \<le> n" using True by linarith
      with Suc have "\<not> 10 ^ k \<le> n" by simp
      with True Suc show ?thesis by (subst nat_to_dec.simps) simp
    qed (use "1.prems" in \<open>subst nat_to_dec.simps, simp\<close>)
  next
    case False
    have d: "0 < n div 10" using False by simp
    have len: "length (nat_to_dec n) = Suc (length (nat_to_dec (n div 10)))"
      using False by (subst nat_to_dec.simps) simp
    show ?thesis
    proof (cases k)
      case 0
      then show ?thesis using False len by simp
    next
      case (Suc j)
      have "10 ^ k \<le> n \<longleftrightarrow> 10 ^ j \<le> n div 10"
        using Suc by (simp add: less_eq_div_iff_mult_less_eq mult.commute)
      also have "\<dots> \<longleftrightarrow> j < length (nat_to_dec (n div 10))" using "1.IH" [OF False d] .
      finally show ?thesis using Suc len by simp
    qed
  qed
qed

lemma dec_len_eq: "0 < k \<Longrightarrow> 10 ^ (k - 1) \<le> s \<Longrightarrow> s < 10 ^ k \<Longrightarrow> dec_len s = k"
proof -
  assume k: "0 < k" and lo: "10 ^ (k - 1) \<le> s" and hi: "s < 10 ^ k"
  have s: "0 < s" using lo by (metis less_le_trans zero_less_power zero_less_numeral)
  show ?thesis using length_nat_to_dec [OF s, of "k - 1"] length_nat_to_dec [OF s, of k] k lo hi
    by (simp add: dec_len_def)
qed

lemma dec_len_pos: "0 < dec_len s"
  using nat_to_dec_digits [of s] by (simp add: dec_len_def digits_num_def)

lemma digits_split:
  assumes "list_all is_digit ds" "\<not> is_digit c"
  shows "takeWhile is_digit (ds @ c # r) = ds" "dropWhile is_digit (ds @ c # r) = c # r"
  using assms by (simp_all add: takeWhile_append2 dropWhile_append2 list_all_iff)

lemma digits_all:
  assumes "list_all is_digit ds"
  shows "takeWhile is_digit ds = ds" "dropWhile is_digit ds = []"
  using assms by (simp_all add: list_all_iff)

lemma nat_to_dec_ne: "nat_to_dec s \<noteq> []" and nat_to_dec_all: "list_all is_digit (nat_to_dec s)"
  using nat_to_dec_digits [of s] by (simp_all add: digits_num_def)

lemma zero_digit [simp]: "is_digit CHR ''0''"
  and point_not_digit [simp]: "\<not> is_digit CHR ''.''"
  and e_not_digit [simp]: "\<not> is_digit CHR ''e''"
  and plus_not_digit [simp]: "\<not> is_digit CHR ''+''"
  and minus_not_digit [simp]: "\<not> is_digit CHR ''-''"
  by (simp_all add: is_digit_def)

lemma parse_exponent_dec:
  "parse_exponent (CHR ''e'' # (if 0 \<le> i then CHR ''+'' else CHR ''-'') # nat_to_dec (nat \<bar>i\<bar>)) = Some i"
  using nat_to_dec_digits [of "nat \<bar>i\<bar>"] by (simp add: parse_exponent_def dec_value_nat_to_dec)

subsection \<open>The digit search of Number::toString\<close>

lemma dec_round_shift: "0 < s \<Longrightarrow> dec_round (s * 10 ^ z) 0 = dec_round s (int z)"
proof -
  assume s: "0 < s"
  have "real (s * 10 ^ z) = real (s * 5 ^ z) * 2 ^ z" by (simp add: power_mult_distrib [symmetric])
  then have "real (s * 10 ^ z * 5 ^ nat 0) / real (1::nat) * 2 powr real_of_int 0
      = real (s * 5 ^ nat (int z)) / real (1::nat) * 2 powr real_of_int (int z)"
    by (simp add: powr_realpow)
  with s show ?thesis unfolding dec_round_def by (simp add: round_dyadic_cong)
qed

lemma dec_round_exact:
  assumes m: "0 < m" and d: "is_double (int m) e" and x: "exact_dec m e = (M, E)"
  shows "dec_round M E = Fin (int m) e"
proof -
  have r: "round_dyadic False m 1 e = Fin (int m) e"
    using round_dyadic_exact [OF d] m by simp
  show ?thesis
  proof (cases "0 \<le> e")
    case True
    with x have M: "M = m * 2 ^ nat e" "E = 0" by (auto simp: exact_dec_def)
    have "real (M * 5 ^ nat E) / real (1::nat) * 2 powr real_of_int E = real m / real (1::nat) * 2 powr real_of_int e"
      using True M two_powr_int [of e] by simp
    with m M have "round_dyadic False (M * 5 ^ nat E) 1 E = round_dyadic False m 1 e"
      by (intro round_dyadic_cong) auto
    with r M show ?thesis by (simp add: dec_round_def)
  next
    case False
    with x have M: "M = m * 5 ^ nat (- e)" "E = e" by (auto simp: exact_dec_def)
    have "real M / real ((5::nat) ^ nat (- E)) * 2 powr real_of_int E = real m / real (1::nat) * 2 powr real_of_int e"
      using M by simp
    with m M have "round_dyadic False M (5 ^ nat (- E)) E = round_dyadic False m 1 e"
      by (intro round_dyadic_cong) auto
    with r M False show ?thesis by (simp add: dec_round_def)
  qed
qed

lemma closest_cand_in: "closest_cand M E k w cs = Some c \<Longrightarrow> c \<in> set cs"
  by (induction cs arbitrary: c) (auto simp: Let_def split: option.splits if_splits)

lemma digit_cands_spec:
  assumes "(s, n) \<in> set (digit_cands x M E k)" "0 < k"
  shows "0 < s \<and> dec_len s = k \<and> dec_round s (n - int k) = x"
proof -
  from assms(1) have "(\<lambda>(s, n). 10 ^ (k - 1) \<le> s \<and> s < 10 ^ k \<and> dec_round s (n - int k) = x) (s, n)"
    unfolding digit_cands_def Let_def set_filter by blast
  then have lo: "10 ^ (k - 1) \<le> s" and hi: "s < 10 ^ k" and r: "dec_round s (n - int k) = x"
    by simp_all
  have "0 < s" using lo by (metis less_le_trans zero_less_power zero_less_numeral)
  with dec_len_eq [OF assms(2) lo hi] r show ?thesis by simp
qed

lemma shortest_spec:
  "shortest fuel x M E k = (s, k', n) \<Longrightarrow> 0 < k \<Longrightarrow>
     (0 < s \<and> dec_len s = k' \<and> dec_round s (n - int k') = x) \<or> (s = M \<and> k' = dec_len M \<and> n = int (dec_len M) + E)"
proof (induction fuel arbitrary: k)
  case 0
  then show ?case by auto
next
  case (Suc fuel)
  show ?case
  proof (cases "closest_cand M E k (min E (int (dec_len M) + E - int k)) (digit_cands x M E k)")
    case None
    with Suc.prems Suc.IH [of "Suc k"] show ?thesis by simp
  next
    case (Some c)
    with Suc.prems have c: "c = (s, n)" "k' = k" by (auto split: prod.splits)
    from closest_cand_in [OF Some] c have "(s, n) \<in> set (digit_cands x M E k)" by simp
    from digit_cands_spec [OF this Suc.prems(2)] c show ?thesis by simp
  qed
qed

lemma pos_to_string_spec:
  assumes m: "0 < m" and d: "is_double (int m) e"
  obtains s n where "0 < s" "pos_to_string m e = fmt_digits s (dec_len s) n"
    "dec_round s (n - int (dec_len s)) = Fin (int m) e"
proof -
  obtain M E where x: "exact_dec m e = (M, E)" by fastforce
  have M: "0 < M" using x m by (auto simp: exact_dec_def split: if_splits)
  obtain s k n where sh: "shortest (dec_len M) (Fin (int m) e) M E 1 = (s, k, n)"
    by (metis prod_cases3)
  have p: "pos_to_string m e = fmt_digits s k n" using sh by (simp add: pos_to_string_def x)
  from shortest_spec [OF sh] consider
    "0 < s" "dec_len s = k" "dec_round s (n - int k) = Fin (int m) e"
    | "s = M" "k = dec_len M" "n = int (dec_len M) + E" by auto
  then show ?thesis
  proof cases
    case 1
    then show ?thesis using p that by simp
  next
    case 2
    then show ?thesis using p that M dec_round_exact [OF m d x] by simp
  qed
qed

subsection \<open>The four output formats parse back\<close>

lemma list_all_take_drop:
  "list_all P xs \<Longrightarrow> list_all P (take n xs)" "list_all P xs \<Longrightarrow> list_all P (drop n xs)"
  by (auto simp: list_all_iff dest: in_set_takeD in_set_dropD)

lemma parse_fmt_digits:
  assumes s: "0 < s"
  shows "parse_decimal (fmt_digits s (dec_len s) n) = Some (s', x') \<Longrightarrow> dec_round s' x' = dec_round s (n - int (dec_len s))"
    and "\<exists>r. parse_decimal (fmt_digits s (dec_len s) n) = Some r"
proof -
  let ?ds = "nat_to_dec s"
  let ?k = "dec_len s"
  let ?es = "(if 0 \<le> n - 1 then CHR ''+'' else CHR ''-'') # nat_to_dec (nat \<bar>n - 1\<bar>)"
  have all: "list_all is_digit ?ds" and ne: "?ds \<noteq> []" by (rule nat_to_dec_all, rule nat_to_dec_ne)
  have val: "dec_value 0 ?ds = s" by (rule dec_value_nat_to_dec)
  have len: "length ?ds = ?k" by (simp add: dec_len_def)
  have zall: "list_all is_digit (replicate z CHR ''0'')" for z by (simp add: list_all_iff)
  have ex: "parse_exponent (CHR ''e'' # ?es) = Some (n - 1)" by (rule parse_exponent_dec)
  have "parse_decimal (fmt_digits s ?k n) = Some (s * 10 ^ (nat n - ?k), 0) \<and> int ?k \<le> n
      \<or> parse_decimal (fmt_digits s ?k n) = Some (s, n - int ?k)"
  proof (cases "int ?k \<le> n \<and> n \<le> 21")
    case True
    let ?t = "?ds @ replicate (nat n - ?k) CHR ''0''"
    have "list_all is_digit ?t" using all zall by simp
    then have "parse_decimal ?t = Some (dec_value 0 ?t, 0)" using ne
      by (simp add: parse_decimal_def digits_all)
    then show ?thesis using True val by (simp add: fmt_digits_def dec_value_append dec_value_zeros)
  next
    case c1: False
    show ?thesis
    proof (cases "0 < n \<and> n \<le> 21")
      case True
      with c1 have nk: "nat n < ?k" by linarith
      have d1: "list_all is_digit (take (nat n) ?ds)" "take (nat n) ?ds \<noteq> []" and
        d2: "list_all is_digit (drop (nat n) ?ds)"
        using all ne True by (auto simp: list_all_take_drop)
      have "parse_decimal (take (nat n) ?ds @ CHR ''.'' # drop (nat n) ?ds)
          = Some (dec_value 0 (take (nat n) ?ds @ drop (nat n) ?ds), 0 - int (length (drop (nat n) ?ds)))"
        using d1 d2 by (simp add: parse_decimal_def digits_split digits_all parse_exponent_def)
      then show ?thesis using c1 True val len nk by (simp add: fmt_digits_def Let_def)
    next
      case c2: False
      show ?thesis
      proof (cases "-6 < n \<and> n \<le> 0")
        case True
        let ?u = "replicate (nat (- n)) CHR ''0'' @ ?ds"
        have "list_all is_digit ?u" using all zall by simp
        then have "parse_decimal (CHR ''0'' # CHR ''.'' # ?u) = Some (dec_value 0 (CHR ''0'' # ?u), 0 - int (length ?u))"
          by (simp add: parse_decimal_def digits_all parse_exponent_def)
        moreover have "dec_value 0 (CHR ''0'' # ?u) = s"
          using val by (simp add: digit_val_def dec_value_mono_acc)
        ultimately show ?thesis using c1 c2 True len by (simp add: fmt_digits_def Let_def)
      next
        case c3: False
        show ?thesis
        proof (cases "?k = 1")
          case True
          have "parse_decimal (?ds @ CHR ''e'' # ?es) = Some (s, n - 1)"
            using all ne val ex by (simp add: parse_decimal_def digits_split)
          moreover have "fmt_digits s ?k n = ?ds @ CHR ''e'' # ?es"
            using c1 c2 c3 True by (simp only: fmt_digits_def Let_def if_False if_True) simp
          ultimately show ?thesis using True by simp
        next
          case False
          have k1: "1 < ?k" using False dec_len_pos [of s] by linarith
          have d1: "list_all is_digit (take 1 ?ds)" "take 1 ?ds \<noteq> []" and
            d2: "list_all is_digit (drop 1 ?ds)"
            using all ne by (auto simp: list_all_take_drop)
          have "parse_decimal (take 1 ?ds @ CHR ''.'' # drop 1 ?ds @ CHR ''e'' # ?es)
              = Some (dec_value 0 (take 1 ?ds @ drop 1 ?ds), (n - 1) - int (length (drop 1 ?ds)))"
            using d1 d2 ex by (simp add: parse_decimal_def digits_split)
          moreover have "fmt_digits s ?k n = take 1 ?ds @ CHR ''.'' # drop 1 ?ds @ CHR ''e'' # ?es"
            using c1 c2 c3 False by (simp only: fmt_digits_def Let_def if_False if_True)
          ultimately show ?thesis using val len k1 by simp
        qed
      qed
    qed
  qed
  then show "\<exists>r. parse_decimal (fmt_digits s ?k n) = Some r" by blast
  show "parse_decimal (fmt_digits s ?k n) = Some (s', x') \<Longrightarrow> dec_round s' x' = dec_round s (n - int ?k)"
    using \<open>_ \<or> _\<close> dec_round_shift [OF s] by auto
qed

lemma fmt_digits_chars: "list_all (\<lambda>c. is_digit c \<or> c \<in> set ''.e+-'') (fmt_digits s k n)"
  using nat_to_dec_all [of s] nat_to_dec_all [of "nat \<bar>n - 1\<bar>"]
  by (auto simp: fmt_digits_def Let_def list_all_iff dest: in_set_takeD in_set_dropD)

lemma fmt_digits_hd: "\<exists>c r. fmt_digits s k n = c # r \<and> is_digit c"
proof -
  obtain d ds where ds: "nat_to_dec s = d # ds" using nat_to_dec_ne [of s] by (cases "nat_to_dec s") auto
  have "is_digit d" using nat_to_dec_all [of s] ds by simp
  then show ?thesis using ds by (auto simp: fmt_digits_def Let_def take_Cons' nat_less_iff)
qed

lemma dropWhile_none: "\<forall>c \<in> set s. \<not> P c \<Longrightarrow> dropWhile P s = s"
  by (induction s) auto

lemma num_chars_trim: "list_all (\<lambda>c. is_digit c \<or> c \<in> set ''.e+-'') t \<Longrightarrow> js_trim t = t"
proof -
  assume t: "list_all (\<lambda>c. is_digit c \<or> c \<in> set ''.e+-'') t"
  have "\<not> js_space c" if "is_digit c \<or> c \<in> set ''.e+-''" for c
    using that by (auto simp: is_digit_def js_space_def)
  with t have "\<forall>c \<in> set t. \<not> js_space c" "\<forall>c \<in> set (rev t). \<not> js_space c"
    by (auto simp: list_all_iff)
  then show ?thesis by (simp add: js_trim_def dropWhile_none)
qed

lemma num_chars_radix: "list_all (\<lambda>c. is_digit c \<or> c \<in> set ''.e+-'') t \<Longrightarrow> parse_radix t = None"
  by (auto simp: parse_radix_def is_digit_def split: list.splits)

lemma str_to_num_fmt:
  assumes s: "0 < s"
  shows "str_to_num (fmt_digits s (dec_len s) n) = dec_round s (n - int (dec_len s))"
    and "str_to_num (CHR ''-'' # fmt_digits s (dec_len s) n) = num_neg (dec_round s (n - int (dec_len s)))"
proof -
  let ?t = "fmt_digits s (dec_len s) n"
  have ch: "list_all (\<lambda>c. is_digit c \<or> c \<in> set ''.e+-'') ?t" by (rule fmt_digits_chars)
  then have ch': "list_all (\<lambda>c. is_digit c \<or> c \<in> set ''.e+-'') (CHR ''-'' # ?t)" by simp
  obtain c r where cr: "?t = c # r" and c: "is_digit c" using fmt_digits_hd by blast
  have inf: "?t \<noteq> ''Infinity''" using cr c by (auto simp: is_digit_def)
  obtain p where p: "parse_decimal ?t = Some p" using parse_fmt_digits(2) [OF s] by blast
  have u: "parse_unsigned ?t = dec_round s (n - int (dec_len s))"
    using inf p parse_fmt_digits(1) [OF s] by (cases p) (simp add: parse_unsigned_def)
  have cm: "c \<noteq> CHR ''-''" "c \<noteq> CHR ''+''" using c by auto
  show "str_to_num ?t = dec_round s (n - int (dec_len s))"
    using num_chars_trim [OF ch] num_chars_radix [OF ch] cr cm u by (simp add: str_to_num_def)
  show "str_to_num (CHR ''-'' # ?t) = num_neg (dec_round s (n - int (dec_len s)))"
    using num_chars_trim [OF ch'] num_chars_radix [OF ch'] u by (simp add: str_to_num_def)
qed

lemma str_to_num_zero: "str_to_num ''0'' = Fin 0 0"
  by (simp add: str_to_num_def js_trim_def js_space_def parse_radix_def parse_unsigned_def
      parse_decimal_def is_digit_def digit_val_def dec_round_def round_dyadic_def)

lemma is_double_neg: "is_double m e \<Longrightarrow> is_double (- m) e"
  by (simp add: is_double_def)

lemma str_to_num_num_to_string: "jsnum_ok x \<Longrightarrow> x \<noteq> NegZero \<Longrightarrow> str_to_num (num_to_string x) = x"
proof (cases x)
  case (Fin m e)
  assume ok: "jsnum_ok x"
  then have d: "is_double m e" using Fin by simp
  consider "m = 0" | "0 < m" | "m < 0" by linarith
  then show ?thesis
  proof cases
    case 1
    then have "e = 0" using d by (simp add: is_double_def)
    with 1 Fin show ?thesis
      by (simp add: str_to_num_def js_trim_def js_space_def parse_radix_def parse_unsigned_def
          parse_decimal_def is_digit_def digit_val_def dec_round_def round_dyadic_def)
  next
    case 2
    then have "is_double (int (nat m)) e" using d by simp
    from pos_to_string_spec [OF _ this] 2 obtain s n where
      "0 < s" "pos_to_string (nat m) e = fmt_digits s (dec_len s) n"
      "dec_round s (n - int (dec_len s)) = Fin (int (nat m)) e" by auto
    with 2 Fin show ?thesis by (simp add: str_to_num_fmt(1))
  next
    case 3
    then have "is_double (int (nat (- m))) e" using is_double_neg [OF d] by simp
    from pos_to_string_spec [OF _ this] 3 obtain s n where
      "0 < s" "pos_to_string (nat (- m)) e = fmt_digits s (dec_len s) n"
      "dec_round s (n - int (dec_len s)) = Fin (int (nat (- m))) e" by auto
    with 3 Fin show ?thesis by (simp add: str_to_num_fmt(2))
  qed
qed (simp_all add: str_to_num_def js_trim_def js_space_def parse_radix_def parse_unsigned_def
       parse_decimal_def is_digit_def)

subsection \<open>The operations stay within binary64\<close>

lemma num_neg_ok: "jsnum_ok x \<Longrightarrow> jsnum_ok (num_neg x)"
  by (cases x) (auto simp: is_double_def)

lemma add_fin_ok: "jsnum_ok (add_fin m1 e1 m2 e2)"
  by (simp add: add_fin_def Let_def round_dyadic_ok is_double_def)

lemma num_add_ok: "jsnum_ok x \<Longrightarrow> jsnum_ok y \<Longrightarrow> jsnum_ok (num_add x y)"
  by (induction x y rule: num_add.induct) (simp_all add: add_fin_ok)

lemma num_of_int_ok: "jsnum_ok (num_of_int i)"
  by (simp add: num_of_int_def round_dyadic_ok is_double_def)

lemma dec_round_ok: "jsnum_ok (dec_round s x)"
  by (simp add: dec_round_def round_dyadic_ok)

subsection \<open>Addition is rounding of the real sum\<close>

lemma round_dyadic_round_real:
  "0 < b \<Longrightarrow> round_dyadic neg a b e = (if a = 0 then (if neg then NegZero else Fin 0 0) else rnd_real neg (real a / real b * 2 powr e))"
  by (simp add: round_dyadic_real) (simp add: round_dyadic_def)

lemma two_powr_split: "e \<le> e1 \<Longrightarrow> (2::real) powr real_of_int e1 = 2 ^ nat (e1 - e) * 2 powr real_of_int e"
proof -
  assume "e \<le> e1"
  have "(2::real) powr real_of_int e1 = 2 powr real_of_int (e1 - e) * 2 powr real_of_int e"
    by (simp add: powr_add [symmetric])
  moreover have "(2::real) powr real_of_int (e1 - e) = 2 ^ nat (e1 - e)" using two_powr_int [of "e1 - e"] \<open>e \<le> e1\<close> by simp
  ultimately show ?thesis by simp
qed

lemma add_fin_round_real:
  "add_fin m1 e1 m2 e2 = round_real (real_of_int m1 * 2 powr e1 + real_of_int m2 * 2 powr e2)"
proof -
  define e where "e = min e1 e2"
  define s where "s = m1 * 2 ^ nat (e1 - e) + m2 * 2 ^ nat (e2 - e)"
  have v: "real_of_int m1 * 2 powr e1 + real_of_int m2 * 2 powr e2 = real_of_int s * 2 powr e"
  proof -
    have "2 powr real_of_int e1 = 2 ^ nat (e1 - e) * 2 powr real_of_int e"
      by (rule two_powr_split) (simp add: e_def)
    moreover have "2 powr real_of_int e2 = 2 ^ nat (e2 - e) * 2 powr real_of_int e"
      by (rule two_powr_split) (simp add: e_def)
    ultimately show ?thesis by (simp add: s_def algebra_simps)
  qed
  have a: "add_fin m1 e1 m2 e2 = (if s = 0 then Fin 0 0 else round_dyadic (s < 0) (nat \<bar>s\<bar>) 1 e)"
    by (simp add: add_fin_def Let_def e_def s_def)
  show ?thesis
  proof (cases "s = 0")
    case True
    then show ?thesis using a v by (simp add: round_real_def)
  next
    case False
    have "\<bar>real_of_int s * 2 powr e\<bar> = real (nat \<bar>s\<bar>) / real (1::nat) * 2 powr e" by (simp add: abs_mult)
    moreover have "real_of_int s * 2 powr e < 0 \<longleftrightarrow> s < 0" by (simp add: mult_less_0_iff)
    ultimately show ?thesis using a v False by (simp add: round_dyadic_round_real round_real_def)
  qed
qed

lemma num_of_int_round_real: "num_of_int i = round_real (real_of_int i)"
  by (simp add: num_of_int_def round_dyadic_round_real round_real_def)

lemma round_real_fin:
  assumes "jsnum_ok (Fin m e)"
  shows "round_real (real_of_int m * 2 powr e) = Fin m e"
proof (cases "m = 0")
  case True
  with assms show ?thesis by (simp add: round_real_def is_double_def)
next
  case False
  have "\<bar>real_of_int m * 2 powr e\<bar> = real (nat \<bar>m\<bar>) / real (1::nat) * 2 powr e" by (simp add: abs_mult)
  moreover have "real_of_int m * 2 powr e < 0 \<longleftrightarrow> m < 0" by (simp add: mult_less_0_iff)
  ultimately show ?thesis using round_dyadic_exact [of m e] assms False
    by (simp add: round_real_def round_dyadic_round_real)
qed

lemma mk_fin_value: "mk_fin m e = Fin m' e' \<Longrightarrow> real_of_int m' * 2 powr e' = real_of_int m * 2 powr e"
proof -
  assume f: "mk_fin m e = Fin m' e'"
  obtain a b where nd: "norm_dyadic m e = (a, b)" by fastforce
  with f have ab: "a = m'" "b = e'" by (simp_all add: mk_fin_def)
  note spec = norm_dyadic_spec [OF nd, unfolded ab]
  show ?thesis
  proof (cases "m = 0")
    case True
    with spec show ?thesis by simp
  next
    case False
    with spec have le: "e \<le> e'" and m: "m = m' * 2 ^ nat (e' - e)" by simp_all
    have "real_of_int m * 2 powr e = real_of_int m' * (2 ^ nat (e' - e) * 2 powr e)" by (simp add: m)
    also have "\<dots> = real_of_int m' * 2 powr e'" by (simp only: two_powr_split [OF le])
    finally show ?thesis by simp
  qed
qed

lemma num_of_int_safe:
  assumes i: "\<bar>i\<bar> \<le> 2 ^ 53"
  obtains m e where "num_of_int i = Fin m e" "real_of_int m * 2 powr e = real_of_int i"
proof (cases "i = 0")
  case True
  then show ?thesis using that by (simp add: num_of_int_def)
next
  case False
  have n: "0 < nat \<bar>i\<bar>" "nat \<bar>i\<bar> \<le> 2 ^ 53" using False i by (simp_all add: nat_le_iff)
  have "bitlen (nat \<bar>i\<bar>) \<le> 54" using n(2) bitlen_less_iff [of "nat \<bar>i\<bar>" 54] by simp
  then have "jsnum_ok (mk_fin (if i < 0 then - int (nat \<bar>i\<bar>) else int (nat \<bar>i\<bar>)) 0)"
    using n by (intro mk_fin_ok) auto
  then have ok: "jsnum_ok (mk_fin i 0)" by (simp split: if_splits)
  obtain m e where f: "mk_fin i 0 = Fin m e" by (cases "norm_dyadic i 0") (simp add: mk_fin_def)
  have v: "real_of_int m * 2 powr e = real_of_int i" using mk_fin_value [OF f] by simp
  from ok f have "jsnum_ok (Fin m e)" by simp
  then have "round_real (real_of_int m * 2 powr e) = Fin m e" by (rule round_real_fin)
  then have "num_of_int i = Fin m e" by (simp only: v num_of_int_round_real)
  with v show ?thesis using that by simp
qed

subsection \<open>Nearest doubles\<close>

text \<open>\<open>round_real y\<close>, when finite, is a double nearest \<open>y\<close>: \<open>rhe\<close> picks a nearest
  multiple of the quantum \<open>2^j\<close> of \<open>y\<close>'s binade, and a double that is not such a
  multiple lies below the binade, further from \<open>y\<close> than its lower end.\<close>

lemma rhe_nearest:
  assumes q: "0 \<le> q"
  shows "\<bar>q - real (rhe q)\<bar> \<le> \<bar>q - real_of_int k\<bar>"
proof -
  define d where "d = nat \<lfloor>q\<rfloor>"
  have d: "real d \<le> q" "q < real d + 1" using q by (simp_all add: d_def)
  have r: "rhe q = d \<or> rhe q = Suc d" by (simp add: rhe_def Let_def d_def [symmetric])
  have near: "\<bar>q - real (rhe q)\<bar> \<le> q - real d" "\<bar>q - real (rhe q)\<bar> \<le> real d + 1 - q"
    using d by (auto simp: rhe_def Let_def d_def [symmetric] split: if_splits)
  show ?thesis
  proof (cases "k \<le> int d")
    case True
    then have "real_of_int k \<le> real d" by linarith
    then show ?thesis using near(1) d by linarith
  next
    case False
    then have "real d + 1 \<le> real_of_int k" by linarith
    then show ?thesis using near(2) d by linarith
  qed
qed

lemma abs_scale: "(0::real) < p \<Longrightarrow> \<bar>x - a * p\<bar> = \<bar>x / p - a\<bar> * p"
proof -
  assume p: "0 < p"
  have "x - a * p = (x / p - a) * p" using p by (simp add: field_simps)
  then show ?thesis using p by (simp add: abs_mult)
qed

lemma powr_floor_log_le: "0 < x \<Longrightarrow> (2::real) powr real_of_int \<lfloor>log 2 x\<rfloor> \<le> x"
proof -
  assume x: "0 < x"
  have "(2::real) powr real_of_int \<lfloor>log 2 x\<rfloor> \<le> 2 powr log 2 x" by (intro powr_mono) auto
  then show ?thesis using x by simp
qed

lemma is_double_below:
  assumes d: "is_double m e" and m: "0 < m" and e: "e + 53 \<le> t"
  shows "real_of_int m * 2 powr e < 2 powr real_of_int t"
proof -
  from d m have "bitlen (nat m) \<le> 53" by (auto simp: is_double_def)
  then have "nat m < 2 ^ 53" using bitlen_less_iff [of "nat m" 53] by simp
  then have "m < 2 ^ 53" using m by (simp add: nat_less_iff)
  then have "real_of_int m < 2 ^ 53" by simp
  then have "real_of_int m * 2 powr e < 2 ^ 53 * 2 powr e" by simp
  also have "\<dots> = 2 powr real_of_int (e + 53)" by (simp add: powr_add powr_realpow [symmetric] mult.commute)
  also have "\<dots> \<le> 2 powr real_of_int t" using e by (intro powr_mono) auto
  finally show ?thesis .
qed

lemma rnd_real_value:
  assumes r: "rnd_real neg x = Fin m e"
  shows "real_of_int m * 2 powr e =
           (if neg then - 1 else 1) * real (rhe (x / 2 powr max (\<lfloor>log 2 x\<rfloor> - 52) (-1074))) * 2 powr max (\<lfloor>log 2 x\<rfloor> - 52) (-1074)"
proof -
  define j where "j = max (\<lfloor>log 2 x\<rfloor> - 52) (-1074)"
  define n where "n = rhe (x / 2 powr j)"
  have r': "(if n = 0 then (if neg then NegZero else Fin 0 0)
            else if 1024 < int (bitlen n) + j then (if neg then NegInf else PosInf)
            else mk_fin (if neg then - int n else int n) j) = Fin m e"
    using r unfolding rnd_real_def Let_def j_def [symmetric] n_def [symmetric] .
  have "real_of_int m * 2 powr e = (if neg then - 1 else 1) * real n * 2 powr j"
  proof (cases "n = 0")
    case True
    with r' show ?thesis by (auto split: if_splits)
  next
    case False
    with r' have f: "mk_fin (if neg then - int n else int n) j = Fin m e" by (auto split: if_splits)
    show ?thesis by (simp only: mk_fin_value [OF f]) simp
  qed
  then show ?thesis by (simp add: j_def n_def)
qed

lemma rnd_real_nearest:
  assumes x: "0 < x" and r: "rnd_real neg x = Fin m e" and d: "is_double m' e'"
  shows "\<bar>x - (if neg then - 1 else 1) * (real_of_int m * 2 powr e)\<bar> \<le> \<bar>x - real_of_int m' * 2 powr e'\<bar>"
proof -
  define t where "t = \<lfloor>log 2 x\<rfloor>"
  define j where "j = max (t - 52) (-1074)"
  define n where "n = rhe (x / 2 powr j)"
  have v: "(if neg then - 1 else 1) * (real_of_int m * 2 powr e) = real n * 2 powr j"
    using rnd_real_value [OF r] by (simp add: n_def j_def t_def)
  have mult: "\<bar>x - real n * 2 powr j\<bar> \<le> \<bar>x - real_of_int k * 2 powr j\<bar>" for k
  proof -
    have "\<bar>x / 2 powr j - real n\<bar> * 2 powr j \<le> \<bar>x / 2 powr j - real_of_int k\<bar> * 2 powr j"
      using rhe_nearest [of "x / 2 powr j" k] x by (intro mult_right_mono) (auto simp: n_def)
    then show ?thesis by (simp add: abs_scale)
  qed
  have xt: "2 powr real_of_int t \<le> x" using powr_floor_log_le [OF x] by (simp add: t_def)
  show ?thesis
  proof (cases "j \<le> e'")
    case True
    have w: "real_of_int m' * 2 powr e' = real_of_int (m' * 2 ^ nat (e' - j)) * 2 powr j"
      using two_powr_split [OF True] by simp
    show ?thesis unfolding v w by (rule mult)
  next
    case False
    show ?thesis
    proof (cases "m' \<le> 0")
      case True
      have "real_of_int m' * 2 powr e' \<le> 0" using True by (simp add: mult_nonpos_nonneg)
      moreover have "\<bar>x - real n * 2 powr j\<bar> \<le> x" using mult [of 0] x by simp
      ultimately show ?thesis using v by simp
    next
      case m': False
      from d m' have "-1074 \<le> e'" by (auto simp: is_double_def)
      with False have jt: "j = t - 52" by (simp add: j_def)
      have w: "real_of_int m' * 2 powr e' < 2 powr real_of_int t"
        using is_double_below [OF d _, of t] m' False jt by simp
      have "2 powr real_of_int t = real_of_int (2 ^ nat (t - j)) * 2 powr j"
        using two_powr_split [of j t] jt by simp
      then have "\<bar>x - real n * 2 powr j\<bar> \<le> \<bar>x - 2 powr real_of_int t\<bar>" using mult [of "2 ^ nat (t - j)"] by simp
      with w xt v show ?thesis by simp
    qed
  qed
qed

lemma round_real_nearest:
  assumes r: "round_real y = Fin m e" and d: "is_double m' e'"
  shows "\<bar>y - real_of_int m * 2 powr e\<bar> \<le> \<bar>y - real_of_int m' * 2 powr e'\<bar>"
proof -
  consider "y = 0" | "0 < y" | "y < 0" by linarith
  then show ?thesis
  proof cases
    case 1
    with r show ?thesis by (simp add: round_real_def)
  next
    case 2
    with r have "rnd_real False y = Fin m e" by (simp add: round_real_def)
    from rnd_real_nearest [OF 2 this d] show ?thesis by simp
  next
    case 3
    with r have "rnd_real True (- y) = Fin m e" by (simp add: round_real_def)
    from rnd_real_nearest [OF _ this is_double_neg [OF d]] 3
    have "\<bar>- y + real_of_int m * 2 powr e\<bar> \<le> \<bar>- y + real_of_int m' * 2 powr e'\<bar>" by simp
    then show ?thesis by (simp add: abs_minus_commute)
  qed
qed

lemma dec_round_round_real: "dec_round s x = round_real (real s * 10 powr x)"
proof (cases "s = 0")
  case True
  then show ?thesis by (simp add: dec_round_def round_dyadic_def round_real_def)
next
  case False
  have ten: "(10::real) powr real_of_int x = 5 powr real_of_int x * 2 powr real_of_int x"
    by (simp add: powr_mult [symmetric])
  have nn: "\<not> real s * 10 powr real_of_int x < 0" by (simp add: not_less)
  show ?thesis
  proof (cases "0 \<le> x")
    case True
    have e: "real (s * 5 ^ nat x) / real (1::nat) * 2 powr real_of_int x = real s * 10 powr real_of_int x"
      using True by (simp add: ten powr_realpow [symmetric] mult.assoc)
    have "dec_round s x = rnd_real False (real (s * 5 ^ nat x) / real (1::nat) * 2 powr real_of_int x)"
      using True False by (simp add: dec_round_def round_dyadic_real del: of_nat_mult)
    also have "\<dots> = round_real (real s * 10 powr real_of_int x)"
      using False nn by (simp only: e) (simp add: round_real_def)
    finally show ?thesis .
  next
    case neg: False
    have "real s / real ((5::nat) ^ nat (- x)) * 2 powr real_of_int x = real s * 10 powr real_of_int x"
      using neg by (simp add: ten powr_realpow [symmetric] powr_minus divide_inverse)
    with False neg nn show ?thesis
      by (simp add: dec_round_def round_dyadic_round_real round_real_def)
  qed
qed

subsection \<open>Properties of the number operations\<close>

text \<open>Addition is correctly rounded; integers up to \<open>2^53\<close> add and subtract exactly;
  StringToNumber and subtraction yield doubles; a decimal numeral reads as a nearest
  double.\<close>

lemma num_add_fin: "num_add (Fin m1 e1) (Fin m2 e2) = round_real (real_of_int m1 * 2 powr e1 + real_of_int m2 * 2 powr e2)"
  by (simp add: add_fin_round_real)

lemma num_add_safe_int:
  "\<bar>x\<bar> \<le> 2 ^ 53 \<Longrightarrow> \<bar>y\<bar> \<le> 2 ^ 53 \<Longrightarrow> num_add (num_of_int x) (num_of_int y) = num_of_int (x + y)"
proof -
  assume x: "\<bar>x\<bar> \<le> 2 ^ 53" and y: "\<bar>y\<bar> \<le> 2 ^ 53"
  obtain m1 e1 where 1: "num_of_int x = Fin m1 e1" "real_of_int m1 * 2 powr e1 = real_of_int x"
    using num_of_int_safe [OF x] .
  obtain m2 e2 where 2: "num_of_int y = Fin m2 e2" "real_of_int m2 * 2 powr e2 = real_of_int y"
    using num_of_int_safe [OF y] .
  have "num_add (Fin m1 e1) (Fin m2 e2) = round_real (real_of_int (x + y))"
    by (simp add: add_fin_round_real 1(2) 2(2))
  then show ?thesis unfolding 1(1) 2(1) num_of_int_round_real [of "x + y"] .
qed

lemma str_to_num_double: "jsnum_ok (str_to_num str)"
  by (auto simp: str_to_num_def parse_unsigned_def Let_def num_of_int_ok dec_round_ok num_neg_ok is_double_def
      split: option.splits list.splits)

lemma num_sub_double: "jsnum_ok x \<Longrightarrow> jsnum_ok y \<Longrightarrow> jsnum_ok (num_sub x y)"
  by (simp add: num_sub_def num_add_ok num_neg_ok)

lemma num_add_nearest:
  assumes r: "num_add (Fin m1 e1) (Fin m2 e2) = Fin m e" and d: "is_double m' e'"
  shows "\<bar>(real_of_int m1 * 2 powr e1 + real_of_int m2 * 2 powr e2) - real_of_int m * 2 powr e\<bar>
         \<le> \<bar>(real_of_int m1 * 2 powr e1 + real_of_int m2 * 2 powr e2) - real_of_int m' * 2 powr e'\<bar>"
  using r d by (simp add: add_fin_round_real round_real_nearest)

lemma parse_unsigned_nearest:
  assumes p: "parse_decimal u = Some (s, x)" and r: "parse_unsigned u = Fin m e" and d: "is_double m' e'"
  shows "\<bar>real s * 10 powr x - real_of_int m * 2 powr e\<bar> \<le> \<bar>real s * 10 powr x - real_of_int m' * 2 powr e'\<bar>"
proof -
  from r p have "dec_round s x = Fin m e" by (simp add: parse_unsigned_def split: if_splits)
  then show ?thesis using d by (simp add: dec_round_round_real round_real_nearest)
qed

lemma num_neg_safe:
  assumes y: "\<bar>y\<bar> \<le> 2 ^ 53" and y0: "y \<noteq> 0"
  shows "num_neg (num_of_int y) = num_of_int (- y)"
proof -
  obtain m e where f: "num_of_int y = Fin m e" "real_of_int m * 2 powr e = real_of_int y"
    using num_of_int_safe [OF y] .
  have m0: "m \<noteq> 0" using f(2) y0 by auto
  have "jsnum_ok (Fin m e)" using num_of_int_ok [of y] f(1) by simp
  then have "jsnum_ok (Fin (- m) e)" by (simp add: is_double_neg)
  then have "round_real (real_of_int (- m) * 2 powr e) = Fin (- m) e" by (rule round_real_fin)
  moreover have "real_of_int (- m) * 2 powr e = real_of_int (- y)" using f(2) by simp
  ultimately show ?thesis using f(1) m0 by (simp add: num_of_int_round_real)
qed

lemma num_sub_safe_int:
  assumes x: "\<bar>x\<bar> \<le> 2 ^ 53" and y: "\<bar>y\<bar> \<le> 2 ^ 53"
  shows "num_sub (num_of_int x) (num_of_int y) = num_of_int (x - y)"
proof (cases "y = 0")
  case True
  obtain m e where "num_of_int x = Fin m e" using num_of_int_safe [OF x] by blast
  with True show ?thesis by (simp add: num_sub_def num_of_int_def)
next
  case False
  have "\<bar>- y\<bar> \<le> 2 ^ 53" using y by simp
  with x False show ?thesis
    by (simp add: num_sub_def num_neg_safe [OF y False] num_add_safe_int)
qed

lemma num_sub_nearest:
  assumes r: "num_sub (Fin m1 e1) (Fin m2 e2) = Fin m e" and d: "is_double m' e'"
  shows "\<bar>(real_of_int m1 * 2 powr e1 - real_of_int m2 * 2 powr e2) - real_of_int m * 2 powr e\<bar>
         \<le> \<bar>(real_of_int m1 * 2 powr e1 - real_of_int m2 * 2 powr e2) - real_of_int m' * 2 powr e'\<bar>"
proof (cases "m2 = 0")
  case True
  with r show ?thesis by (simp add: num_sub_def)
next
  case False
  with r have "add_fin m1 e1 (- m2) e2 = Fin m e" by (simp add: num_sub_def)
  then have "round_real (real_of_int m1 * 2 powr e1 + real_of_int (- m2) * 2 powr e2) = Fin m e"
    by (simp add: add_fin_round_real)
  from round_real_nearest [OF this d] show ?thesis by simp
qed

subsection \<open>Evaluation on numerals\<close>

text \<open>Rewrite rules that compute \<open>bitlen\<close>, \<open>norm_dyadic\<close> and \<open>nat_to_dec\<close> on
  numerals only, so that \<open>simp\<close> evaluates the operations on concrete doubles without
  unfolding the recursions on symbolic arguments.\<close>

lemma bitlen_numeral [simp]:
  "bitlen (numeral (Num.Bit0 k)) = Suc (bitlen (numeral k))"
  "bitlen (numeral (Num.Bit1 k)) = Suc (bitlen (numeral k))"
  "bitlen 1 = 1"
  "bitlen (Suc 0) = 1"
  by (simp_all add: bitlen_pos)

lemma norm_dyadic_numeral [simp]:
  "norm_dyadic 0 e = (0, 0)"
  "norm_dyadic 1 e = (1, e)"
  "norm_dyadic (-1) e = (-1, e)"
  "norm_dyadic (numeral (Num.Bit0 k)) e = norm_dyadic (numeral k) (e + 1)"
  "norm_dyadic (numeral (Num.Bit1 k)) e = (numeral (Num.Bit1 k), e)"
  "norm_dyadic (- numeral (Num.Bit0 k)) e = norm_dyadic (- numeral k) (e + 1)"
  "norm_dyadic (- numeral (Num.Bit1 k)) e = (- numeral (Num.Bit1 k), e)"
  by (subst norm_dyadic.simps; simp)+

lemma nat_to_dec_numeral [simp]:
  "nat_to_dec 0 = [digit_char 0]"
  "nat_to_dec 1 = [digit_char 1]"
  "nat_to_dec (numeral k) =
     (if numeral k < (10::nat) then [digit_char (numeral k)]
      else nat_to_dec (numeral k div 10) @ [digit_char (numeral k mod 10)])"
  by (subst nat_to_dec.simps; simp)+

lemmas num_eval = add_fin_def num_sub_def num_of_int_def round_dyadic_def ilog2_def rne_def mk_fin_def
  Let_def pos_to_string_def exact_dec_def dec_len_def digit_cands_def dec_div_def dec_round_def
  dec_dist_def fmt_digits_def digit_char_def

end
