(* ===== verification/JS_Values.thy ===== *)
theory JS_Values
  imports JS_Number
begin

text \<open>
  The fragment of JavaScript values and operators that the two sources apply to the
  arguments a model sends back: the values of a parsed JSON object, property reads
  (\<open>functionCall.args.symbol\<close>, \<open>args.a\<close>), the binary operators \<open>+\<close> and \<open>-\<close> of
  \<open>addTwoNumbers\<close>/\<open>subtractTwoNumbers\<close>, \<open>String.prototype.toUpperCase\<close> in
  \<open>getStockPrice\<close>, and the method call \<open>output.toString()\<close> in the Ollama loop.
  The operators follow ECMAScript's ToPrimitive, ToString and ToNumber, and return a
  \<open>result\<close>: a parsed JSON value holds no functions, so OrdinaryToPrimitive on an
  object with an own \<open>toString\<close> key finds no callable method
  and raises a \<open>TypeError\<close>; an object without that key prints as
  \<open>[object Object]\<close>, an array through \<open>join\<close>, which passes its elements' errors on.

  Numbers are the binary64 values of \<open>JS_Number\<close>. ToNumber of a string is
  StringToNumber there (white space, sign, decimal, exponent, \<open>Infinity\<close>, \<open>0x\<close>,
  \<open>0o\<close>, \<open>0b\<close>). Characters are bytes, so \<open>toUpperCase\<close> maps the ASCII letters only.
\<close>

datatype jsval =
    JUndef
  | JNull
  | JBool bool
  | JNum jsnum
  | JStr string
  | JArr "jsval list"
  | JObj "(string \<times> jsval) list"

type_synonym js_object = "(string \<times> jsval) list"

subsection \<open>ToString, ToPrimitive, ToNumber\<close>

text \<open>
  A parsed JSON object is the list of its members in source order; \<open>JSON.parse\<close>
  keeps the last of duplicated keys, hence the lookup in the reversed list.
  A missing property reads as \<open>undefined\<close>. An object has an own property when
  any member carries its name.
\<close>

definition get_prop :: "js_object \<Rightarrow> string \<Rightarrow> jsval" where
  "get_prop obj k = (case map_of (rev obj) k of None \<Rightarrow> JUndef | Some v \<Rightarrow> v)"

definition has_own :: "js_object \<Rightarrow> string \<Rightarrow> bool" where
  "has_own obj k \<longleftrightarrow> map_of obj k \<noteq> None"

fun join_comma :: "string list \<Rightarrow> string" where
  "join_comma [] = []"
| "join_comma [s] = s"
| "join_comma (s # ss) = s @ CHR '','' # join_comma ss"

text \<open>
  ToString. For an object, ToPrimitive (OrdinaryToPrimitive) tries \<open>valueOf\<close> and
  \<open>toString\<close> and uses the first that is callable and returns a primitive. A parsed
  JSON value holds no functions, so an own member named \<open>valueOf\<close> or \<open>toString\<close>
  is skipped; the inherited \<open>valueOf\<close> returns the object itself; the inherited
  \<open>Object.prototype.toString\<close> gives \<open>[object Object]\<close>. Hence an object with an own
  \<open>toString\<close> member has no primitive value: a \<open>TypeError\<close>. An array prints through
  \<open>Array.prototype.join\<close>, which prints \<open>undefined\<close> and \<open>null\<close> elements as empty
  and converts the others, raising what they raise.
\<close>

fun to_string :: "jsval \<Rightarrow> string result"
and array_elems :: "jsval list \<Rightarrow> string list result" where
  "to_string JUndef = Inr ''undefined''"
| "to_string JNull = Inr ''null''"
| "to_string (JBool b) = Inr (if b then ''true'' else ''false'')"
| "to_string (JNum n) = Inr (num_to_string n)"
| "to_string (JStr s) = Inr s"
| "to_string (JArr xs) = bindE (array_elems xs) (\<lambda>ss. Inr (join_comma ss))"
| "to_string (JObj ps) =
     (if has_own ps ''toString'' then Inl (TypeError ''Cannot convert object to primitive value'')
      else Inr ''[object Object]'')"
| "array_elems [] = Inr []"
| "array_elems (v # vs) =
     bindE (case v of JUndef \<Rightarrow> Inr [] | JNull \<Rightarrow> Inr [] | _ \<Rightarrow> to_string v)
       (\<lambda>s. bindE (array_elems vs) (\<lambda>ss. Inr (s # ss)))"

fun is_jstr :: "jsval \<Rightarrow> bool" where
  "is_jstr (JStr _) = True"
| "is_jstr _ = False"

text \<open>ToPrimitive: arrays and objects become their string, or raise.\<close>

definition to_primitive :: "jsval \<Rightarrow> jsval result" where
  "to_primitive v =
     (case v of
        JArr _ \<Rightarrow> bindE (to_string v) (\<lambda>s. Inr (JStr s))
      | JObj _ \<Rightarrow> bindE (to_string v) (\<lambda>s. Inr (JStr s))
      | _ \<Rightarrow> Inr v)"

fun to_number :: "jsval \<Rightarrow> jsnum result" where
  "to_number JUndef = Inr NaN"
| "to_number JNull = Inr (Fin 0 0)"
| "to_number (JBool b) = Inr (if b then Fin 1 0 else Fin 0 0)"
| "to_number (JNum n) = Inr n"
| "to_number (JStr s) = Inr (str_to_num s)"
| "to_number (JArr xs) = bindE (to_string (JArr xs)) (\<lambda>s. Inr (str_to_num s))"
| "to_number (JObj ps) = bindE (to_string (JObj ps)) (\<lambda>s. Inr (str_to_num s))"

subsection \<open>The operators \<open>+\<close> and \<open>-\<close>\<close>

text \<open>
  \<open>a + b\<close>: both operands are converted to primitives, left first; if either is a
  string the result is the concatenation of their strings, otherwise the numeric sum.
  \<open>a - b\<close> converts both operands to numbers, left first. A conversion that raises
  aborts the operator.
\<close>

definition js_add :: "jsval \<Rightarrow> jsval \<Rightarrow> jsval result" where
  "js_add a b =
     bindE (to_primitive a) (\<lambda>pa. bindE (to_primitive b) (\<lambda>pb.
       if is_jstr pa \<or> is_jstr pb
       then bindE (to_string pa) (\<lambda>sa. bindE (to_string pb) (\<lambda>sb. Inr (JStr (sa @ sb))))
       else bindE (to_number pa) (\<lambda>x. bindE (to_number pb) (\<lambda>y. Inr (JNum (num_add x y))))))"

definition js_sub :: "jsval \<Rightarrow> jsval \<Rightarrow> jsval result" where
  "js_sub a b = bindE (to_number a) (\<lambda>x. bindE (to_number b) (\<lambda>y. Inr (JNum (num_sub x y))))"

subsection \<open>Method calls\<close>

definition upper_char :: "char \<Rightarrow> char" where
  "upper_char c =
     (if 97 \<le> (of_char c :: nat) \<and> (of_char c :: nat) \<le> 122 then char_of (of_char c - (32::nat)) else c)"

text \<open>\<open>v.toUpperCase()\<close>: a \<open>TypeError\<close> unless \<open>v\<close> is a string.\<close>

definition call_to_upper :: "jsval \<Rightarrow> string result" where
  "call_to_upper v =
     (case v of
        JStr s \<Rightarrow> Inr (map upper_char s)
      | JUndef \<Rightarrow> Inl (TypeError ''Cannot read properties of undefined (reading toUpperCase)'')
      | JNull \<Rightarrow> Inl (TypeError ''Cannot read properties of null (reading toUpperCase)'')
      | _ \<Rightarrow> Inl (TypeError ''symbol.toUpperCase is not a function''))"

text \<open>\<open>v.toString()\<close>: a \<open>TypeError\<close> on \<open>undefined\<close> and \<open>null\<close>, and on an object whose
  own \<open>toString\<close> member (not a function) shadows the inherited method; ToString
  otherwise.\<close>

definition call_to_string :: "jsval \<Rightarrow> string result" where
  "call_to_string v =
     (case v of
        JUndef \<Rightarrow> Inl (TypeError ''Cannot read properties of undefined (reading toString)'')
      | JNull \<Rightarrow> Inl (TypeError ''Cannot read properties of null (reading toString)'')
      | JObj ps \<Rightarrow> (if has_own ps ''toString'' then Inl (TypeError ''output.toString is not a function'')
                   else to_string v)
      | _ \<Rightarrow> to_string v)"

lemma upper_char_idem: "upper_char (upper_char c) = upper_char c"
  by (auto simp: upper_char_def)


subsection \<open>Conversion lemmas\<close>

text \<open>Every error a conversion raises is a \<open>TypeError\<close>.\<close>

lemma to_string_error:
  "to_string v = Inl e \<Longrightarrow> \<exists>m. e = TypeError m"
  "array_elems vs = Inl e \<Longrightarrow> \<exists>m. e = TypeError m"
proof (induction v and vs arbitrary: e and e rule: to_string_array_elems.induct)
  case (9 v vs)
  then show ?case by (cases v) (auto simp: bindE_eq_Inl split: if_splits)
qed (auto simp: bindE_eq_Inl split: if_splits)

text \<open>Primitive values convert without raising.\<close>

lemma to_primitive_Inr:
  "to_primitive v = Inr p \<Longrightarrow> (\<exists>s. to_string p = Inr s) \<and> (\<exists>n. to_number p = Inr n)"
  by (cases v) (auto simp: to_primitive_def bindE_eq_Inr)

lemma to_number_Inl: "to_number v = Inl e \<Longrightarrow> to_primitive v = Inl e"
  by (cases v) (auto simp: to_primitive_def bindE_eq_Inl)

lemma to_primitive_Inl: "to_primitive v = Inl e \<Longrightarrow> \<exists>m. e = TypeError m"
  by (cases v) (auto simp: to_primitive_def bindE_eq_Inl dest: to_string_error split: if_splits)

lemma js_add_nums [simp]: "js_add (JNum a) (JNum b) = Inr (JNum (num_add a b))"
  by (simp add: js_add_def to_primitive_def)

lemma js_sub_nums [simp]: "js_sub (JNum a) (JNum b) = Inr (JNum (num_sub a b))"
  by (simp add: js_sub_def)

lemma js_add_str_left: "js_add (JStr s) v = bindE (to_string v) (\<lambda>t. Inr (JStr (s @ t)))"
  by (cases v) (simp_all add: js_add_def to_primitive_def bindE_def split: sum.splits)

lemma js_add_Inl: "js_add a b = Inl e \<Longrightarrow> to_primitive a = Inl e \<or> to_primitive b = Inl e"
  by (auto simp: js_add_def bindE_eq_Inl dest!: to_primitive_Inr split: if_splits)

lemma js_sub_Inl: "js_sub a b = Inl e \<Longrightarrow> to_primitive a = Inl e \<or> to_primitive b = Inl e"
  by (auto simp: js_sub_def bindE_eq_Inl dest: to_number_Inl)

lemma js_sub_Inr: "js_sub a b = Inr v \<Longrightarrow> \<exists>x y. to_number a = Inr x \<and> to_number b = Inr y \<and> v = JNum (num_sub x y)"
  by (auto simp: js_sub_def bindE_eq_Inr)

lemma js_add_Inr:
  "js_add a b = Inr v \<Longrightarrow> (\<exists>s. v = JStr s) \<or>
     (\<exists>pa pb x y. to_primitive a = Inr pa \<and> to_primitive b = Inr pb \<and> to_number pa = Inr x \<and>
        to_number pb = Inr y \<and> v = JNum (num_add x y))"
  by (auto simp: js_add_def bindE_eq_Inr split: if_splits)

lemma js_add_ok:
  "to_primitive a = Inr pa \<Longrightarrow> to_primitive b = Inr pb \<Longrightarrow> \<exists>v. js_add a b = Inr v"
  using to_primitive_Inr [of a pa] to_primitive_Inr [of b pb] by (auto simp: js_add_def)

lemma to_number_Inr: "to_primitive v = Inr p \<Longrightarrow> \<exists>n. to_number v = Inr n"
  by (cases v) (auto simp: to_primitive_def bindE_eq_Inr)

lemma js_sub_ok:
  "to_primitive a = Inr pa \<Longrightarrow> to_primitive b = Inr pb \<Longrightarrow> \<exists>v. js_sub a b = Inr v"
  by (auto simp: js_sub_def dest!: to_number_Inr)

lemma to_primitive_num: "to_primitive v = Inr (JNum n) \<Longrightarrow> v = JNum n"
  by (cases v) (auto simp: to_primitive_def bindE_eq_Inr)

lemma to_number_ok: "(\<forall>n. v = JNum n \<longrightarrow> jsnum_ok n) \<Longrightarrow> to_number v = Inr x \<Longrightarrow> jsnum_ok x"
  by (cases v) (auto simp: bindE_eq_Inr str_to_num_double is_double_def)

lemma call_to_string_prim:
  "call_to_string (JNum n) = Inr (num_to_string n)" "call_to_string (JStr s) = Inr s"
  by (simp_all add: call_to_string_def)

lemma call_to_upper_Inr:
  "call_to_upper v = Inr s \<longleftrightarrow> (\<exists>t. v = JStr t \<and> s = map upper_char t)"
  by (cases v) (auto simp: call_to_upper_def)

lemma call_to_upper_Inl:
  "(\<exists>e. call_to_upper v = Inl e) \<longleftrightarrow> \<not> is_jstr v"
  by (cases v) (auto simp: call_to_upper_def)

text \<open>ToNumber reads back the string Number::toString prints for a number, \<open>-0\<close> as \<open>+0\<close>.\<close>

lemma to_number_to_string:
  "jsnum_ok x \<Longrightarrow> to_number (JStr (num_to_string x)) = Inr (if x = NegZero then Fin 0 0 else x)"
  by (cases "x = NegZero") (simp_all add: str_to_num_num_to_string str_to_num_zero)

end
