(* ===== verification/Tools.thy ===== *)
theory Tools
  imports JS_Values
begin

text \<open>
  Tool declarations and the tool registry.

  The declarations are the JSON-schema-shaped descriptions that both sources hand to
  a model provider (\<open>stockPriceFunction\<close> in \<open>src/index.ts\<close>,
  \<open>addTwoNumbersTool\<close>/\<open>subtractTwoNumbersTool\<close> in
  \<open>src/ollama/ollama_fn_call.ts\<close>): a name, a description, the typed properties of
  the parameter object and the list of required ones.

  The registry of spec section 4.1 has no code of its own in the repository (the
  sources hard-code an \<open>if\<close> on the name, or an object literal): it is modelled from
  the spec as an ordered list of declarations paired with handlers, with
  \<open>register\<close> refusing a duplicate name, \<open>resolve\<close> failing on an unknown one and
  \<open>declarations\<close> listing them in registration order. Its abstraction is the
  partial map from names to handlers (\<open>reg_map\<close>). The argument check
  \<open>args_valid\<close> is the hardening step of spec section 4.3, which the sources omit.
\<close>

datatype schema_type = SString | SNumber

record param_decl =
  prm_name :: string
  prm_type :: schema_type
  prm_desc :: string

record fn_decl =
  fd_name :: string
  fd_description :: string
  fd_params :: "param_decl list"
  fd_required :: "string list"

subsection \<open>Registry (spec section 4.1)\<close>

datatype reg_error = DuplicateNameError string | UnknownToolError string

record 'h registry =
  reg_entries :: "(fn_decl \<times> 'h) list"

definition reg_empty :: "'h registry" where
  "reg_empty = \<lparr>reg_entries = []\<rparr>"

definition reg_names :: "'h registry \<Rightarrow> string list" where
  "reg_names r = map (fd_name \<circ> fst) (reg_entries r)"

definition register :: "fn_decl \<Rightarrow> 'h \<Rightarrow> 'h registry \<Rightarrow> reg_error + 'h registry" where
  "register d h r =
     (if fd_name d \<in> set (reg_names r) then Inl (DuplicateNameError (fd_name d))
      else Inr (r\<lparr>reg_entries := reg_entries r @ [(d, h)]\<rparr>))"

definition resolve :: "'h registry \<Rightarrow> string \<Rightarrow> reg_error + 'h" where
  "resolve r n =
     (case find (\<lambda>e. fd_name (fst e) = n) (reg_entries r) of
        None \<Rightarrow> Inl (UnknownToolError n)
      | Some e \<Rightarrow> Inr (snd e))"

definition declarations :: "'h registry \<Rightarrow> fn_decl list" where
  "declarations r = map fst (reg_entries r)"

definition reg_wf :: "'h registry \<Rightarrow> bool" where
  "reg_wf r \<longleftrightarrow> distinct (reg_names r)"

definition reg_map :: "'h registry \<Rightarrow> string \<Rightarrow> 'h option" where
  "reg_map r = map_of (map (\<lambda>e. (fd_name (fst e), snd e)) (reg_entries r))"

subsection \<open>Argument validation (spec section 4.3, hardening)\<close>

fun has_type :: "schema_type \<Rightarrow> jsval \<Rightarrow> bool" where
  "has_type SString v = is_jstr v"
| "has_type SNumber v = (case v of JNum _ \<Rightarrow> True | _ \<Rightarrow> False)"

definition args_valid :: "fn_decl \<Rightarrow> js_object \<Rightarrow> bool" where
  "args_valid d args \<longleftrightarrow>
     list_all (\<lambda>k. get_prop args k \<noteq> JUndef) (fd_required d) \<and>
     list_all (\<lambda>p. get_prop args (prm_name p) = JUndef \<or> has_type (prm_type p) (get_prop args (prm_name p)))
       (fd_params d)"

subsection \<open>Registry lemmas\<close>

lemma find_map_of:
  "map_option snd (find (\<lambda>e. f (fst e) = n) xs) = map_of (map (\<lambda>e. (f (fst e), snd e)) xs) n"
  by (induction xs) auto

lemma resolve_reg_map:
  "resolve r n = (case reg_map r n of None \<Rightarrow> Inl (UnknownToolError n) | Some h \<Rightarrow> Inr h)"
proof -
  have eq: "reg_map r n = map_option snd (find (\<lambda>e. fd_name (fst e) = n) (reg_entries r))"
    unfolding reg_map_def by (rule find_map_of [symmetric])
  show ?thesis
    by (cases "find (\<lambda>e. fd_name (fst e) = n) (reg_entries r)") (simp_all add: eq resolve_def)
qed

lemma reg_map_None_iff: "reg_map r n = None \<longleftrightarrow> n \<notin> set (reg_names r)"
  by (auto simp: reg_map_def reg_names_def map_of_eq_None_iff image_iff)

lemma register_Inr:
  "register d h r = Inr r' \<longleftrightarrow>
     fd_name d \<notin> set (reg_names r) \<and> r' = r\<lparr>reg_entries := reg_entries r @ [(d, h)]\<rparr>"
  by (auto simp: register_def)

lemma register_reg_map:
  assumes "register d h r = Inr r'"
  shows "reg_map r' = (reg_map r)(fd_name d \<mapsto> h)"
proof -
  from assms have fresh: "reg_map r (fd_name d) = None"
    and r': "r' = r\<lparr>reg_entries := reg_entries r @ [(d, h)]\<rparr>"
    by (auto simp: register_Inr reg_map_None_iff)
  show ?thesis
  proof
    fix n
    show "reg_map r' n = ((reg_map r)(fd_name d \<mapsto> h)) n"
      using fresh by (cases "n = fd_name d") (auto simp: r' reg_map_def map_of_append map_add_def split: option.splits)
  qed
qed

lemma register_reg_names:
  "register d h r = Inr r' \<Longrightarrow> reg_names r' = reg_names r @ [fd_name d]"
  by (auto simp: register_Inr reg_names_def)

text \<open>
  Spec 8: for a name not in the registry, \<open>resolve\<close> fails with
  \<open>UnknownToolError\<close>; registering a declaration of that name succeeds, after which
  \<open>resolve\<close> returns the registered handler, and every other name resolves as before.
\<close>

lemma register_then_resolve:
  assumes fresh: "fd_name d \<notin> set (reg_names r)"
  shows "resolve r (fd_name d) = Inl (UnknownToolError (fd_name d)) \<and>
         (\<exists>r'. register d h r = Inr r' \<and> resolve r' (fd_name d) = Inr h \<and>
               (\<forall>n. n \<noteq> fd_name d \<longrightarrow> resolve r' n = resolve r n))"
proof -
  obtain r' where reg: "register d h r = Inr r'"
    using fresh by (simp add: register_def)
  have "reg_map r (fd_name d) = None" using fresh by (simp add: reg_map_None_iff)
  moreover have "reg_map r' = (reg_map r)(fd_name d \<mapsto> h)" using reg by (rule register_reg_map)
  ultimately show ?thesis
    using reg by (auto simp: resolve_reg_map)
qed

text \<open>
  Registration keeps the registry's names distinct (spec 3: a name is unique
  within a registry): \<open>register\<close> refuses a duplicate rather than shadowing it.
\<close>

lemma register_wf: "reg_wf r \<Longrightarrow> register d h r = Inr r' \<Longrightarrow> reg_wf r'"
  by (auto simp: reg_wf_def register_reg_names register_Inr)

end
