(* ===== verification/Langfuse.thy ===== *)
theory Langfuse
  imports Prelude
begin

text \<open>
  The trace emitter (spec section 4.4), as the source uses the Langfuse client of
  \<open>src/index.ts\<close>: \<open>langfuse.trace\<close>, \<open>trace.span\<close>, \<open>langfuse.span\<close>,
  \<open>span.update\<close>, \<open>span.end\<close>, \<open>trace.event\<close>, \<open>trace.update\<close> and
  \<open>langfuse.shutdownAsync\<close>. The client only enqueues records for an asynchronous
  upload, so each call is modelled as appending one record to a log, with fresh
  identifiers drawn from a counter; none of the calls can fail (tracing is best-effort
  and never alters control flow). The payload type \<open>'p\<close> is left open: each client
  supplies the inputs and outputs it records.

  On the log this theory defines the span discipline of the spec: a span is opened,
  updated, and closed at most once, and never touched after it is closed
  (\<open>span_shape\<close>, \<open>lf_disciplined\<close>), and which spans are still open
  (\<open>span_open\<close>). The invariant \<open>lf_ok\<close> (identifiers drawn from the counter, and
  the discipline) is kept by every operation, where updating and ending a span require
  it to be open; the lemmas are conditional rewrite rules, so that a client's proof
  tracks the invariant and the open spans through its run by simplification.
\<close>

datatype 'p lf_rec =
    TraceCreated nat string 'p
  | SpanCreated nat "nat option" string 'p
  | SpanUpdated nat 'p
  | SpanEnded nat
  | EventCreated nat string 'p
  | TraceUpdated nat 'p
  | Flushed

record 'p lf_state =
  lf_log :: "'p lf_rec list"
  lf_next :: nat

definition lf_init :: "'p lf_state" where
  "lf_init = \<lparr>lf_log = [], lf_next = 0\<rparr>"

subsection \<open>Client operations\<close>

definition lf_emit :: "'p lf_rec \<Rightarrow> 'p lf_state \<Rightarrow> 'p lf_state" where
  "lf_emit r s = s\<lparr>lf_log := lf_log s @ [r]\<rparr>"

definition lf_trace :: "string \<Rightarrow> 'p \<Rightarrow> 'p lf_state \<Rightarrow> nat \<times> 'p lf_state" where
  "lf_trace name input s =
     (lf_next s, (lf_emit (TraceCreated (lf_next s) name input) s)\<lparr>lf_next := Suc (lf_next s)\<rparr>)"

definition lf_span :: "nat option \<Rightarrow> string \<Rightarrow> 'p \<Rightarrow> 'p lf_state \<Rightarrow> nat \<times> 'p lf_state" where
  "lf_span parent name input s =
     (lf_next s, (lf_emit (SpanCreated (lf_next s) parent name input) s)\<lparr>lf_next := Suc (lf_next s)\<rparr>)"

definition lf_update :: "nat \<Rightarrow> 'p \<Rightarrow> 'p lf_state \<Rightarrow> 'p lf_state" where
  "lf_update sid out s = lf_emit (SpanUpdated sid out) s"

definition lf_end :: "nat \<Rightarrow> 'p lf_state \<Rightarrow> 'p lf_state" where
  "lf_end sid s = lf_emit (SpanEnded sid) s"

definition lf_event :: "nat \<Rightarrow> string \<Rightarrow> 'p \<Rightarrow> 'p lf_state \<Rightarrow> 'p lf_state" where
  "lf_event tid name input s = lf_emit (EventCreated tid name input) s"

definition lf_trace_update :: "nat \<Rightarrow> 'p \<Rightarrow> 'p lf_state \<Rightarrow> 'p lf_state" where
  "lf_trace_update tid p s = lf_emit (TraceUpdated tid p) s"

definition lf_shutdown :: "'p lf_state \<Rightarrow> 'p lf_state" where
  "lf_shutdown s = lf_emit Flushed s"

lemmas lf_ops_defs [model_simps] = lf_emit_def lf_trace_def lf_span_def lf_update_def
  lf_end_def lf_event_def lf_trace_update_def lf_shutdown_def

subsection \<open>Span discipline\<close>

fun rec_span :: "'p lf_rec \<Rightarrow> nat option" where
  "rec_span (SpanCreated i _ _ _) = Some i"
| "rec_span (SpanUpdated i _) = Some i"
| "rec_span (SpanEnded i) = Some i"
| "rec_span _ = None"

definition span_recs :: "'p lf_rec list \<Rightarrow> nat \<Rightarrow> 'p lf_rec list" where
  "span_recs log sid = filter (\<lambda>r. rec_span r = Some sid) log"

fun created_spans :: "'p lf_rec list \<Rightarrow> nat list" where
  "created_spans [] = []"
| "created_spans (SpanCreated i _ _ _ # rs) = i # created_spans rs"
| "created_spans (_ # rs) = created_spans rs"

text \<open>The spans created in a log, with their parents and names: the nesting of spec 4.4.\<close>

fun span_parents :: "'p lf_rec list \<Rightarrow> (nat option \<times> string) list" where
  "span_parents [] = []"
| "span_parents (SpanCreated _ p n _ # rs) = (p, n) # span_parents rs"
| "span_parents (_ # rs) = span_parents rs"

text \<open>The records of one span: updates, then at most one end.\<close>

fun updates_then_end :: "'p lf_rec list \<Rightarrow> bool" where
  "updates_then_end [] = True"
| "updates_then_end [SpanEnded _] = True"
| "updates_then_end (SpanUpdated _ _ # rs) = updates_then_end rs"
| "updates_then_end _ = False"

fun span_shape :: "'p lf_rec list \<Rightarrow> bool" where
  "span_shape (SpanCreated _ _ _ _ # rs) = updates_then_end rs"
| "span_shape _ = False"

definition lf_disciplined :: "'p lf_rec list \<Rightarrow> bool" where
  "lf_disciplined log \<longleftrightarrow>
     list_all (\<lambda>r. case rec_span r of None \<Rightarrow> True | Some i \<Rightarrow> span_shape (span_recs log i)) log"

fun is_end :: "'p lf_rec \<Rightarrow> bool" where
  "is_end (SpanEnded _) = True"
| "is_end _ = False"

text \<open>A span is open when it was created and has not been ended.\<close>

definition span_open :: "'p lf_rec list \<Rightarrow> nat \<Rightarrow> bool" where
  "span_open log i \<longleftrightarrow> i \<in> set (created_spans log) \<and> \<not> list_ex is_end (span_recs log i)"

text \<open>Every span id in the log was drawn from the counter.\<close>

definition span_ids :: "'p lf_rec list \<Rightarrow> nat list" where
  "span_ids log = List.map_filter rec_span log"

definition lf_wf :: "'p lf_state \<Rightarrow> bool" where
  "lf_wf s \<longleftrightarrow> list_all (\<lambda>i. i < lf_next s) (span_ids (lf_log s))"

text \<open>The invariant of the emitter's state as the program uses it.\<close>

definition lf_ok :: "'p lf_state \<Rightarrow> bool" where
  "lf_ok s \<longleftrightarrow> lf_wf s \<and> lf_disciplined (lf_log s)"

subsection \<open>Characteristic equations of the operations\<close>

lemma lf_trace_eq [model_simps]:
  "lf_trace name x s = (lf_next s, \<lparr>lf_log = lf_log s @ [TraceCreated (lf_next s) name x],
     lf_next = Suc (lf_next s), \<dots> = lf_state.more s\<rparr>)"
  by (simp add: lf_trace_def lf_emit_def)

lemma lf_span_eq [model_simps]:
  "lf_span p name x s = (lf_next s, \<lparr>lf_log = lf_log s @ [SpanCreated (lf_next s) p name x],
     lf_next = Suc (lf_next s), \<dots> = lf_state.more s\<rparr>)"
  by (simp add: lf_span_def lf_emit_def)

lemma lf_emit_simps [simp]:
  "lf_log (lf_emit r s) = lf_log s @ [r]" "lf_next (lf_emit r s) = lf_next s"
  by (simp_all add: lf_emit_def)

lemma lf_log_ops [model_simps]:
  "lf_log (lf_update i p s) = lf_log s @ [SpanUpdated i p]"
  "lf_log (lf_end i s) = lf_log s @ [SpanEnded i]"
  "lf_log (lf_event t n p s) = lf_log s @ [EventCreated t n p]"
  "lf_log (lf_trace_update t p s) = lf_log s @ [TraceUpdated t p]"
  "lf_log (lf_shutdown s) = lf_log s @ [Flushed]"
  by (simp_all add: lf_ops_defs)

lemma lf_next_ops [simp]:
  "lf_next (lf_update i p s) = lf_next s" "lf_next (lf_end i s) = lf_next s"
  "lf_next (lf_event t n p s) = lf_next s" "lf_next (lf_trace_update t p s) = lf_next s"
  "lf_next (lf_shutdown s) = lf_next s"
  by (simp_all add: lf_ops_defs)

subsection \<open>Logs and appended records\<close>

lemma span_ids_append [simp]: "span_ids (xs @ ys) = span_ids xs @ span_ids ys"
  by (induction xs) (simp_all add: span_ids_def split: option.splits)

lemma span_ids_single [simp]: "span_ids [r] = (case rec_span r of None \<Rightarrow> [] | Some i \<Rightarrow> [i])"
  by (simp add: span_ids_def split: option.split)

lemma in_span_ids: "i \<in> set (span_ids log) \<longleftrightarrow> (\<exists>r \<in> set log. rec_span r = Some i)"
  by (induction log) (auto simp: span_ids_def split: option.splits)

lemma span_recs_append [simp]: "span_recs (xs @ ys) i = span_recs xs i @ span_recs ys i"
  by (simp add: span_recs_def)

lemma span_recs_single [simp]: "span_recs [r] i = (if rec_span r = Some i then [r] else [])"
  by (simp add: span_recs_def)

lemma span_parents_append [simp]: "span_parents (xs @ ys) = span_parents xs @ span_parents ys"
  by (induction xs rule: span_parents.induct) auto

lemma created_spans_append [simp]: "created_spans (xs @ ys) = created_spans xs @ created_spans ys"
  by (induction xs rule: created_spans.induct) auto

lemma span_recs_empty: "i \<notin> set (span_ids log) \<Longrightarrow> span_recs log i = []"
  by (auto simp: span_recs_def in_span_ids filter_empty_conv)

lemma created_in_span_ids: "i \<in> set (created_spans log) \<Longrightarrow> i \<in> set (span_ids log)"
  by (induction log rule: created_spans.induct) (auto simp: in_span_ids)

lemma lf_disciplined_iff:
  "lf_disciplined log \<longleftrightarrow> (\<forall>i \<in> set (span_ids log). span_shape (span_recs log i))"
  by (auto simp: lf_disciplined_def list_all_iff in_span_ids split: option.splits)

subsection \<open>Shapes of one span\<close>

lemma updates_then_end_snoc:
  "updates_then_end xs \<Longrightarrow> \<not> list_ex is_end xs \<Longrightarrow>
     updates_then_end (xs @ [SpanUpdated i p]) \<and> updates_then_end (xs @ [SpanEnded i])"
  by (induction xs rule: updates_then_end.induct) auto

lemma span_shape_snoc:
  assumes "span_shape xs" and "\<not> list_ex is_end xs"
  shows "span_shape (xs @ [SpanUpdated i p]) \<and> span_shape (xs @ [SpanEnded i])"
  using assms by (cases xs rule: span_shape.cases) (simp_all add: updates_then_end_snoc)

subsection \<open>The invariant is kept by every operation\<close>

lemma lf_wf_less: "lf_wf s \<Longrightarrow> i \<in> set (span_ids (lf_log s)) \<Longrightarrow> i < lf_next s"
  by (auto simp: lf_wf_def list_all_iff)

lemma lf_ok_emit_plain:
  assumes "rec_span r = None"
  shows "lf_ok (lf_emit r s) = lf_ok s"
    and "span_open (lf_log s @ [r]) i = span_open (lf_log s) i"
  using assms by (cases r; simp add: lf_ok_def lf_wf_def lf_disciplined_iff span_open_def)+

lemma lf_ok_plain_ops [simp]:
  "lf_ok (lf_event t n p s) = lf_ok s" "lf_ok (lf_trace_update t p s) = lf_ok s"
  "lf_ok (lf_shutdown s) = lf_ok s"
  "span_open (lf_log (lf_event t n p s)) i = span_open (lf_log s) i"
  "span_open (lf_log (lf_trace_update t p s)) i = span_open (lf_log s) i"
  "span_open (lf_log (lf_shutdown s)) i = span_open (lf_log s) i"
  unfolding lf_event_def lf_trace_update_def lf_shutdown_def
  by (simp_all add: lf_ok_emit_plain)

lemma lf_ok_trace [simp]:
  "lf_ok s \<Longrightarrow> lf_ok (snd (lf_trace n x s))"
  "fst (lf_trace n x s) = lf_next s" "lf_next (snd (lf_trace n x s)) = Suc (lf_next s)"
  "span_open (lf_log (snd (lf_trace n x s))) i = span_open (lf_log s) i"
  by (auto simp: lf_trace_eq lf_ok_def lf_wf_def lf_disciplined_iff list_all_iff span_open_def)

lemma lf_ok_span [simp]:
  assumes ok: "lf_ok s"
  shows "lf_ok (snd (lf_span p n x s))"
    and "span_open (lf_log (snd (lf_span p n x s))) i \<longleftrightarrow> i = lf_next s \<or> span_open (lf_log s) i"
proof -
  let ?k = "lf_next s"
  have fresh: "span_recs (lf_log s) ?k = []"
    using ok lf_wf_less span_recs_empty unfolding lf_ok_def by blast
  have "\<forall>j \<in> set (span_ids (lf_log s)). j \<noteq> ?k"
    using ok lf_wf_less unfolding lf_ok_def by blast
  with ok show "lf_ok (snd (lf_span p n x s))"
    by (auto simp: lf_span_eq lf_ok_def lf_wf_def lf_disciplined_iff list_all_iff fresh)
  show "span_open (lf_log (snd (lf_span p n x s))) i \<longleftrightarrow> i = lf_next s \<or> span_open (lf_log s) i"
    using fresh by (auto simp: lf_span_eq span_open_def)
qed

lemma lf_span_fst_next [simp]:
  "fst (lf_span p n x s) = lf_next s" "lf_next (snd (lf_span p n x s)) = Suc (lf_next s)"
  by (simp_all add: lf_span_eq)

lemma lf_ok_snoc_span:
  assumes ok: "lf_ok s" and op: "span_open (lf_log s) i"
    and r: "r = SpanUpdated i p \<or> r = SpanEnded i"
  shows "lf_ok (lf_emit r s)"
proof -
  have ids: "i \<in> set (span_ids (lf_log s))"
    using op created_in_span_ids unfolding span_open_def by blast
  have sh: "span_shape (span_recs (lf_log s) i)"
    using ok ids unfolding lf_ok_def lf_disciplined_iff by blast
  have noend: "\<not> list_ex is_end (span_recs (lf_log s) i)"
    using op by (simp add: span_open_def)
  have shape: "span_shape (span_recs (lf_log s) i @ [r])"
    using r span_shape_snoc [OF sh noend] by (elim disjE) simp_all
  have rs: "rec_span r = Some i"
    using r by (elim disjE) simp_all
  have lt: "i < lf_next s"
    using ok ids lf_wf_less unfolding lf_ok_def by blast
  have wf: "lf_wf (lf_emit r s)"
    using ok lt rs by (simp add: lf_ok_def lf_wf_def)
  have "span_shape (span_recs (lf_log s @ [r]) j)" if j: "j \<in> set (span_ids (lf_log s @ [r]))" for j
  proof (cases "j = i")
    case True
    then show ?thesis using shape rs by simp
  next
    case False
    with j rs have "j \<in> set (span_ids (lf_log s))" by simp
    with ok False rs show ?thesis by (simp add: lf_ok_def lf_disciplined_iff)
  qed
  with wf show ?thesis
    by (simp add: lf_ok_def lf_disciplined_iff del: span_ids_append span_recs_append)
qed

lemma lf_ok_update_end [simp]:
  "lf_ok s \<Longrightarrow> span_open (lf_log s) i \<Longrightarrow> lf_ok (lf_update i p s)"
  "lf_ok s \<Longrightarrow> span_open (lf_log s) i \<Longrightarrow> lf_ok (lf_end i s)"
  unfolding lf_update_def lf_end_def by (auto intro: lf_ok_snoc_span)

lemma span_open_update_end [simp]:
  "span_open (lf_log (lf_update j p s)) i = span_open (lf_log s) i"
  "span_open (lf_log (lf_end j s)) i \<longleftrightarrow> i \<noteq> j \<and> span_open (lf_log s) i"
  by (auto simp: span_open_def lf_log_ops)

lemma lf_span_case [simp]:
  "(case lf_span p n x s of (i, s') \<Rightarrow> f i s') = f (lf_next s) (snd (lf_span p n x s))"
  by (simp add: lf_span_eq)

lemma lf_trace_case [simp]:
  "(case lf_trace n x s of (i, s') \<Rightarrow> f i s') = f (lf_next s) (snd (lf_trace n x s))"
  by (simp add: lf_trace_eq)

lemma lf_ok_fresh_not_open:
  "lf_ok s \<Longrightarrow> lf_next s \<le> i \<Longrightarrow> \<not> span_open (lf_log s) i"
  using created_in_span_ids lf_wf_less unfolding lf_ok_def span_open_def by fastforce

lemma span_open_less:
  "lf_ok s \<Longrightarrow> span_open (lf_log s) i \<Longrightarrow> i < lf_next s"
  using lf_ok_fresh_not_open not_less by blast

lemma lf_ok_init: "lf_ok lf_init"
  by (simp add: lf_ok_def lf_init_def lf_wf_def lf_disciplined_def span_ids_def)

end
