(* ===== verification/Gemini_Bot.thy ===== *)
theory Gemini_Bot
  imports Tools Langfuse
begin

text \<open>
  The stock-price bot of \<open>src/index.ts\<close>: the declaration \<open>stockPriceFunction\<close>, the
  mock handler \<open>getStockPrice\<close>, the class \<open>StockPriceBot\<close> with
  \<open>processQuery\<close>, and \<open>main\<close>. Every Langfuse call of the source is one
  operation of theory \<open>Langfuse\<close> on the emitter state (\<open>gstate\<close>), threaded
  through the definitions in the order of the source; every exception is an \<open>Inl\<close>.

  The Gemini SDK is not code of this repository. The model provider is a parameter
  \<open>gm :: gemini\<close>, a function from the request (model name, tool declarations and
  the whole chat contents) to a response or a \<open>TransportError\<close>; the chat session
  (\<open>startChat\<close>/\<open>sendMessage\<close>) is \<open>chat_send\<close>, which sends the history with the
  new message appended and, on success, records the message and the model's reply.
  A response is what the code reads of it: \<open>response.text()\<close>, which raises on a
  blocked response (\<open>None\<close>), and \<open>response.functionCalls()\<close>, which is
  \<open>undefined\<close> (\<open>None\<close>) when there are no calls. The clock read by
  \<open>new Date().toISOString()\<close> is the parameter \<open>now\<close>.
\<close>

subsection \<open>Data\<close>

definition stock_price_function :: fn_decl where
  "stock_price_function =
     \<lparr>fd_name = ''getStockPrice'',
      fd_description = ''Get the current stock price for a given company symbol'',
      fd_params = [\<lparr>prm_name = ''symbol'', prm_type = SString,
                    prm_desc = ''The stock symbol (e.g., AAPL for Apple)''\<rparr>],
      fd_required = [''symbol'']\<rparr>"

text \<open>The price is a JavaScript number: the literal \<open>150.25\<close> denotes the double
  nearest \<open>15025 * 10^-2\<close>, \<open>dec_round 15025 (-2)\<close> (lemma \<open>stock_price_exact\<close>:
  it is exactly \<open>601 * 2^-2\<close>).\<close>

record stock_data =
  sd_symbol :: string
  sd_price :: jsnum
  sd_currency :: string
  sd_timestamp :: string

record function_call =
  fc_name :: string
  fc_args :: js_object

record gresponse =
  g_text :: "string option"
  g_calls :: "function_call list option"

datatype gpart =
    UserText string
  | FunctionResponse string stock_data
  | ModelContent gresponse

record grequest =
  rq_model :: string
  rq_tools :: "fn_decl list"
  rq_contents :: "gpart list"

type_synonym gemini = "grequest \<Rightarrow> gresponse result"

text \<open>What the source records in Langfuse, one constructor per payload literal.\<close>

datatype gpayload =
    PTraceInput string
  | PChatHistory "gpart list"
  | PSessionStarted
  | PMessage string
  | PSendOutput gresponse string "function_call list option"
  | PCallsDetected nat
  | PFnDetected js_object
  | PStockInput jsval
  | PStockOutput stock_data
  | PStockError string
  | PFnResponse stock_data
  | PFinalResponse string
  | POutputFinal string
  | POutputResponse string
  | PErrorEvent string

type_synonym gstate = "gpayload lf_state"

datatype console = ConsoleLog string | ConsoleError string error

subsection \<open>The chat session and the response accessors\<close>

definition bot_model :: string where
  "bot_model = ''gemini-2.0-flash''"

definition bot_tools :: "fn_decl list" where
  "bot_tools = [stock_price_function]"

definition bot_request :: "gpart list \<Rightarrow> grequest" where
  "bot_request cs = \<lparr>rq_model = bot_model, rq_tools = bot_tools, rq_contents = cs\<rparr>"

definition chat_send :: "gemini \<Rightarrow> gpart list \<Rightarrow> gpart \<Rightarrow> (gresponse \<times> gpart list) result" where
  "chat_send gm hist p =
     (case gm (bot_request (hist @ [p])) of
        Inl e \<Rightarrow> Inl e
      | Inr r \<Rightarrow> Inr (r, hist @ [p, ModelContent r]))"

definition response_text :: "gresponse \<Rightarrow> string result" where
  "response_text r =
     (case g_text r of
        None \<Rightarrow> Inl (ResponseError ''Text not available. Response was blocked'')
      | Some t \<Rightarrow> Inr t)"

subsection \<open>getStockPrice\<close>

definition stock_quote :: "string \<Rightarrow> string \<Rightarrow> stock_data" where
  "stock_quote symb now =
     \<lparr>sd_symbol = symb, sd_price = dec_round 15025 (-2), sd_currency = ''USD'', sd_timestamp = now\<rparr>"

definition get_stock_price :: "string \<Rightarrow> jsval \<Rightarrow> gstate \<Rightarrow> stock_data result \<times> gstate" where
  "get_stock_price now symbol s0 =
     (case lf_span None ''getStockPrice'' (PStockInput symbol) s0 of
        (sp, s1) \<Rightarrow>
          (case call_to_upper symbol of
             Inl e \<Rightarrow> (Inl e, lf_end sp (lf_update sp (PStockError (error_message e)) s1))
           | Inr up \<Rightarrow>
               (let result = stock_quote up now
                in (Inr result, lf_end sp (lf_update sp (PStockOutput result) s1)))))"

subsection \<open>processQuery\<close>

text \<open>The body of the loop for a call named \<open>getStockPrice\<close> (lines 118-149).\<close>

definition handle_stock_call ::
  "gemini \<Rightarrow> string \<Rightarrow> nat \<Rightarrow> gpart list \<Rightarrow> function_call \<Rightarrow> gstate \<Rightarrow> string result \<times> gstate" where
  "handle_stock_call gm now tid hist fc s0 =
     (let s1 = lf_event tid ''functionCallDetected'' (PFnDetected (fc_args fc)) s0 in
      case get_stock_price now (get_prop (fc_args fc) ''symbol'') s1 of
        (Inl e, s2) \<Rightarrow> (Inl e, s2)
      | (Inr sd, s2) \<Rightarrow>
          (case lf_span (Some tid) ''sendFunctionResponse'' (PFnResponse sd) s2 of
             (rs, s3) \<Rightarrow>
               (case chat_send gm hist (FunctionResponse ''getStockPrice'' sd) of
                  Inl e \<Rightarrow> (Inl e, s3)
                | Inr (r2, _) \<Rightarrow>
                    (case response_text r2 of
                       Inl e \<Rightarrow> (Inl e, s3)
                     | Inr fin \<Rightarrow>
                         (Inr fin, lf_trace_update tid (POutputFinal fin)
                                     (lf_end rs (lf_update rs (PFinalResponse fin) s3)))))))"

text \<open>
  The \<open>for\<close> loop over the function calls (lines 116-151): a call with another name
  is skipped; the first \<open>getStockPrice\<close> call returns from \<open>processQuery\<close>.
  \<open>None\<close> is the loop running to its end.
\<close>

fun function_call_loop ::
  "gemini \<Rightarrow> string \<Rightarrow> nat \<Rightarrow> gpart list \<Rightarrow> function_call list \<Rightarrow> gstate \<Rightarrow>
     string result option \<times> gstate" where
  "function_call_loop gm now tid hist [] s = (None, s)"
| "function_call_loop gm now tid hist (fc # fcs) s =
     (if fc_name fc = ''getStockPrice''
      then (case handle_stock_call gm now tid hist fc s of (r, s') \<Rightarrow> (Some r, s'))
      else function_call_loop gm now tid hist fcs s)"

text \<open>The \<open>try\<close> block of \<open>processQuery\<close> (lines 79-156).\<close>

definition process_query_body :: "gemini \<Rightarrow> string \<Rightarrow> string \<Rightarrow> nat \<Rightarrow> gstate \<Rightarrow> string result \<times> gstate" where
  "process_query_body gm now q tid s0 =
     (case lf_span (Some tid) ''startChat'' (PChatHistory []) s0 of
        (cs, s1) \<Rightarrow>
          (let s2 = lf_end cs (lf_update cs PSessionStarted s1) in
           case lf_span (Some tid) ''sendMessage'' (PMessage q) s2 of
             (ms, s3) \<Rightarrow>
               (case chat_send gm [] (UserText q) of
                  Inl e \<Rightarrow> (Inl e, s3)
                | Inr (resp, hist) \<Rightarrow>
                    (let calls = g_calls resp in
                     case response_text resp of
                       Inl e \<Rightarrow> (Inl e, s3)
                     | Inr txt \<Rightarrow>
                         (let s4 = lf_end ms (lf_update ms (PSendOutput resp txt calls) s3) in
                          case (case calls of
                                  Some fcs \<Rightarrow>
                                    if 0 < length fcs
                                    then function_call_loop gm now tid hist fcs
                                           (lf_trace_update tid (PCallsDetected (length fcs)) s4)
                                    else (None, s4)
                                | None \<Rightarrow> (None, s4)) of
                            (Some r, s5) \<Rightarrow> (r, s5)
                          | (None, s5) \<Rightarrow>
                              (case response_text resp of
                                 Inl e \<Rightarrow> (Inl e, s5)
                               | Inr t \<Rightarrow> (Inr t, lf_trace_update tid (POutputResponse t) s5)))))))"

text \<open>\<open>processQuery\<close> (lines 71-166): the trace, the body, and the \<open>catch\<close> that records an
  error event and rethrows.\<close>

definition process_query :: "gemini \<Rightarrow> string \<Rightarrow> string \<Rightarrow> gstate \<Rightarrow> string result \<times> gstate" where
  "process_query gm now q s0 =
     (case lf_trace ''processQuery'' (PTraceInput q) s0 of
        (tid, s1) \<Rightarrow>
          (case process_query_body gm now q tid s1 of
             (Inl e, s2) \<Rightarrow> (Inl e, lf_event tid ''error'' (PErrorEvent (error_message e)) s2)
           | (Inr t, s2) \<Rightarrow> (Inr t, s2)))"

subsection \<open>main\<close>

definition queries :: "string list" where
  "queries = [''What'' @ [CHR 0x27] @ ''s the current stock price of Apple?'']"

text \<open>The loop of \<open>main\<close> (lines 174-182): each query in its own \<open>try\<close>; the clock
  is read once per query.\<close>

fun main_loop ::
  "gemini \<Rightarrow> (nat \<Rightarrow> string) \<Rightarrow> nat \<Rightarrow> string list \<Rightarrow> console list \<times> gstate \<Rightarrow> console list \<times> gstate" where
  "main_loop gm clock k [] acc = acc"
| "main_loop gm clock k (q # qs) (out, s) =
     (case process_query gm (clock k) q s of
        (Inr r, s') \<Rightarrow>
          main_loop gm clock (Suc k) qs
            (out @ [ConsoleLog (''Query: '' @ q), ConsoleLog (''Response: '' @ r @ [CHR 0x0A])], s')
      | (Inl e, s') \<Rightarrow>
          main_loop gm clock (Suc k) qs
            (out @ [ConsoleError (''Error for query '' @ [CHR 0x22] @ q @ [CHR 0x22] @ '':'') e], s'))"

definition main :: "gemini \<Rightarrow> (nat \<Rightarrow> string) \<Rightarrow> console list \<times> gstate" where
  "main gm clock = (case main_loop gm clock 0 queries ([], lf_init) of (out, s) \<Rightarrow> (out, lf_shutdown s))"

text \<open>The console lines \<open>main\<close> prints for one query and its outcome.\<close>

fun query_lines :: "string \<Rightarrow> string result \<Rightarrow> console list" where
  "query_lines q (Inr r) = [ConsoleLog (''Query: '' @ q), ConsoleLog (''Response: '' @ r @ [CHR 0x0A])]"
| "query_lines q (Inl e) = [ConsoleError (''Error for query '' @ [CHR 0x22] @ q @ [CHR 0x22] @ '':'') e]"

subsection \<open>A scenario provider\<close>

text \<open>
  Spec scenario 2: a provider that answers the user's question with one call of
  \<open>getStockPrice\<close> for \<open>aapl\<close>, and answers the function response with a text.
\<close>

definition scenario_query :: string where
  "scenario_query = ''Stock price of Apple?''"

definition scenario_gemini :: gemini where
  "scenario_gemini rq =
     (case rq_contents rq of
        [UserText q] \<Rightarrow>
          Inr \<lparr>g_text = Some [],
               g_calls = Some [\<lparr>fc_name = ''getStockPrice'', fc_args = [(''symbol'', JStr ''aapl'')]\<rparr>]\<rparr>
      | [UserText q, ModelContent r, FunctionResponse n sd] \<Rightarrow>
          Inr \<lparr>g_text = Some ''AAPL trades at 150.25 USD.'', g_calls = None\<rparr>
      | _ \<Rightarrow> Inl (TransportError ''unexpected request''))"

text \<open>A provider that cannot be reached (spec scenario 4).\<close>

definition offline_gemini :: gemini where
  "offline_gemini rq = Inl (TransportError ''fetch failed'')"

text \<open>A provider that calls \<open>getStockPrice\<close> without the required \<open>symbol\<close>.\<close>

definition nosymbol_gemini :: gemini where
  "nosymbol_gemini rq =
     Inr \<lparr>g_text = Some [], g_calls = Some [\<lparr>fc_name = ''getStockPrice'', fc_args = []\<rparr>]\<rparr>"

text \<open>A provider that calls an unregistered tool \<open>getWeather\<close> (spec scenario 3).\<close>

definition weather_gemini :: gemini where
  "weather_gemini rq =
     Inr \<lparr>g_text = Some ''Let me check the weather.'',
          g_calls = Some [\<lparr>fc_name = ''getWeather'', fc_args = [(''city'', JStr ''Paris'')]\<rparr>]\<rparr>"

lemma stock_price_exact: "sd_price (stock_quote symb now) = Fin 601 (-2)"
  by (simp add: stock_quote_def num_eval)

lemma function_call_loop_find:
  "function_call_loop gm now tid hist fcs s =
     (case find (\<lambda>fc. fc_name fc = ''getStockPrice'') fcs of
        None \<Rightarrow> (None, s)
      | Some fc \<Rightarrow> (case handle_stock_call gm now tid hist fc s of (r, s') \<Rightarrow> (Some r, s')))"
  by (induction fcs) auto

text \<open>
  C5. The loop over the function calls acts on the first \<open>getStockPrice\<close> call
  only: whatever follows that call in the model's reply (more calls of any tool) never
  changes the outcome or the trace.
\<close>

lemma function_call_loop_ignores_rest:
  assumes "fc_name fc = ''getStockPrice''"
  shows "function_call_loop gm now tid hist (fcs1 @ fc # fcs2) s =
         function_call_loop gm now tid hist (fcs1 @ [fc]) s"
  using assms by (induction fcs1) auto

lemma get_stock_price_ok:
  assumes "lf_ok s"
  shows "lf_ok (snd (get_stock_price now v s))"
    and "span_open (lf_log (snd (get_stock_price now v s))) i \<longleftrightarrow> span_open (lf_log s) i"
    and "lf_next (snd (get_stock_price now v s)) = Suc (lf_next s)"
  using assms lf_ok_fresh_not_open [OF assms, of "lf_next s"]
  by (auto simp: get_stock_price_def Let_def split: sum.splits)

lemma handle_stock_call_ok:
  assumes ok: "lf_ok s"
  shows "lf_ok (snd (handle_stock_call gm now tid hist fc s))"
    and "fst (handle_stock_call gm now tid hist fc s) = Inr t \<Longrightarrow>
           span_open (lf_log (snd (handle_stock_call gm now tid hist fc s))) i \<longleftrightarrow> span_open (lf_log s) i"
  using get_stock_price_ok [of "lf_event tid ''functionCallDetected'' (PFnDetected (fc_args fc)) s"] ok
    lf_ok_fresh_not_open span_open_less
  by (auto simp: handle_stock_call_def case_prod_beta chat_send_def response_text_def Let_def dest: span_open_less
      split: sum.splits option.splits)

lemma process_query_ok:
  assumes ok: "lf_ok s"
  shows "lf_ok (snd (process_query gm now q s))"
  using ok handle_stock_call_ok(1) lf_ok_fresh_not_open span_open_less
  by (auto simp: process_query_def process_query_body_def function_call_loop_find case_prod_beta
      chat_send_def response_text_def Let_def split: sum.splits option.splits)

text \<open>
  C3. A query that succeeds closes every span it opens: the spans open in the trace
  after \<open>processQuery\<close> returns a text are exactly those open before it.
\<close>

lemma process_query_closes_spans:
  assumes ok: "lf_ok s" and res: "fst (process_query gm now q s) = Inr t"
  shows "span_open (lf_log (snd (process_query gm now q s))) i \<longleftrightarrow> span_open (lf_log s) i"
  using ok res handle_stock_call_ok(2)
  by (auto simp: process_query_def process_query_body_def function_call_loop_find case_prod_beta
      chat_send_def response_text_def Let_def lf_ok_fresh_not_open
      split: sum.splits option.splits if_splits dest: span_open_less)

text \<open>
  C4. A transport error of the first \<open>sendMessage\<close> propagates unchanged out of
  \<open>processQuery\<close>, and the \<open>sendMessage\<close> span (the third identifier the query
  draws) is left open in the trace.
\<close>

lemma process_query_transport_error:
  assumes ok: "lf_ok s" and err: "gm (bot_request [UserText q]) = Inl e"
  shows "fst (process_query gm now q s) = Inl e \<and>
         span_open (lf_log (snd (process_query gm now q s))) (lf_next s + 2)"
  using ok err
  by (simp add: process_query_def process_query_body_def case_prod_beta chat_send_def)

text \<open>
  C1. \<open>processQuery\<close> answers a stock question through the tool: when the model's
  first reply calls \<open>getStockPrice\<close> with a string \<open>symbol\<close>, the bot sends back the
  mock quote for the upper-cased symbol (price 150.25 USD, the current time) as a
  function response on the same chat, and returns the text of the model's second reply.
\<close>

lemma process_query_stock_answer:
  assumes r1: "gm (bot_request [UserText q]) = Inr r1" and t1: "g_text r1 = Some txt"
    and calls: "g_calls r1 = Some fcs"
    and fc: "find (\<lambda>fc. fc_name fc = ''getStockPrice'') fcs = Some fc"
    and symb: "get_prop (fc_args fc) ''symbol'' = JStr symb"
    and r2: "gm (bot_request [UserText q, ModelContent r1,
               FunctionResponse ''getStockPrice'' (stock_quote (map upper_char symb) now)]) = Inr r2"
    and t2: "g_text r2 = Some fin"
  shows "fst (process_query gm now q s) = Inr fin"
proof -
  have "fcs \<noteq> []" using fc by auto
  then show ?thesis
    using assms by (simp add: process_query_def process_query_body_def function_call_loop_find
      handle_stock_call_def get_stock_price_def call_to_upper_def case_prod_beta chat_send_def
      response_text_def Let_def)
qed

text \<open>
  C6. A \<open>getStockPrice\<close> call whose \<open>symbol\<close> argument is missing or not a string
  makes \<open>symbol.toUpperCase()\<close> raise a \<open>TypeError\<close>, which \<open>processQuery\<close>
  rethrows after recording an error event as the last record of the trace.
\<close>

lemma process_query_bad_symbol:
  assumes r1: "gm (bot_request [UserText q]) = Inr r1" and t1: "g_text r1 = Some txt"
    and calls: "g_calls r1 = Some fcs"
    and fc: "find (\<lambda>fc. fc_name fc = ''getStockPrice'') fcs = Some fc"
    and bad: "\<not> is_jstr (get_prop (fc_args fc) ''symbol'')"
  shows "\<exists>m. fst (process_query gm now q s) = Inl (TypeError m) \<and>
             last (lf_log (snd (process_query gm now q s))) = EventCreated (lf_next s) ''error'' (PErrorEvent m)"
proof -
  obtain m where m: "call_to_upper (get_prop (fc_args fc) ''symbol'') = Inl (TypeError m)"
    using bad by (cases "get_prop (fc_args fc) ''symbol''") (auto simp: call_to_upper_def)
  have "fcs \<noteq> []" using fc by auto
  then show ?thesis
    using assms m by (simp add: process_query_def process_query_body_def function_call_loop_find
      handle_stock_call_def get_stock_price_def case_prod_beta chat_send_def
      response_text_def Let_def error_message_def lf_log_ops)
qed

text \<open>
  C7. When the model's first reply contains no \<open>getStockPrice\<close> call (no calls, an
  empty list, or only calls of unknown tools), \<open>processQuery\<close> returns the text of
  that first reply: an unknown tool is skipped silently, with no result sent to the model.
\<close>

lemma process_query_no_stock_call:
  assumes r1: "gm (bot_request [UserText q]) = Inr r1" and t1: "g_text r1 = Some txt"
    and none: "find (\<lambda>fc. fc_name fc = ''getStockPrice'') (case g_calls r1 of None \<Rightarrow> [] | Some fcs \<Rightarrow> fcs) = None"
  shows "fst (process_query gm now q s) = Inr txt"
  using assms
  by (auto simp: process_query_def process_query_body_def function_call_loop_find case_prod_beta
      chat_send_def response_text_def Let_def split: option.splits)

lemma main_loop_Cons:
  "main_loop gm clock k (q # qs) (out, s) =
     main_loop gm clock (Suc k) qs
       (out @ query_lines q (fst (process_query gm (clock k) q s)), snd (process_query gm (clock k) q s))"
  by (cases "process_query gm (clock k) q s" rule: prod.exhaust; rename_tac r s'; case_tac r) auto

lemma main_loop_ok: "lf_ok s \<Longrightarrow> lf_ok (snd (main_loop gm clock k qs (out, s)))"
proof (induction qs arbitrary: k out s)
  case Nil
  then show ?case by simp
next
  case (Cons q qs)
  then show ?case by (simp add: main_loop_Cons process_query_ok del: main_loop.simps(2))
qed

text \<open>
  C2. The whole run of \<open>main\<close> keeps the trace well formed, whatever the provider
  answers: every span identifier comes from the client's counter, and each span is
  created once, updated only while open, and ended at most once.
\<close>

theorem main_trace_ok: "lf_ok (snd (main gm clock))"
  by (simp add: main_def case_prod_beta main_loop_ok lf_ok_init)

subsection \<open>Witnesses\<close>

theorem process_query_stock_answer_witness:
  "fst (process_query scenario_gemini ''T'' scenario_query lf_init) = Inr ''AAPL trades at 150.25 USD.''"
proof -
  define fc where "fc = \<lparr>fc_name = ''getStockPrice'', fc_args = [(''symbol'', JStr ''aapl'')]\<rparr>"
  define r1 where "r1 = \<lparr>g_text = Some [], g_calls = Some [fc]\<rparr>"
  define r2 where "r2 = \<lparr>g_text = Some ''AAPL trades at 150.25 USD.'', g_calls = None\<rparr>"
  have h1: "scenario_gemini (bot_request [UserText scenario_query]) = Inr r1"
    by (simp add: scenario_gemini_def bot_request_def r1_def fc_def)
  have h2: "g_text r1 = Some []" and h3: "g_calls r1 = Some [fc]" by (simp_all add: r1_def)
  have h4: "find (\<lambda>fc. fc_name fc = ''getStockPrice'') [fc] = Some fc" by (simp add: fc_def)
  have h5: "get_prop (fc_args fc) ''symbol'' = JStr ''aapl''" by (simp add: fc_def get_prop_def)
  have h6: "scenario_gemini (bot_request [UserText scenario_query, ModelContent r1,
      FunctionResponse ''getStockPrice'' (stock_quote (map upper_char ''aapl'') ''T'')]) = Inr r2"
    by (simp add: scenario_gemini_def bot_request_def r2_def)
  have h7: "g_text r2 = Some ''AAPL trades at 150.25 USD.''" by (simp add: r2_def)
  show ?thesis by (rule process_query_stock_answer [of scenario_gemini scenario_query, OF h1 h2 h3 h4 h5 h6 h7])
qed

theorem process_query_transport_error_witness:
  "fst (process_query offline_gemini ''T'' scenario_query lf_init) = Inl (TransportError ''fetch failed'') \<and>
   span_open (lf_log (snd (process_query offline_gemini ''T'' scenario_query lf_init))) 2"
proof -
  have h: "offline_gemini (bot_request [UserText scenario_query]) = Inl (TransportError ''fetch failed'')"
    by (simp add: offline_gemini_def)
  show ?thesis
    using process_query_transport_error [of lf_init offline_gemini scenario_query, OF lf_ok_init h, of "''T''"] by (simp add: lf_init_def numeral_2_eq_2)
qed

theorem process_query_bad_symbol_witness:
  "\<exists>m. fst (process_query nosymbol_gemini ''T'' scenario_query lf_init) = Inl (TypeError m)"
proof -
  define fc where "fc = \<lparr>fc_name = ''getStockPrice'', fc_args = ([] :: js_object)\<rparr>"
  define r1 where "r1 = \<lparr>g_text = Some [], g_calls = Some [fc]\<rparr>"
  have h1: "nosymbol_gemini (bot_request [UserText scenario_query]) = Inr r1"
    by (simp add: nosymbol_gemini_def r1_def fc_def)
  have h2: "g_text r1 = Some []" and h3: "g_calls r1 = Some [fc]" by (simp_all add: r1_def)
  have h4: "find (\<lambda>fc. fc_name fc = ''getStockPrice'') [fc] = Some fc" by (simp add: fc_def)
  have h5: "\<not> is_jstr (get_prop (fc_args fc) ''symbol'')" by (simp add: fc_def get_prop_def)
  show ?thesis
    using process_query_bad_symbol [of nosymbol_gemini scenario_query, OF h1 h2 h3 h4 h5, of "''T''" lf_init] by blast
qed

theorem process_query_no_stock_call_witness:
  "fst (process_query weather_gemini ''T'' scenario_query lf_init) = Inr ''Let me check the weather.''"
proof -
  define r1 where "r1 = \<lparr>g_text = Some ''Let me check the weather.'',
          g_calls = Some [\<lparr>fc_name = ''getWeather'', fc_args = [(''city'', JStr ''Paris'')]\<rparr>]\<rparr>"
  have h1: "weather_gemini (bot_request [UserText scenario_query]) = Inr r1"
    by (simp add: weather_gemini_def r1_def)
  have h2: "g_text r1 = Some ''Let me check the weather.''" by (simp add: r1_def)
  have h3: "find (\<lambda>fc. fc_name fc = ''getStockPrice'')
      (case g_calls r1 of None \<Rightarrow> [] | Some fcs \<Rightarrow> fcs) = None" by (simp add: r1_def)
  show ?thesis by (rule process_query_no_stock_call [of weather_gemini scenario_query, OF h1 h2 h3])
qed

theorem process_query_closes_spans_witness:
  "\<not> span_open (lf_log (snd (process_query weather_gemini ''T'' scenario_query lf_init))) 2"
proof -
  have res: "fst (process_query weather_gemini ''T'' scenario_query lf_init) = Inr ''Let me check the weather.''"
    by (simp add: process_query_def process_query_body_def weather_gemini_def chat_send_def
        response_text_def function_call_loop_find Let_def case_prod_beta)
  show ?thesis
    using process_query_closes_spans [OF lf_ok_init res, of 2]
    by (simp add: lf_init_def span_open_def)
qed

theorem function_call_loop_ignores_rest_witness:
  "function_call_loop offline_gemini ''T'' 0 []
      [\<lparr>fc_name = ''getStockPrice'', fc_args = []\<rparr>, \<lparr>fc_name = ''getWeather'', fc_args = []\<rparr>] lf_init =
   function_call_loop offline_gemini ''T'' 0 [] [\<lparr>fc_name = ''getStockPrice'', fc_args = []\<rparr>] lf_init"
  using function_call_loop_ignores_rest [of "\<lparr>fc_name = ''getStockPrice'', fc_args = []\<rparr>" offline_gemini "''T''" 0 "[]" "[]"
      "[\<lparr>fc_name = ''getWeather'', fc_args = []\<rparr>]" lf_init]
  by simp

end
