(* ===== verification/Gemini_Trace.thy ===== *)
theory Gemini_Trace
  imports Gemini_Bot
begin

text \<open>
  What the Langfuse trace of \<open>src/index.ts\<close> records, and how far it steers the
  program. \<open>query_answer\<close> is \<open>processQuery\<close> with every Langfuse call erased,
  arguments included (the chat calls, \<open>toUpperCase\<close>, the first-\<open>getStockPrice\<close>
  choice and the throws kept). The traced code computes its answer for every trace
  state, with one exception: the argument \<open>responseText: response.text()\<close> of
  \<open>sendMessageSpan.update\<close> (line 100) throws on a blocked first response, so such a
  response fails the query even when it carries a \<open>getStockPrice\<close> call
  (\<open>query_result\<close>). \<open>main\<close> prints, query by query, the lines of that result,
  whatever the trace and the other queries did. The trace a run leaves is
  bounded (16 records and 5 identifiers per query, a bound the stock scenario reaches),
  it is flushed once, at the end of \<open>main\<close>, and its spans nest under the query's
  trace except the one \<open>getStockPrice\<close> opens with \<open>langfuse.span\<close>.
\<close>

subsection \<open>The untraced reference\<close>

definition stock_answer :: "gemini \<Rightarrow> string \<Rightarrow> gpart list \<Rightarrow> function_call \<Rightarrow> string result" where
  "stock_answer gm now hist fc =
     (case call_to_upper (get_prop (fc_args fc) ''symbol'') of
        Inl e \<Rightarrow> Inl e
      | Inr up \<Rightarrow>
          (case chat_send gm hist (FunctionResponse ''getStockPrice'' (stock_quote up now)) of
             Inl e \<Rightarrow> Inl e
           | Inr (r2, _) \<Rightarrow> response_text r2))"

definition query_answer :: "gemini \<Rightarrow> string \<Rightarrow> string \<Rightarrow> string result" where
  "query_answer gm now q =
     (case chat_send gm [] (UserText q) of
        Inl e \<Rightarrow> Inl e
      | Inr (resp, hist) \<Rightarrow>
          (case find (\<lambda>fc. fc_name fc = ''getStockPrice'') (case g_calls resp of None \<Rightarrow> [] | Some fcs \<Rightarrow> fcs) of
             None \<Rightarrow> response_text resp
           | Some fc \<Rightarrow> stock_answer gm now hist fc))"

text \<open>\<open>processQuery\<close>'s result with the Langfuse calls erased but the \<open>response.text()\<close>
  that line 100 evaluates as an argument of \<open>sendMessageSpan.update\<close>.\<close>

definition query_result :: "gemini \<Rightarrow> string \<Rightarrow> string \<Rightarrow> string result" where
  "query_result gm now q =
     (case chat_send gm [] (UserText q) of
        Inl e \<Rightarrow> Inl e
      | Inr (resp, _) \<Rightarrow> bindE (response_text resp) (\<lambda>_. query_answer gm now q))"

subsection \<open>What each operation adds to the trace\<close>

lemma get_stock_price_fst:
  "fst (get_stock_price now v s) = (case call_to_upper v of Inl e \<Rightarrow> Inl e | Inr up \<Rightarrow> Inr (stock_quote up now))"
  by (simp add: get_stock_price_def Let_def split: sum.splits)

lemma get_stock_price_log:
  "lf_log (snd (get_stock_price now v s)) =
     lf_log s @ [SpanCreated (lf_next s) None ''getStockPrice'' (PStockInput v),
                 SpanUpdated (lf_next s) (case call_to_upper v of Inl e \<Rightarrow> PStockError (error_message e)
                                          | Inr up \<Rightarrow> PStockOutput (stock_quote up now)),
                 SpanEnded (lf_next s)]"
  by (simp add: get_stock_price_def Let_def lf_span_eq lf_log_ops split: sum.splits)

lemma handle_stock_call_fst:
  "fst (handle_stock_call gm now tid hist fc s) = stock_answer gm now hist fc"
  by (simp add: handle_stock_call_def stock_answer_def case_prod_beta get_stock_price_fst Let_def
      split: sum.splits)

lemma function_call_loop_fst:
  "fst (function_call_loop gm now tid hist fcs s) =
     map_option (stock_answer gm now hist) (find (\<lambda>fc. fc_name fc = ''getStockPrice'') fcs)"
  by (induction fcs arbitrary: s) (simp_all add: case_prod_beta handle_stock_call_fst)

lemma process_query_body_fst:
  "fst (process_query_body gm now q tid s) = query_result gm now q"
  by (simp add: process_query_body_def query_result_def query_answer_def case_prod_beta
      function_call_loop_fst response_text_def Let_def split: sum.splits option.splits)

lemma process_query_fst: "fst (process_query gm now q s) = query_result gm now q"
  by (simp add: process_query_def case_prod_beta process_query_body_fst split: sum.splits)

lemma get_stock_price_next: "lf_next (snd (get_stock_price now v s)) = Suc (lf_next s)"
  by (simp add: get_stock_price_def Let_def lf_span_eq split: sum.splits)

lemma handle_stock_call_len: "length (lf_log (snd (handle_stock_call gm now tid hist fc s))) \<le> length (lf_log s) + 8"
  by (simp add: handle_stock_call_def get_stock_price_log lf_log_ops lf_span_eq case_prod_beta Let_def
      split: sum.splits)

lemma handle_stock_call_next: "lf_next (snd (handle_stock_call gm now tid hist fc s)) \<le> Suc (Suc (lf_next s))"
  by (simp add: handle_stock_call_def get_stock_price_next lf_span_eq case_prod_beta Let_def
      split: sum.splits)

lemma handle_stock_call_flushed:
  "Flushed \<in> set (lf_log (snd (handle_stock_call gm now tid hist fc s))) \<longleftrightarrow> Flushed \<in> set (lf_log s)"
  by (simp add: handle_stock_call_def get_stock_price_log lf_log_ops lf_span_eq case_prod_beta Let_def
      split: sum.splits)

lemma function_call_loop_len:
  "length (lf_log s) + 8 \<le> n \<Longrightarrow> length (lf_log (snd (function_call_loop gm now tid hist fcs s))) \<le> n"
  by (induction fcs arbitrary: s) (auto simp: case_prod_beta intro: order_trans [OF handle_stock_call_len])

lemma handle_stock_call_len_err:
  "fst (handle_stock_call gm now tid hist fc s) = Inl e \<Longrightarrow>
     length (lf_log (snd (handle_stock_call gm now tid hist fc s))) \<le> length (lf_log s) + 5"
  by (auto simp: handle_stock_call_def get_stock_price_log get_stock_price_fst lf_log_ops lf_span_eq case_prod_beta Let_def
      split: sum.splits)

lemma function_call_loop_None:
  "fst (function_call_loop gm now tid hist fcs s) = None \<Longrightarrow> snd (function_call_loop gm now tid hist fcs s) = s"
  by (induction fcs arbitrary: s) (auto simp: case_prod_beta)

lemma function_call_loop_len_err:
  "fst (function_call_loop gm now tid hist fcs s) = Some (Inl e) \<Longrightarrow> length (lf_log s) + 5 \<le> n \<Longrightarrow>
     length (lf_log (snd (function_call_loop gm now tid hist fcs s))) \<le> n"
  by (induction fcs arbitrary: s)
    (auto simp: case_prod_beta split: if_splits intro: order_trans [OF handle_stock_call_len_err])

lemma function_call_loop_next:
  "lf_next s + 2 \<le> n \<Longrightarrow> lf_next (snd (function_call_loop gm now tid hist fcs s)) \<le> n"
  by (induction fcs arbitrary: s) (auto simp: case_prod_beta intro: order_trans [OF handle_stock_call_next])

lemma function_call_loop_flushed:
  "Flushed \<in> set (lf_log (snd (function_call_loop gm now tid hist fcs s))) \<longleftrightarrow> Flushed \<in> set (lf_log s)"
  by (induction fcs arbitrary: s) (simp_all add: case_prod_beta handle_stock_call_flushed)

lemma process_query_len: "length (lf_log (snd (process_query gm now q s))) \<le> length (lf_log s) + 16"
  by (auto simp: process_query_def process_query_body_def lf_log_ops lf_span_eq lf_trace_eq
      function_call_loop_len function_call_loop_None function_call_loop_len_err case_prod_beta Let_def split: sum.splits option.splits)

lemma process_query_next: "lf_next (snd (process_query gm now q s)) \<le> lf_next s + 5"
  by (auto simp: process_query_def process_query_body_def lf_span_eq lf_trace_eq
      function_call_loop_next case_prod_beta Let_def split: sum.splits option.splits)

lemma process_query_flushed:
  "Flushed \<in> set (lf_log (snd (process_query gm now q s))) \<longleftrightarrow> Flushed \<in> set (lf_log s)"
  by (simp add: process_query_def process_query_body_def lf_log_ops lf_span_eq lf_trace_eq function_call_loop_flushed
      case_prod_beta Let_def split: sum.splits option.splits)


lemma main_loop_flushed:
  "Flushed \<in> set (lf_log (snd (main_loop gm clock k qs (out, s)))) \<longleftrightarrow> Flushed \<in> set (lf_log s)"
  by (induction qs arbitrary: k out s) (simp_all add: main_loop_Cons process_query_flushed del: main_loop.simps(2))

lemma scenario_trace_length:
  "length (lf_log (snd (process_query scenario_gemini ''T'' scenario_query lf_init))) = 16"
  by (simp add: process_query_def process_query_body_def scenario_gemini_def scenario_query_def bot_request_def
      handle_stock_call_def get_stock_price_def call_to_upper_def chat_send_def response_text_def
      get_prop_def Let_def lf_log_ops lf_span_eq lf_trace_eq lf_init_def)

subsection \<open>Properties\<close>


text \<open>
  C8. \<open>main\<close>'s loop runs every query in order, whatever the earlier ones did: its
  console output is, query by query, the lines of the result \<open>processQuery\<close>
  computes for that query with the clock read at its turn, a result that depends on
  neither the trace nor the other queries.
\<close>

lemma main_loop_console:
  "fst (main_loop gm clock k qs (out, s)) =
     out @ concat (map (\<lambda>(i, q). query_lines q (query_result gm (clock i) q)) (zip [k..<k + length qs] qs))"
proof (induction qs arbitrary: k out s)
  case Nil
  then show ?case by simp
next
  case (Cons q qs)
  have z: "zip [k..<k + length (q # qs)] (q # qs) = (k, q) # zip [Suc k..<Suc k + length qs] qs"
    by (simp add: upt_conv_Cons del: upt_Suc)
  show ?case
    unfolding z by (simp add: main_loop_Cons process_query_fst Cons.IH del: main_loop.simps(2))
qed

text \<open>
  C20. The trace grows by at most 16 records and draws at most 5 identifiers per query:
  for any list of queries, \<open>main\<close>'s loop adds at most \<open>16 * n\<close> records and
  \<open>5 * n\<close> identifiers for \<open>n\<close> queries (the stock scenario reaches 16).
\<close>

lemma main_loop_trace_bound:
  "length (lf_log (snd (main_loop gm clock k qs (out, s)))) \<le> length (lf_log s) + 16 * length qs \<and>
   lf_next (snd (main_loop gm clock k qs (out, s))) \<le> lf_next s + 5 * length qs"
proof (induction qs arbitrary: k out s)
  case Nil
  then show ?case by simp
next
  case (Cons q qs)
  let ?s' = "snd (process_query gm (clock k) q s)"
  let ?out' = "out @ query_lines q (fst (process_query gm (clock k) q s))"
  have eq: "main_loop gm clock k (q # qs) (out, s) = main_loop gm clock (Suc k) qs (?out', ?s')"
    by (rule main_loop_Cons)
  have "length (lf_log ?s') \<le> length (lf_log s) + 16" by (rule process_query_len)
  moreover have "lf_next ?s' \<le> lf_next s + 5" by (rule process_query_next)
  moreover note Cons.IH [of "Suc k" ?out' ?s']
  ultimately show ?case unfolding eq by simp
qed

text \<open>
  C21. Spec 4.4 and 6: \<open>main\<close> flushes the trace exactly once, as its last action; no
  query flushes it.
\<close>

lemma main_flushes_once_at_end:
  "last (lf_log (snd (main gm clock))) = Flushed \<and>
   filter (\<lambda>r. r = Flushed) (lf_log (snd (main gm clock))) = [Flushed]"
proof -
  obtain out s where ml: "main_loop gm clock 0 queries ([], lf_init) = (out, s)" by fastforce
  have "Flushed \<notin> set (lf_log s)"
    using main_loop_flushed [of gm clock 0 queries "[]" lf_init] ml by (simp add: lf_init_def)
  then have "filter (\<lambda>r. r = Flushed) (lf_log s) = []" by (auto simp: filter_empty_conv)
  with ml show ?thesis by (simp add: main_def lf_shutdown_def)
qed

text \<open>
  C22. Divergence from spec 4.4 (spans nest under the per-turn trace): a stock query
  creates four spans, three under its trace and the \<open>getStockPrice\<close> span with no
  parent, since \<open>getStockPrice\<close> calls \<open>langfuse.span\<close> rather than
  \<open>trace.span\<close>.
\<close>

lemma process_query_span_parents:
  assumes r1: "gm (bot_request [UserText q]) = Inr r1" and t1: "g_text r1 = Some txt"
    and calls: "g_calls r1 = Some fcs"
    and fc: "find (\<lambda>fc. fc_name fc = ''getStockPrice'') fcs = Some fc"
    and symb: "get_prop (fc_args fc) ''symbol'' = JStr symb"
  shows "span_parents (lf_log (snd (process_query gm now q s))) =
           span_parents (lf_log s) @
             [(Some (lf_next s), ''startChat''), (Some (lf_next s), ''sendMessage''),
              (None, ''getStockPrice''), (Some (lf_next s), ''sendFunctionResponse'')]"
proof -
  have "fcs \<noteq> []" using fc by auto
  then show ?thesis
    using assms by (simp add: process_query_def process_query_body_def function_call_loop_find
      handle_stock_call_def get_stock_price_log get_stock_price_next get_stock_price_fst call_to_upper_def case_prod_beta
      chat_send_def response_text_def Let_def lf_log_ops lf_span_eq lf_trace_eq split: sum.splits)
qed

subsection \<open>Witnesses\<close>

theorem process_query_span_parents_witness:
  "span_parents (lf_log (snd (process_query scenario_gemini ''T'' scenario_query lf_init))) =
     [(Some 0, ''startChat''), (Some 0, ''sendMessage''), (None, ''getStockPrice''), (Some 0, ''sendFunctionResponse'')]"
proof -
  define fc where "fc = \<lparr>fc_name = ''getStockPrice'', fc_args = [(''symbol'', JStr ''aapl'')]\<rparr>"
  define r1 where "r1 = \<lparr>g_text = Some [], g_calls = Some [fc]\<rparr>"
  have h1: "scenario_gemini (bot_request [UserText scenario_query]) = Inr r1"
    by (simp add: scenario_gemini_def bot_request_def r1_def fc_def)
  have h2: "g_text r1 = Some []" and h3: "g_calls r1 = Some [fc]" by (simp_all add: r1_def)
  have h4: "find (\<lambda>fc. fc_name fc = ''getStockPrice'') [fc] = Some fc" by (simp add: fc_def)
  have h5: "get_prop (fc_args fc) ''symbol'' = JStr ''aapl''" by (simp add: fc_def get_prop_def)
  show ?thesis
    using process_query_span_parents [of scenario_gemini scenario_query, OF h1 h2 h3 h4 h5, of "''T''" lf_init]
    by (simp add: lf_init_def)
qed

end
