(* ===== verification/Ollama_Fn_Call.thy ===== *)
theory Ollama_Fn_Call
  imports Tools
begin

text \<open>
  The Ollama example of \<open>src/ollama/ollama_fn_call.ts\<close>: the handlers
  \<open>addTwoNumbers\<close>/\<open>subtractTwoNumbers\<close>, their tool declarations, the lookup in
  the object literal \<open>availableFunctions\<close>, and \<open>run\<close>, which sends the prompt with
  the tools, runs each tool call of the reply, appends the reply and the tool's output
  to the message history, and makes a second, tool-less chat call.

  The Ollama SDK is a parameter \<open>ol :: ollama\<close> from the request (model, messages,
  optional tools) to the reply message, or to the message of a failed request, which
  the awaited promise raises as a \<open>TransportError\<close>. The state of
  \<open>run\<close> is the message array and the console output (\<open>orun\<close>); an exception
  ends \<open>run\<close> and is printed by the \<open>.catch\<close> of the last line.

  The lookup \<open>availableFunctions[name]\<close> is a property read: besides the two own
  properties, a name of \<open>Object.prototype\<close> yields an inherited value, which is
  truthy and is then called with the arguments as in strict-mode module code
  (\<open>this\<close> is \<open>undefined\<close>): \<open>constructor\<close> is \<open>Object\<close>, which returns its
  argument; \<open>toString\<close> returns \<open>[object Undefined]\<close>; the other inherited methods
  raise a \<open>TypeError\<close> on an \<open>undefined\<close> receiver; \<open>__proto__\<close> is an object and
  calling it raises a \<open>TypeError\<close>.

  The handlers raise what JavaScript's operators raise: \<open>args.a + args.b\<close> and
  \<open>args.a - args.b\<close> convert an object argument to a primitive, which fails with a
  \<open>TypeError\<close> when the parsed object has its own \<open>toString\<close> member (see
  \<open>JS_Values\<close>); \<open>output.toString()\<close> fails the same way on the object
  \<open>constructor\<close> returns.
\<close>

subsection \<open>Handlers and declarations\<close>

definition add_two_numbers :: "js_object \<Rightarrow> jsval result" where
  "add_two_numbers args = js_add (get_prop args ''a'') (get_prop args ''b'')"

definition subtract_two_numbers :: "js_object \<Rightarrow> jsval result" where
  "subtract_two_numbers args = js_sub (get_prop args ''a'') (get_prop args ''b'')"

definition number_params :: "param_decl list" where
  "number_params =
     [\<lparr>prm_name = ''a'', prm_type = SNumber, prm_desc = ''The first number''\<rparr>,
      \<lparr>prm_name = ''b'', prm_type = SNumber, prm_desc = ''The second number''\<rparr>]"

definition add_two_numbers_tool :: fn_decl where
  "add_two_numbers_tool =
     \<lparr>fd_name = ''addTwoNumbers'', fd_description = ''Add two numbers together'',
      fd_params = number_params, fd_required = [''a'', ''b'']\<rparr>"

definition subtract_two_numbers_tool :: fn_decl where
  "subtract_two_numbers_tool =
     \<lparr>fd_name = ''subtractTwoNumbers'', fd_description = ''Subtract two numbers'',
      fd_params = number_params, fd_required = [''a'', ''b'']\<rparr>"

subsection \<open>The lookup in availableFunctions\<close>

datatype fn_value =
    AddTwoNumbers
  | SubtractTwoNumbers
  | ProtoConstructor
  | ProtoToString
  | ProtoThrowing
  | ProtoNonCallable

definition throwing_proto_methods :: "string list" where
  "throwing_proto_methods =
     [''hasOwnProperty'', ''isPrototypeOf'', ''propertyIsEnumerable'', ''toLocaleString'',
      ''valueOf'', ''__defineGetter__'', ''__defineSetter__'', ''__lookupGetter__'',
      ''__lookupSetter__'']"

definition object_prototype_prop :: "string \<Rightarrow> fn_value option" where
  "object_prototype_prop n =
     (if n = ''constructor'' then Some ProtoConstructor
      else if n = ''toString'' then Some ProtoToString
      else if n = ''__proto__'' then Some ProtoNonCallable
      else if n \<in> set throwing_proto_methods then Some ProtoThrowing
      else None)"

definition available_functions :: "string \<Rightarrow> fn_value option" where
  "available_functions n =
     (if n = ''addTwoNumbers'' then Some AddTwoNumbers
      else if n = ''subtractTwoNumbers'' then Some SubtractTwoNumbers
      else object_prototype_prop n)"

text \<open>\<open>functionToCall(tool.function.arguments)\<close>.\<close>

fun call_fn :: "fn_value \<Rightarrow> js_object \<Rightarrow> jsval result" where
  "call_fn AddTwoNumbers args = add_two_numbers args"
| "call_fn SubtractTwoNumbers args = subtract_two_numbers args"
| "call_fn ProtoConstructor args = Inr (JObj args)"
| "call_fn ProtoToString args = Inr (JStr ''[object Undefined]'')"
| "call_fn ProtoThrowing args = Inl (TypeError ''Cannot convert undefined or null to object'')"
| "call_fn ProtoNonCallable args = Inl (TypeError ''functionToCall is not a function'')"

subsection \<open>Messages, requests and the run's state\<close>

record ocall =
  oc_name :: string
  oc_args :: js_object

record omessage =
  om_role :: string
  om_content :: string
  om_tool_calls :: "ocall list option"

record orequest =
  oq_model :: string
  oq_messages :: "omessage list"
  oq_tools :: "fn_decl list option"

type_synonym ollama = "orequest \<Rightarrow> string + omessage"

datatype ocons =
    OLog "string list"
  | OLogArgs string js_object
  | OLogValue string jsval
  | OLogReply omessage
  | OError string error

record orun =
  o_messages :: "omessage list"
  o_console :: "ocons list"

definition user_msg :: "string \<Rightarrow> omessage" where
  "user_msg c = \<lparr>om_role = ''user'', om_content = c, om_tool_calls = None\<rparr>"

definition tool_msg :: "string \<Rightarrow> omessage" where
  "tool_msg c = \<lparr>om_role = ''tool'', om_content = c, om_tool_calls = None\<rparr>"

definition prompt :: string where
  "prompt = ''What is three minus one?''"

definition ollama_tools :: "fn_decl list" where
  "ollama_tools = [add_two_numbers_tool, subtract_two_numbers_tool]"

definition ollama_request :: "string \<Rightarrow> omessage list \<Rightarrow> fn_decl list option \<Rightarrow> orequest" where
  "ollama_request model msgs tools = \<lparr>oq_model = model, oq_messages = msgs, oq_tools = tools\<rparr>"

definition ollama_chat :: "ollama \<Rightarrow> orequest \<Rightarrow> omessage result" where
  "ollama_chat ol rq = (case ol rq of Inl m \<Rightarrow> Inl (TransportError m) | Inr r \<Rightarrow> Inr r)"

definition log :: "ocons \<Rightarrow> orun \<Rightarrow> orun" where
  "log c st = st\<lparr>o_console := o_console st @ [c]\<rparr>"

definition push :: "omessage \<Rightarrow> orun \<Rightarrow> orun" where
  "push m st = st\<lparr>o_messages := o_messages st @ [m]\<rparr>"

subsection \<open>run\<close>

text \<open>The body of the \<open>for\<close> loop over \<open>response.message.tool_calls\<close> (lines 68-88).\<close>

definition tool_step :: "omessage \<Rightarrow> ocall \<Rightarrow> orun \<Rightarrow> unit result \<times> orun" where
  "tool_step reply t st =
     (case available_functions (oc_name t) of
        None \<Rightarrow> (Inr (), log (OLog [''Function'', oc_name t, ''not found'']) st)
      | Some f \<Rightarrow>
          (let st1 = log (OLogArgs ''Arguments:'' (oc_args t)) (log (OLog [''Calling function:'', oc_name t]) st) in
           case call_fn f (oc_args t) of
             Inl e \<Rightarrow> (Inl e, st1)
           | Inr output \<Rightarrow>
               (let st2 = push reply (log (OLogValue ''Function output:'' output) st1) in
                case call_to_string output of
                  Inl e \<Rightarrow> (Inl e, st2)
                | Inr c \<Rightarrow> (Inr (), push (tool_msg c) st2))))"

fun tool_loop :: "omessage \<Rightarrow> ocall list \<Rightarrow> orun \<Rightarrow> unit result \<times> orun" where
  "tool_loop reply [] st = (Inr (), st)"
| "tool_loop reply (t # ts) st =
     (case tool_step reply t st of
        (Inl e, st') \<Rightarrow> (Inl e, st')
      | (Inr _, st') \<Rightarrow> tool_loop reply ts st')"

text \<open>\<open>run(model)\<close> (lines 47-99).\<close>

definition run :: "ollama \<Rightarrow> string \<Rightarrow> unit result \<times> orun" where
  "run ol model =
     (let st0 = log (OLog [''Prompt:'', prompt]) \<lparr>o_messages = [user_msg prompt], o_console = []\<rparr> in
      case ollama_chat ol (ollama_request model (o_messages st0) (Some ollama_tools)) of
        Inl e \<Rightarrow> (Inl e, st0)
      | Inr reply \<Rightarrow>
          (let st1 = log (OLogReply reply) st0 in
           case om_tool_calls reply of
             None \<Rightarrow> (Inr (), log (OLog [''No tool calls returned from model'']) st1)
           | Some calls \<Rightarrow>
               (case tool_loop reply calls st1 of
                  (Inl e, st2) \<Rightarrow> (Inl e, st2)
                | (Inr _, st2) \<Rightarrow>
                    (case ollama_chat ol (ollama_request model (o_messages st2) None) of
                       Inl e \<Rightarrow> (Inl e, st2)
                     | Inr final \<Rightarrow> (Inr (), log (OLog [''Final response:'', om_content final]) st2)))))"

text \<open>The script's last line: \<open>run("qwen2.5:3b").catch(...)\<close>.\<close>

definition ollama_main :: "ollama \<Rightarrow> orun" where
  "ollama_main ol =
     (case run ol ''qwen2.5:3b'' of
        (Inl e, st) \<Rightarrow> log (OError ''An error occurred:'' e) st
      | (Inr _, st) \<Rightarrow> st)"

subsection \<open>What one tool call contributes\<close>

text \<open>
  The outcome of one tool call: the name is not found, the called function raises,
  \<open>output.toString()\<close> raises, or the call gives an output string. A call with an
  output contributes the reply message and the tool message to the history, one
  whose \<open>toString\<close> raises the reply message only (pushed before the string is
  made), the others nothing.
\<close>

datatype tool_outcome = NotFound | Raised error | PrintFailed error | Output string

definition tool_outcome :: "ocall \<Rightarrow> tool_outcome" where
  "tool_outcome t =
     (case available_functions (oc_name t) of
        None \<Rightarrow> NotFound
      | Some f \<Rightarrow>
          (case call_fn f (oc_args t) of
             Inl e \<Rightarrow> Raised e
           | Inr out \<Rightarrow> (case call_to_string out of Inl e \<Rightarrow> PrintFailed e | Inr c \<Rightarrow> Output c)))"

definition appended :: "omessage \<Rightarrow> ocall \<Rightarrow> omessage list" where
  "appended reply t =
     (case tool_outcome t of Output c \<Rightarrow> [reply, tool_msg c] | PrintFailed _ \<Rightarrow> [reply] | _ \<Rightarrow> [])"

fun raises :: "tool_outcome \<Rightarrow> bool" where
  "raises (Raised _) = True"
| "raises (PrintFailed _) = True"
| "raises _ = False"

subsection \<open>Scenario providers\<close>

definition subtract_call :: ocall where
  "subtract_call = \<lparr>oc_name = ''subtractTwoNumbers'', oc_args = [(''a'', JNum (Fin 3 0)), (''b'', JNum (Fin 1 0))]\<rparr>"

text \<open>Spec scenario 1: the model asks for \<open>subtractTwoNumbers\<close> with \<open>a = 3\<close>, \<open>b = 1\<close>.\<close>

definition scenario_ollama :: ollama where
  "scenario_ollama rq =
     (case oq_tools rq of
        Some _ \<Rightarrow> Inr \<lparr>om_role = ''assistant'', om_content = [], om_tool_calls = Some [subtract_call]\<rparr>
      | None \<Rightarrow> Inr \<lparr>om_role = ''assistant'', om_content = ''Three minus one is 2.'', om_tool_calls = None\<rparr>)"

text \<open>A reply with three calls, the middle one of a tool that is not registered.\<close>

definition batch_calls :: "ocall list" where
  "batch_calls =
     [subtract_call, \<lparr>oc_name = ''multiplyTwoNumbers'', oc_args = []\<rparr>,
      \<lparr>oc_name = ''addTwoNumbers'', oc_args = [(''a'', JNum (Fin 2 0)), (''b'', JNum (Fin 2 0))]\<rparr>]"

definition batch_ollama :: ollama where
  "batch_ollama rq =
     (case oq_tools rq of
        Some _ \<Rightarrow> Inr \<lparr>om_role = ''assistant'', om_content = [], om_tool_calls = Some batch_calls\<rparr>
      | None \<Rightarrow> Inr \<lparr>om_role = ''assistant'', om_content = ''Done.'', om_tool_calls = None\<rparr>)"

text \<open>A reply calling a tool named after an inherited method of \<open>Object.prototype\<close>.\<close>

definition proto_ollama :: ollama where
  "proto_ollama rq =
     Inr \<lparr>om_role = ''assistant'', om_content = [],
          om_tool_calls = Some [\<lparr>oc_name = ''hasOwnProperty'', oc_args = [(''a'', JNum (Fin 1 0))]\<rparr>]\<rparr>"

text \<open>A reply calling \<open>addTwoNumbers\<close> with an object argument that has its own
  \<open>toString\<close> member.\<close>

definition object_arg_ollama :: ollama where
  "object_arg_ollama rq =
     Inr \<lparr>om_role = ''assistant'', om_content = [],
          om_tool_calls = Some [\<lparr>oc_name = ''addTwoNumbers'',
                                 oc_args = [(''a'', JObj [(''toString'', JNum (Fin 1 0))]), (''b'', JNum (Fin 1 0))]\<rparr>]\<rparr>"

subsection \<open>Tool calls and the message history\<close>

lemma tool_step_result:
  "fst (tool_step reply t st) =
     (case tool_outcome t of Raised e \<Rightarrow> Inl e | PrintFailed e \<Rightarrow> Inl e | _ \<Rightarrow> Inr ())"
  "o_messages (snd (tool_step reply t st)) = o_messages st @ appended reply t"
  by (auto simp: tool_step_def tool_outcome_def appended_def Let_def log_def push_def
      split: option.splits sum.splits)

lemma handler_output:
  "add_two_numbers args = Inr out \<Longrightarrow> \<exists>c. call_to_string out = Inr c"
  "subtract_two_numbers args = Inr out \<Longrightarrow> \<exists>c. call_to_string out = Inr c"
  by (auto simp: add_two_numbers_def subtract_two_numbers_def call_to_string_prim
      dest!: js_add_Inr js_sub_Inr)

lemma tool_loop_unknown:
  "list_all (\<lambda>t. available_functions (oc_name t) = None) ts \<Longrightarrow>
     fst (tool_loop reply ts st) = Inr () \<and> o_messages (snd (tool_loop reply ts st)) = o_messages st"
  by (induction ts arbitrary: st) (auto simp: tool_step_def log_def)

lemma own_call_output:
  assumes n: "oc_name t \<in> {''addTwoNumbers'', ''subtractTwoNumbers''}"
    and args: "\<forall>k \<in> {''a'', ''b''}. \<exists>p. to_primitive (get_prop (oc_args t) k) = Inr p"
  shows "\<exists>f out c. available_functions (oc_name t) = Some f \<and> call_fn f (oc_args t) = Inr out \<and>
           call_to_string out = Inr c \<and> tool_outcome t = Output c"
proof -
  from args obtain pa pb where pa: "to_primitive (get_prop (oc_args t) ''a'') = Inr pa"
    and pb: "to_primitive (get_prop (oc_args t) ''b'') = Inr pb" by blast
  show ?thesis
  proof (cases "oc_name t = ''addTwoNumbers''")
    case True
    obtain out where o: "add_two_numbers (oc_args t) = Inr out"
      using js_add_ok [OF pa pb] by (auto simp: add_two_numbers_def)
    obtain c where "call_to_string out = Inr c" using handler_output(1) [OF o] by blast
    with True o show ?thesis by (simp add: available_functions_def tool_outcome_def)
  next
    case False
    with n have n': "oc_name t = ''subtractTwoNumbers''" by simp
    obtain out where o: "subtract_two_numbers (oc_args t) = Inr out"
      using js_sub_ok [OF pa pb] by (auto simp: subtract_two_numbers_def)
    obtain c where "call_to_string out = Inr c" using handler_output(2) [OF o] by blast
    with n' o show ?thesis by (simp add: available_functions_def tool_outcome_def)
  qed
qed

lemma tool_loop_ok:
  "list_all (\<lambda>t. \<not> raises (tool_outcome t)) ts \<Longrightarrow>
     fst (tool_loop reply ts st) = Inr () \<and>
     o_messages (snd (tool_loop reply ts st)) = o_messages st @ concat (map (appended reply) ts)"
proof (induction ts arbitrary: st)
  case Nil
  then show ?case by simp
next
  case (Cons t ts)
  obtain r st' where step: "tool_step reply t st = (r, st')" by fastforce
  from Cons.prems have "r = Inr ()"
    using tool_step_result(1) [of reply t st] step by (auto split: tool_outcome.splits)
  moreover have "o_messages st' = o_messages st @ appended reply t"
    using tool_step_result(2) [of reply t st] step by simp
  ultimately show ?case
    using Cons.IH [of st'] Cons.prems step by simp
qed


lemma tool_loop_error:
  "fst (tool_loop reply ts st) = Inl e \<Longrightarrow> \<exists>t \<in> set ts. tool_outcome t = Raised e \<or> tool_outcome t = PrintFailed e"
proof (induction ts arbitrary: st)
  case Nil
  then show ?case by simp
next
  case (Cons t ts)
  obtain r st' where step: "tool_step reply t st = (r, st')" by fastforce
  show ?case
  proof (cases r)
    case (Inl e')
    with Cons.prems step have "e' = e" by simp
    with Inl step tool_step_result(1) [of reply t st] show ?thesis
      by (auto split: tool_outcome.splits)
  next
    case (Inr u)
    with Cons.prems step have "fst (tool_loop reply ts st') = Inl e" by simp
    then show ?thesis using Cons.IH by auto
  qed
qed

text \<open>Why one call raises: an inherited method that throws, an argument of an arithmetic
  tool without a primitive value, or the arguments object that \<open>constructor\<close> returns
  carrying its own \<open>toString\<close>; always a \<open>TypeError\<close>.\<close>

lemma raised_cause:
  assumes r: "tool_outcome t = Raised e \<or> tool_outcome t = PrintFailed e"
  shows "(\<exists>m. e = TypeError m) \<and>
         (oc_name t \<in> insert ''__proto__'' (set throwing_proto_methods) \<or>
          (oc_name t \<in> {''addTwoNumbers'', ''subtractTwoNumbers''} \<and>
             (to_primitive (get_prop (oc_args t) ''a'') = Inl e \<or> to_primitive (get_prop (oc_args t) ''b'') = Inl e)) \<or>
          (oc_name t = ''constructor'' \<and> has_own (oc_args t) ''toString''))"
proof -
  from r obtain f where f: "available_functions (oc_name t) = Some f"
    by (auto simp: tool_outcome_def split: option.splits)
  show ?thesis
  proof (cases f)
    case AddTwoNumbers
    with f have n: "oc_name t = ''addTwoNumbers''"
      by (auto simp: available_functions_def object_prototype_prop_def throwing_proto_methods_def split: if_splits)
    from r f AddTwoNumbers have "add_two_numbers (oc_args t) = Inl e"
      by (auto simp: tool_outcome_def split: sum.splits dest: handler_output)
    then have "to_primitive (get_prop (oc_args t) ''a'') = Inl e \<or> to_primitive (get_prop (oc_args t) ''b'') = Inl e"
      by (auto simp: add_two_numbers_def dest: js_add_Inl)
    with n show ?thesis by (auto dest: to_primitive_Inl)
  next
    case SubtractTwoNumbers
    with f have n: "oc_name t = ''subtractTwoNumbers''"
      by (auto simp: available_functions_def object_prototype_prop_def throwing_proto_methods_def split: if_splits)
    from r f SubtractTwoNumbers have "subtract_two_numbers (oc_args t) = Inl e"
      by (auto simp: tool_outcome_def split: sum.splits dest: handler_output)
    then have "to_primitive (get_prop (oc_args t) ''a'') = Inl e \<or> to_primitive (get_prop (oc_args t) ''b'') = Inl e"
      by (auto simp: subtract_two_numbers_def dest: js_sub_Inl)
    with n show ?thesis by (auto dest: to_primitive_Inl)
  next
    case ProtoConstructor
    with f have n: "oc_name t = ''constructor''"
      by (auto simp: available_functions_def object_prototype_prop_def throwing_proto_methods_def split: if_splits)
    from r f ProtoConstructor show ?thesis
      by (auto simp: n tool_outcome_def call_to_string_def split: if_splits)
  next
    case ProtoToString
    with r f show ?thesis by (simp add: tool_outcome_def call_to_string_def)
  next
    case ProtoThrowing
    with f r show ?thesis
      by (auto simp: tool_outcome_def available_functions_def object_prototype_prop_def split: if_splits)
  next
    case ProtoNonCallable
    with f r show ?thesis
      by (auto simp: tool_outcome_def available_functions_def object_prototype_prop_def split: if_splits)
  qed
qed

text \<open>
  C10. When no tool call of the reply raises, the history \<open>run\<close> sends in its second
  chat call is the prompt followed, call by call, by the reply message and the tool's
  output for each call whose name is found, and by nothing for a name that is not
  found: the reply is repeated once per found call, and an unknown tool leaves no
  result in the history.
\<close>

lemma run_tool_round:
  assumes r1: "ol (ollama_request m [user_msg prompt] (Some ollama_tools)) = Inr reply"
    and calls: "om_tool_calls reply = Some calls"
    and ok: "list_all (\<lambda>t. \<not> raises (tool_outcome t)) calls"
    and r2: "ol (ollama_request m (user_msg prompt # concat (map (appended reply) calls)) None) = Inr final"
  shows "fst (run ol m) = Inr () \<and>
         o_messages (snd (run ol m)) = user_msg prompt # concat (map (appended reply) calls) \<and>
         last (o_console (snd (run ol m))) = OLog [''Final response:'', om_content final]"
proof -
  let ?st1 = "log (OLogReply reply) (log (OLog [''Prompt:'', prompt]) \<lparr>o_messages = [user_msg prompt], o_console = []\<rparr>)"
  obtain r st2 where loop: "tool_loop reply calls ?st1 = (r, st2)" by fastforce
  from tool_loop_ok [OF ok, of reply ?st1] loop
  have "r = Inr ()" and msgs: "o_messages st2 = user_msg prompt # concat (map (appended reply) calls)"
    by (simp_all add: log_def)
  then show ?thesis
    using r1 calls r2 loop by (simp add: run_def ollama_chat_def log_def Let_def)
qed

text \<open>
  C11. \<open>run\<close> raises only a transport error of a chat call, or a \<open>TypeError\<close> of
  one of the reply's tool calls: an inherited method of \<open>Object.prototype\<close> (or
  \<open>__proto__\<close>), an argument of \<open>addTwoNumbers\<close>/\<open>subtractTwoNumbers\<close> that has
  no primitive value (an object with its own \<open>toString\<close>), or \<open>constructor\<close> called
  with such an arguments object, whose \<open>output.toString()\<close> is not a function.
\<close>

lemma run_error_cause:
  assumes err: "fst (run ol m) = Inl e"
  shows "(\<exists>msg. e = TransportError msg) \<or>
         ((\<exists>msg. e = TypeError msg) \<and>
          (\<exists>reply calls t. ol (ollama_request m [user_msg prompt] (Some ollama_tools)) = Inr reply \<and>
            om_tool_calls reply = Some calls \<and> t \<in> set calls \<and>
            (oc_name t \<in> insert ''__proto__'' (set throwing_proto_methods) \<or>
             (oc_name t \<in> {''addTwoNumbers'', ''subtractTwoNumbers''} \<and>
                (to_primitive (get_prop (oc_args t) ''a'') = Inl e \<or> to_primitive (get_prop (oc_args t) ''b'') = Inl e)) \<or>
             (oc_name t = ''constructor'' \<and> has_own (oc_args t) ''toString''))))"
proof (cases "ol (ollama_request m [user_msg prompt] (Some ollama_tools))")
  case (Inl msg)
  with err show ?thesis by (auto simp: run_def ollama_chat_def log_def Let_def)
next
  case (Inr reply)
  note r1 = Inr
  show ?thesis
  proof (cases "om_tool_calls reply")
    case None
    with r1 err show ?thesis by (simp add: run_def ollama_chat_def log_def Let_def)
  next
    case (Some calls)
    let ?st1 = "log (OLogReply reply) (log (OLog [''Prompt:'', prompt]) \<lparr>o_messages = [user_msg prompt], o_console = []\<rparr>)"
    obtain r st2 where loop: "tool_loop reply calls ?st1 = (r, st2)" by fastforce
    show ?thesis
    proof (cases r)
      case (Inl e')
      with r1 Some err loop have "e' = e" by (simp add: run_def ollama_chat_def log_def Let_def)
      with Inl loop tool_loop_error [of reply calls ?st1 e] obtain t where
        "t \<in> set calls" "tool_outcome t = Raised e \<or> tool_outcome t = PrintFailed e"
        by auto
      with r1 Some raised_cause show ?thesis by blast
    next
      case (Inr u)
      with r1 Some err loop show ?thesis
        by (auto simp: run_def ollama_chat_def log_def Let_def split: sum.splits)
    qed
  qed
qed

text \<open>
  C9. Spec scenario 1: when the model answers the prompt with one call of
  \<open>subtractTwoNumbers\<close> on numbers \<open>a\<close> and \<open>b\<close>, \<open>run\<close> appends the reply and a
  tool message holding the string of the double \<open>a - b\<close> to the history, sends that
  history without tools, and prints the final reply's content.
\<close>

lemma run_subtract_scenario:
  assumes r1: "ol (ollama_request m [user_msg prompt] (Some ollama_tools)) = Inr reply"
    and calls: "om_tool_calls reply = Some [\<lparr>oc_name = ''subtractTwoNumbers'', oc_args = args\<rparr>]"
    and a: "get_prop args ''a'' = JNum x" and b: "get_prop args ''b'' = JNum y"
    and r2: "ol (ollama_request m [user_msg prompt, reply, tool_msg (num_to_string (num_sub x y))] None) = Inr final"
  shows "fst (run ol m) = Inr () \<and>
         o_messages (snd (run ol m)) = [user_msg prompt, reply, tool_msg (num_to_string (num_sub x y))] \<and>
         last (o_console (snd (run ol m))) = OLog [''Final response:'', om_content final]"
  using assms
  by (simp add: run_def tool_step_def ollama_chat_def log_def push_def Let_def available_functions_def
      subtract_two_numbers_def js_sub_def call_to_string_def)

text \<open>
  C12. Arguments that satisfy the declared schema of \<open>addTwoNumbers\<close> (both \<open>a\<close> and
  \<open>b\<close> present and numbers) make \<open>args.a + args.b\<close> their numeric sum.
\<close>

lemma add_two_numbers_valid:
  assumes "args_valid add_two_numbers_tool args"
  shows "\<exists>x y. get_prop args ''a'' = JNum x \<and> get_prop args ''b'' = JNum y \<and>
               add_two_numbers args = Inr (JNum (num_add x y))"
  using assms
  by (auto simp: args_valid_def add_two_numbers_tool_def number_params_def add_two_numbers_def
      split: jsval.splits jsnum.splits)

text \<open>
  C13. The handlers do not check their arguments: when \<open>a\<close> is a string,
  \<open>args.a + args.b\<close> concatenates it with the string of \<open>b\<close> instead of adding
  numbers, and raises the \<open>TypeError\<close> of \<open>b\<close>'s conversion when \<open>b\<close> is an object
  with no primitive value.
\<close>

lemma add_two_numbers_string_arg:
  assumes "get_prop args ''a'' = JStr s"
  shows "add_two_numbers args =
           (case to_string (get_prop args ''b'') of Inl e \<Rightarrow> Inl e | Inr t \<Rightarrow> Inr (JStr (s @ t)))"
  using assms by (simp add: add_two_numbers_def js_add_str_left bindE_def)

text \<open>
  C16. On integer arguments up to \<open>2^53\<close> in magnitude, \<open>addTwoNumbers\<close> returns the
  double of \<open>a + b\<close> and \<open>subtractTwoNumbers\<close> the double of \<open>a - b\<close>: the exact
  integer while it stays within \<open>2^53\<close>, rounded beyond (\<open>2^53 + 1\<close> gives \<open>2^53\<close>).
\<close>

lemma arithmetic_safe_int:
  assumes a: "get_prop args ''a'' = JNum (num_of_int x)" and b: "get_prop args ''b'' = JNum (num_of_int y)"
    and x: "\<bar>x\<bar> \<le> 2 ^ 53" and y: "\<bar>y\<bar> \<le> 2 ^ 53"
  shows "add_two_numbers args = Inr (JNum (num_of_int (x + y))) \<and>
         subtract_two_numbers args = Inr (JNum (num_of_int (x - y)))"
  using a b by (simp add: add_two_numbers_def subtract_two_numbers_def num_add_safe_int [OF x y]
      num_sub_safe_int [OF x y])

text \<open>
  C18. The arithmetic tools round as IEEE 754 requires: on finite number arguments,
  a finite result of \<open>addTwoNumbers\<close> is at least as close to the exact real sum
  \<open>a + b\<close>, and one of \<open>subtractTwoNumbers\<close> to the exact difference \<open>a - b\<close>, as
  any other double.
\<close>

lemma arithmetic_nearest:
  assumes a: "get_prop args ''a'' = JNum (Fin m1 e1)" and b: "get_prop args ''b'' = JNum (Fin m2 e2)"
    and d: "is_double m' e'"
  shows "(add_two_numbers args = Inr (JNum (Fin m e)) \<longrightarrow>
           \<bar>(real_of_int m1 * 2 powr e1 + real_of_int m2 * 2 powr e2) - real_of_int m * 2 powr e\<bar>
           \<le> \<bar>(real_of_int m1 * 2 powr e1 + real_of_int m2 * 2 powr e2) - real_of_int m' * 2 powr e'\<bar>) \<and>
         (subtract_two_numbers args = Inr (JNum (Fin m e)) \<longrightarrow>
           \<bar>(real_of_int m1 * 2 powr e1 - real_of_int m2 * 2 powr e2) - real_of_int m * 2 powr e\<bar>
           \<le> \<bar>(real_of_int m1 * 2 powr e1 - real_of_int m2 * 2 powr e2) - real_of_int m' * 2 powr e'\<bar>)"
  using a b num_add_nearest [OF _ d, of m1 e1 m2 e2 m e] num_sub_nearest [OF _ d, of m1 e1 m2 e2 m e]
  by (simp add: add_two_numbers_def subtract_two_numbers_def)

text \<open>
  C28. The arithmetic tools return JavaScript values of the right type: on arguments
  whose numbers are doubles (as \<open>JSON.parse\<close> produces), \<open>subtractTwoNumbers\<close>
  returns a double or raises a \<open>TypeError\<close>, and \<open>addTwoNumbers\<close> returns a double,
  a string, or raises a \<open>TypeError\<close>.
\<close>

lemma arithmetic_results_typed:
  assumes ok: "\<forall>k \<in> {''a'', ''b''}. \<forall>n. get_prop args k = JNum n \<longrightarrow> jsnum_ok n"
  shows "((\<exists>n. subtract_two_numbers args = Inr (JNum n) \<and> jsnum_ok n) \<or>
          (\<exists>m. subtract_two_numbers args = Inl (TypeError m))) \<and>
         ((\<exists>n. add_two_numbers args = Inr (JNum n) \<and> jsnum_ok n) \<or> (\<exists>s. add_two_numbers args = Inr (JStr s)) \<or>
          (\<exists>m. add_two_numbers args = Inl (TypeError m)))"
proof -
  have oka: "\<forall>n. get_prop args ''a'' = JNum n \<longrightarrow> jsnum_ok n"
    and okb: "\<forall>n. get_prop args ''b'' = JNum n \<longrightarrow> jsnum_ok n" using ok by auto
  have sub: "(\<exists>n. subtract_two_numbers args = Inr (JNum n) \<and> jsnum_ok n) \<or>
             (\<exists>m. subtract_two_numbers args = Inl (TypeError m))"
  proof (cases "subtract_two_numbers args")
    case (Inl e)
    then show ?thesis
      by (auto simp: subtract_two_numbers_def dest!: js_sub_Inl dest: to_primitive_Inl)
  next
    case (Inr v)
    then obtain x y where "to_number (get_prop args ''a'') = Inr x" "to_number (get_prop args ''b'') = Inr y"
      and v: "v = JNum (num_sub x y)"
      by (auto simp: subtract_two_numbers_def dest: js_sub_Inr)
    then have "jsnum_ok x" "jsnum_ok y" using to_number_ok oka okb by blast+
    with Inr v show ?thesis by (simp add: num_sub_double)
  qed
  have add: "(\<exists>n. add_two_numbers args = Inr (JNum n) \<and> jsnum_ok n) \<or> (\<exists>s. add_two_numbers args = Inr (JStr s)) \<or>
             (\<exists>m. add_two_numbers args = Inl (TypeError m))"
  proof (cases "add_two_numbers args")
    case (Inl e)
    then show ?thesis
      by (auto simp: add_two_numbers_def dest!: js_add_Inl dest: to_primitive_Inl)
  next
    case (Inr v)
    from Inr have "(\<exists>s. v = JStr s) \<or>
       (\<exists>pa pb x y. to_primitive (get_prop args ''a'') = Inr pa \<and> to_primitive (get_prop args ''b'') = Inr pb \<and>
          to_number pa = Inr x \<and> to_number pb = Inr y \<and> v = JNum (num_add x y))"
      unfolding add_two_numbers_def by (rule js_add_Inr)
    then show ?thesis
    proof
      assume "\<exists>s. v = JStr s"
      with Inr show ?thesis by auto
    next
      assume "\<exists>pa pb x y. to_primitive (get_prop args ''a'') = Inr pa \<and> to_primitive (get_prop args ''b'') = Inr pb \<and>
          to_number pa = Inr x \<and> to_number pb = Inr y \<and> v = JNum (num_add x y)"
      then obtain pa pb x y where pa: "to_primitive (get_prop args ''a'') = Inr pa"
        and pb: "to_primitive (get_prop args ''b'') = Inr pb" and xy: "to_number pa = Inr x" "to_number pb = Inr y"
        and v: "v = JNum (num_add x y)" by blast
      have "\<forall>n. pa = JNum n \<longrightarrow> jsnum_ok n" using oka pa by (auto dest: to_primitive_num)
      moreover have "\<forall>n. pb = JNum n \<longrightarrow> jsnum_ok n" using okb pb by (auto dest: to_primitive_num)
      ultimately have "jsnum_ok x" "jsnum_ok y" using to_number_ok xy by blast+
      with Inr v show ?thesis by (simp add: num_add_ok)
    qed
  qed
  from sub add show ?thesis by blast
qed

subsection \<open>Witnesses\<close>

theorem run_subtract_scenario_witness:
  "fst (run scenario_ollama ''qwen2.5:3b'') = Inr () \<and>
   o_messages (snd (run scenario_ollama ''qwen2.5:3b'')) =
     [user_msg prompt, \<lparr>om_role = ''assistant'', om_content = [], om_tool_calls = Some [subtract_call]\<rparr>,
      tool_msg (num_to_string (Fin 1 1))]"
proof -
  define reply where "reply = \<lparr>om_role = ''assistant'', om_content = [], om_tool_calls = Some [subtract_call]\<rparr>"
  define final where "final = \<lparr>om_role = ''assistant'', om_content = ''Three minus one is 2.'', om_tool_calls = None\<rparr>"
  have h1: "scenario_ollama (ollama_request ''qwen2.5:3b'' [user_msg prompt] (Some ollama_tools)) = Inr reply"
    by (simp add: scenario_ollama_def ollama_request_def reply_def)
  have h2: "om_tool_calls reply = Some [\<lparr>oc_name = ''subtractTwoNumbers'', oc_args = oc_args subtract_call\<rparr>]"
    by (simp add: reply_def subtract_call_def)
  have h3: "get_prop (oc_args subtract_call) ''a'' = JNum (Fin 3 0)"
    and h4: "get_prop (oc_args subtract_call) ''b'' = JNum (Fin 1 0)"
    by (simp_all add: subtract_call_def get_prop_def)
  have two: "num_sub (Fin 3 0) (Fin 1 0) = Fin 1 1" by (simp add: num_eval)
  have h5: "scenario_ollama (ollama_request ''qwen2.5:3b'' [user_msg prompt, reply, tool_msg (num_to_string (num_sub (Fin 3 0) (Fin 1 0)))] None) = Inr final"
    by (simp add: scenario_ollama_def ollama_request_def final_def)
  show ?thesis
    using run_subtract_scenario [of scenario_ollama "''qwen2.5:3b''" reply, OF h1 h2 h3 h4 h5]
    by (simp only: two reply_def)
qed

theorem add_two_numbers_valid_witness:
  "add_two_numbers [(''a'', JNum (Fin 3 0)), (''b'', JNum (Fin 1 0))] = Inr (JNum (Fin 1 2))"
proof -
  have "args_valid add_two_numbers_tool [(''a'', JNum (Fin 3 0)), (''b'', JNum (Fin 1 0))]"
    by (simp add: args_valid_def add_two_numbers_tool_def number_params_def get_prop_def)
  from add_two_numbers_valid [OF this] show ?thesis by (auto simp: get_prop_def num_eval)
qed

theorem add_two_numbers_string_arg_witness:
  "add_two_numbers [(''a'', JStr ''3''), (''b'', JStr ''1'')] = Inr (JStr ''31'') \<and>
   add_two_numbers [(''a'', JStr ''3''), (''b'', JObj [(''toString'', JNull)])] =
     Inl (TypeError ''Cannot convert object to primitive value'')"
  using add_two_numbers_string_arg [of "[(''a'', JStr ''3''), (''b'', JStr ''1'')]" "''3''"]
    add_two_numbers_string_arg [of "[(''a'', JStr ''3''), (''b'', JObj [(''toString'', JNull)])]" "''3''"]
  by (simp_all add: get_prop_def has_own_def)

theorem run_tool_round_witness:
  "fst (run batch_ollama ''qwen2.5:3b'') = Inr () \<and>
   o_messages (snd (run batch_ollama ''qwen2.5:3b'')) =
     user_msg prompt # concat (map (appended \<lparr>om_role = ''assistant'', om_content = [], om_tool_calls = Some batch_calls\<rparr>) batch_calls)"
proof -
  define reply where "reply = \<lparr>om_role = ''assistant'', om_content = [], om_tool_calls = Some batch_calls\<rparr>"
  have h1: "batch_ollama (ollama_request ''qwen2.5:3b'' [user_msg prompt] (Some ollama_tools)) = Inr reply"
    by (simp add: batch_ollama_def ollama_request_def reply_def)
  have h2: "om_tool_calls reply = Some batch_calls" by (simp add: reply_def)
  have h3: "list_all (\<lambda>t. \<not> raises (tool_outcome t)) batch_calls"
    by (simp add: batch_calls_def subtract_call_def tool_outcome_def available_functions_def
        object_prototype_prop_def throwing_proto_methods_def add_two_numbers_def subtract_two_numbers_def
        get_prop_def call_to_string_prim)
  have h4: "batch_ollama (ollama_request ''qwen2.5:3b'' (user_msg prompt # concat (map (appended reply) batch_calls)) None) =
      Inr \<lparr>om_role = ''assistant'', om_content = ''Done.'', om_tool_calls = None\<rparr>"
    by (simp add: batch_ollama_def ollama_request_def)
  show ?thesis
    using run_tool_round [of batch_ollama "''qwen2.5:3b''" reply, OF h1 h2 h3 h4] by (simp add: reply_def)
qed

theorem run_error_cause_witness:
  "fst (run object_arg_ollama ''qwen2.5:3b'') = Inl (TypeError ''Cannot convert object to primitive value'') \<and>
   ((\<exists>msg. TypeError ''Cannot convert object to primitive value'' = TransportError msg) \<or>
    ((\<exists>msg. TypeError ''Cannot convert object to primitive value'' = TypeError msg) \<and>
     (\<exists>reply calls t. object_arg_ollama (ollama_request ''qwen2.5:3b'' [user_msg prompt] (Some ollama_tools)) = Inr reply \<and>
       om_tool_calls reply = Some calls \<and> t \<in> set calls \<and>
       (oc_name t \<in> insert ''__proto__'' (set throwing_proto_methods) \<or>
        (oc_name t \<in> {''addTwoNumbers'', ''subtractTwoNumbers''} \<and>
           (to_primitive (get_prop (oc_args t) ''a'') = Inl (TypeError ''Cannot convert object to primitive value'') \<or>
            to_primitive (get_prop (oc_args t) ''b'') = Inl (TypeError ''Cannot convert object to primitive value''))) \<or>
        (oc_name t = ''constructor'' \<and> has_own (oc_args t) ''toString'')))))"
proof -
  have err: "fst (run object_arg_ollama ''qwen2.5:3b'') = Inl (TypeError ''Cannot convert object to primitive value'')"
    by (simp add: run_def object_arg_ollama_def tool_step_def ollama_chat_def log_def Let_def
        available_functions_def add_two_numbers_def js_add_def to_primitive_def get_prop_def has_own_def)
  show ?thesis using err run_error_cause [OF err] by blast
qed

theorem arithmetic_safe_int_witness:
  "add_two_numbers [(''a'', JNum (num_of_int (2 ^ 53))), (''b'', JNum (num_of_int 1))] = Inr (JNum (Fin 1 53)) \<and>
   subtract_two_numbers [(''a'', JNum (num_of_int (2 ^ 53))), (''b'', JNum (num_of_int 1))] =
     Inr (JNum (num_of_int (2 ^ 53 - 1)))"
proof -
  have a: "get_prop [(''a'', JNum (num_of_int (2 ^ 53))), (''b'', JNum (num_of_int 1))] ''a'' = JNum (num_of_int (2 ^ 53))"
    and b: "get_prop [(''a'', JNum (num_of_int (2 ^ 53))), (''b'', JNum (num_of_int 1))] ''b'' = JNum (num_of_int 1)"
    by (simp_all add: get_prop_def)
  have x: "\<bar>(2::int) ^ 53\<bar> \<le> 2 ^ 53" and y: "\<bar>(1::int)\<bar> \<le> 2 ^ 53" by simp_all
  have r: "num_of_int (2 ^ 53 + 1) = Fin 1 53" by (simp add: num_eval)
  show ?thesis using arithmetic_safe_int [OF a b x y] r by simp
qed

theorem arithmetic_nearest_witness:
  "add_two_numbers [(''a'', JNum (Fin 1 0)), (''b'', JNum (Fin 1 0))] = Inr (JNum (Fin 1 1)) \<and>
   \<bar>(1 * 2 powr 0 + 1 * 2 powr 0) - 1 * 2 powr 1\<bar> \<le> \<bar>(1 * 2 powr 0 + 1 * 2 powr 0) - 3 * (2::real) powr 0\<bar>"
proof -
  have a: "get_prop [(''a'', JNum (Fin 1 0)), (''b'', JNum (Fin 1 0))] ''a'' = JNum (Fin 1 0)"
    and b: "get_prop [(''a'', JNum (Fin 1 0)), (''b'', JNum (Fin 1 0))] ''b'' = JNum (Fin 1 0)"
    by (simp_all add: get_prop_def)
  have d: "is_double 3 0" by (simp add: is_double_def)
  have r: "add_two_numbers [(''a'', JNum (Fin 1 0)), (''b'', JNum (Fin 1 0))] = Inr (JNum (Fin 1 1))"
    by (simp add: add_two_numbers_def get_prop_def num_eval)
  show ?thesis using arithmetic_nearest [OF a b d, of 1 1] r by simp
qed

theorem arithmetic_results_typed_witness:
  "(\<exists>m. subtract_two_numbers [(''a'', JNum (Fin 3 0)), (''b'', JObj [(''toString'', JNull)])] = Inl (TypeError m)) \<and>
   ((\<exists>n. add_two_numbers [(''a'', JNum (Fin 3 0)), (''b'', JStr ''1'')] = Inr (JNum n) \<and> jsnum_ok n) \<or>
    (\<exists>s. add_two_numbers [(''a'', JNum (Fin 3 0)), (''b'', JStr ''1'')] = Inr (JStr s)) \<or>
    (\<exists>m. add_two_numbers [(''a'', JNum (Fin 3 0)), (''b'', JStr ''1'')] = Inl (TypeError m)))"
proof -
  have ok1: "\<forall>k \<in> {''a'', ''b''}. \<forall>n. get_prop [(''a'', JNum (Fin 3 0)), (''b'', JObj [(''toString'', JNull)])] k = JNum n \<longrightarrow> jsnum_ok n"
    and ok2: "\<forall>k \<in> {''a'', ''b''}. \<forall>n. get_prop [(''a'', JNum (Fin 3 0)), (''b'', JStr ''1'')] k = JNum n \<longrightarrow> jsnum_ok n"
    by (simp_all add: get_prop_def is_double_def)
  have s: "subtract_two_numbers [(''a'', JNum (Fin 3 0)), (''b'', JObj [(''toString'', JNull)])] =
      Inl (TypeError ''Cannot convert object to primitive value'')"
    by (simp add: subtract_two_numbers_def js_sub_def get_prop_def has_own_def)
  show ?thesis using arithmetic_results_typed [OF ok1] arithmetic_results_typed [OF ok2] s by blast
qed

end
