(* ===== verification/Resolution.thy ===== *)
theory Resolution
  imports Ollama_Fn_Call
begin

text \<open>
  The tool-call resolution loop of spec section 4.3, the one reusable abstraction the
  spec draws from the two scripts, modelled from the spec (it has no code of its own):
  one turn appends the user's message, sends the history, returns the reply's text if
  it has no tool calls, and otherwise resolves every call in order through the
  registry (a failed \<open>tool not found\<close> result for an unknown name, a failed
  result for a handler that raises), appends one tool message per call, sends once
  more and returns that reply's text.

  Against it, the Ollama script: its object literal with its own properties is a
  registry of the two arithmetic handlers (\<open>ollama_registry\<close>); where every call
  names one of them with arguments that have primitive values, the tool messages of
  \<open>run\<close>'s history are exactly the results of the spec's loop (a refinement up to the
  reply messages, which the script interleaves); where every name is unknown, \<open>run\<close>
  sends back the prompt alone while the spec's loop answers each call with a failed
  result.
\<close>

subsection \<open>The spec's resolution loop\<close>

datatype smsg = SUser string | STool string string bool

record sresponse =
  s_text :: string
  s_calls :: "(string \<times> js_object) list"

type_synonym adapter = "smsg list \<Rightarrow> sresponse result"

type_synonym handler = "js_object \<Rightarrow> string result"

fun resolve_calls :: "handler registry \<Rightarrow> (string \<times> js_object) list \<Rightarrow> smsg list" where
  "resolve_calls reg [] = []"
| "resolve_calls reg ((n, args) # cs) =
     (case resolve reg n of
        Inl _ \<Rightarrow> STool n ''tool not found'' False
      | Inr h \<Rightarrow> (case h args of
                   Inl e \<Rightarrow> STool n (error_message e) False
                 | Inr out \<Rightarrow> STool n out True)) # resolve_calls reg cs"

definition resolution_turn ::
  "adapter \<Rightarrow> handler registry \<Rightarrow> string \<Rightarrow> smsg list \<Rightarrow> string result \<times> smsg list" where
  "resolution_turn send reg q hist =
     (let h1 = hist @ [SUser q] in
      case send h1 of
        Inl e \<Rightarrow> (Inl e, h1)
      | Inr r \<Rightarrow>
          if s_calls r = [] then (Inr (s_text r), h1)
          else
            (let h2 = h1 @ resolve_calls reg (s_calls r) in
             case send h2 of
               Inl e \<Rightarrow> (Inl e, h2)
             | Inr r2 \<Rightarrow> (Inr (s_text r2), h2)))"

fun smsg_tool :: "smsg \<Rightarrow> string option" where
  "smsg_tool (STool _ c _) = Some c"
| "smsg_tool (SUser _) = None"

fun smsg_call :: "smsg \<Rightarrow> string option" where
  "smsg_call (STool n _ _) = Some n"
| "smsg_call (SUser _) = None"

subsection \<open>The Ollama script as a registry\<close>

definition ollama_handler :: "fn_value \<Rightarrow> handler" where
  "ollama_handler f args = (case call_fn f args of Inl e \<Rightarrow> Inl e | Inr out \<Rightarrow> call_to_string out)"

definition ollama_registry :: "handler registry" where
  "ollama_registry =
     \<lparr>reg_entries = [(add_two_numbers_tool, ollama_handler AddTwoNumbers),
                    (subtract_two_numbers_tool, ollama_handler SubtractTwoNumbers)]\<rparr>"

definition call_pair :: "ocall \<Rightarrow> string \<times> js_object" where
  "call_pair t = (oc_name t, oc_args t)"

text \<open>The tool results of an Ollama history, in order.\<close>

definition tool_contents :: "omessage list \<Rightarrow> string list" where
  "tool_contents ms = map om_content (filter (\<lambda>m. om_role m = ''tool'') ms)"

subsection \<open>Lemmas\<close>

text \<open>
  Spec 8, the append-only law: a turn of the resolution loop only appends to the history; the history it was given is a prefix of the one it leaves.
\<close>

lemma resolution_turn_prefix: "prefix hist (snd (resolution_turn send reg q hist))"
  by (auto simp: resolution_turn_def Let_def split: sum.splits)

text \<open>
  Spec scenario 4: when the first send fails, the turn returns that error unchanged and the history holds only the user message appended; no call is resolved.
\<close>

lemma resolution_turn_transport:
  "send (hist @ [SUser q]) = Inl e \<Longrightarrow> resolution_turn send reg q hist = (Inl e, hist @ [SUser q])"
  by (simp add: resolution_turn_def)

lemma resolve_calls_names: "map smsg_call (resolve_calls reg cs) = map (Some \<circ> fst) cs"
  by (induction reg cs rule: resolve_calls.induct) (auto split: sum.splits)

text \<open>
  Spec 3, the invariant of a turn: when the reply has tool calls, the history sent again is the user message followed by exactly one tool message per call, in the order of the calls; no call is left unresolved.
\<close>

lemma resolution_turn_all_resolved:
  assumes "send (hist @ [SUser q]) = Inr r" and "s_calls r \<noteq> []"
  shows "snd (resolution_turn send reg q hist) = hist @ SUser q # resolve_calls reg (s_calls r) \<and>
         map smsg_call (resolve_calls reg (s_calls r)) = map (Some \<circ> fst) (s_calls r)"
  using assms by (simp add: resolution_turn_def Let_def resolve_calls_names split: sum.splits)

lemma resolve_ollama_registry:
  "resolve ollama_registry n =
     (if n = ''addTwoNumbers'' then Inr (ollama_handler AddTwoNumbers)
      else if n = ''subtractTwoNumbers'' then Inr (ollama_handler SubtractTwoNumbers)
      else Inl (UnknownToolError n))"
  by (simp add: resolve_def ollama_registry_def add_two_numbers_tool_def subtract_two_numbers_tool_def)

lemma tool_contents_append [simp]: "tool_contents (xs @ ys) = tool_contents xs @ tool_contents ys"
  by (simp add: tool_contents_def)

lemma own_call_step:
  assumes n: "oc_name t \<in> {''addTwoNumbers'', ''subtractTwoNumbers''}"
    and args: "\<forall>k \<in> {''a'', ''b''}. \<exists>p. to_primitive (get_prop (oc_args t) k) = Inr p"
    and role: "om_role reply \<noteq> ''tool''"
  shows "\<not> raises (tool_outcome t) \<and>
         (\<exists>c. tool_contents (appended reply t) = [c] \<and>
           resolve_calls ollama_registry (call_pair t # cs) = STool (oc_name t) c True # resolve_calls ollama_registry cs)"
proof -
  obtain f out c where f: "available_functions (oc_name t) = Some f" and o: "call_fn f (oc_args t) = Inr out"
    and c: "call_to_string out = Inr c" and t: "tool_outcome t = Output c"
    using own_call_output [OF n args] by blast
  have h: "ollama_handler f (oc_args t) = Inr c" using o c by (simp add: ollama_handler_def)
  have "resolve ollama_registry (oc_name t) = Inr (ollama_handler f)"
    using n f by (auto simp: resolve_ollama_registry available_functions_def)
  with h t role show ?thesis
    by (simp add: appended_def call_pair_def tool_contents_def tool_msg_def)
qed

lemma appended_refines_resolution:
  assumes own: "\<forall>t \<in> set calls. oc_name t \<in> {''addTwoNumbers'', ''subtractTwoNumbers''}"
    and args: "\<forall>t \<in> set calls. \<forall>k \<in> {''a'', ''b''}. \<exists>p. to_primitive (get_prop (oc_args t) k) = Inr p"
    and role: "om_role reply \<noteq> ''tool''"
  shows "list_all (\<lambda>t. \<not> raises (tool_outcome t)) calls \<and>
         tool_contents (concat (map (appended reply) calls)) =
           map (the \<circ> smsg_tool) (resolve_calls ollama_registry (map call_pair calls)) \<and>
         list_all (\<lambda>m. case m of STool _ _ ok \<Rightarrow> ok | SUser _ \<Rightarrow> False)
           (resolve_calls ollama_registry (map call_pair calls))"
  using own args
proof (induction calls)
  case Nil
  then show ?case by (simp add: tool_contents_def)
next
  case (Cons t ts)
  then have "oc_name t \<in> {''addTwoNumbers'', ''subtractTwoNumbers''}"
    and "\<forall>k \<in> {''a'', ''b''}. \<exists>p. to_primitive (get_prop (oc_args t) k) = Inr p" by auto
  from own_call_step [OF this role] obtain c where "\<not> raises (tool_outcome t)"
    and "tool_contents (appended reply t) = [c]"
    and "resolve_calls ollama_registry (call_pair t # map call_pair ts) =
         STool (oc_name t) c True # resolve_calls ollama_registry (map call_pair ts)"
    by blast
  with Cons show ?case by simp
qed

lemma run_messages_after_loop:
  assumes r1: "ol (ollama_request m [user_msg prompt] (Some ollama_tools)) = Inr reply"
    and calls: "om_tool_calls reply = Some calls"
  shows "o_messages (snd (run ol m)) =
           o_messages (snd (tool_loop reply calls
             (log (OLogReply reply) (log (OLog [''Prompt:'', prompt]) \<lparr>o_messages = [user_msg prompt], o_console = []\<rparr>))))"
  using r1 calls by (auto simp: run_def ollama_chat_def log_def Let_def split: sum.splits prod.splits)

text \<open>
  C14. Refinement: when every call of the reply names one of the two arithmetic tools
  and its arguments have primitive values, \<open>run\<close> resolves every call, and the tool
  messages of its history are, in order, the results of the spec's resolution loop over
  the Ollama registry, all of them successful.
\<close>

lemma ollama_refines_resolution:
  assumes r1: "ol (ollama_request m [user_msg prompt] (Some ollama_tools)) = Inr reply"
    and calls: "om_tool_calls reply = Some calls"
    and own: "\<forall>t \<in> set calls. oc_name t \<in> {''addTwoNumbers'', ''subtractTwoNumbers''}"
    and args: "\<forall>t \<in> set calls. \<forall>k \<in> {''a'', ''b''}. \<exists>p. to_primitive (get_prop (oc_args t) k) = Inr p"
    and role: "om_role reply \<noteq> ''tool''"
  shows "tool_contents (o_messages (snd (run ol m))) =
           map (the \<circ> smsg_tool) (resolve_calls ollama_registry (map call_pair calls)) \<and>
         list_all (\<lambda>m. case m of STool _ _ ok \<Rightarrow> ok | SUser _ \<Rightarrow> False)
           (resolve_calls ollama_registry (map call_pair calls))"
proof -
  note ref = appended_refines_resolution [OF own args role]
  let ?st1 = "log (OLogReply reply) (log (OLog [''Prompt:'', prompt]) \<lparr>o_messages = [user_msg prompt], o_console = []\<rparr>)"
  have "o_messages (snd (tool_loop reply calls ?st1)) = user_msg prompt # concat (map (appended reply) calls)"
    using tool_loop_ok [of calls reply ?st1] ref by (simp add: log_def)
  then have "tool_contents (o_messages (snd (run ol m))) = tool_contents (concat (map (appended reply) calls))"
    using run_messages_after_loop [of ol m reply calls, OF r1 calls] by (simp add: tool_contents_def user_msg_def)
  with ref show ?thesis by simp
qed

text \<open>
  C15. Divergence from spec 4.3: when every call of the reply names a tool that
  \<open>availableFunctions\<close> does not hold, \<open>run\<close> sends the prompt alone back to the
  model, with no result for any call, where the spec's loop appends one failed
  \<open>tool not found\<close> result per call.
\<close>

lemma unknown_tool_divergence:
  assumes r1: "ol (ollama_request m [user_msg prompt] (Some ollama_tools)) = Inr reply"
    and calls: "om_tool_calls reply = Some calls"
    and unknown: "\<forall>t \<in> set calls. available_functions (oc_name t) = None"
  shows "o_messages (snd (run ol m)) = [user_msg prompt] \<and>
         resolve_calls ollama_registry (map call_pair calls) =
           map (\<lambda>t. STool (oc_name t) ''tool not found'' False) calls"
proof -
  let ?st1 = "log (OLogReply reply) (log (OLog [''Prompt:'', prompt]) \<lparr>o_messages = [user_msg prompt], o_console = []\<rparr>)"
  have u: "list_all (\<lambda>t. available_functions (oc_name t) = None) calls" using unknown by (simp add: list_all_iff)
  have "o_messages (snd (run ol m)) = [user_msg prompt]"
    using run_messages_after_loop [of ol m reply calls, OF r1 calls] tool_loop_unknown [OF u, of reply ?st1] by (simp add: log_def)
  moreover have "resolve_calls ollama_registry (map call_pair calls) =
      map (\<lambda>t. STool (oc_name t) ''tool not found'' False) calls"
    using unknown
  proof (induction calls)
    case (Cons t ts)
    then have "oc_name t \<noteq> ''addTwoNumbers'' \<and> oc_name t \<noteq> ''subtractTwoNumbers''"
      by (auto simp: available_functions_def)
    with Cons show ?case by (simp add: call_pair_def resolve_ollama_registry)
  qed simp
  ultimately show ?thesis by blast
qed

subsection \<open>Witnesses\<close>

theorem ollama_refines_resolution_witness:
  "tool_contents (o_messages (snd (run scenario_ollama ''qwen2.5:3b''))) =
     map (the \<circ> smsg_tool) (resolve_calls ollama_registry (map call_pair [subtract_call]))"
proof -
  have r1: "scenario_ollama (ollama_request ''qwen2.5:3b'' [user_msg prompt] (Some ollama_tools)) =
      Inr \<lparr>om_role = ''assistant'', om_content = [], om_tool_calls = Some [subtract_call]\<rparr>"
    by (simp add: scenario_ollama_def ollama_request_def)
  have c: "om_tool_calls \<lparr>om_role = ''assistant'', om_content = [], om_tool_calls = Some [subtract_call]\<rparr> = Some [subtract_call]"
    by simp
  have own: "\<forall>t \<in> set [subtract_call]. oc_name t \<in> {''addTwoNumbers'', ''subtractTwoNumbers''}"
    by (simp add: subtract_call_def)
  have args: "\<forall>t \<in> set [subtract_call]. \<forall>k \<in> {''a'', ''b''}. \<exists>p. to_primitive (get_prop (oc_args t) k) = Inr p"
    by (simp add: subtract_call_def get_prop_def to_primitive_def)
  have role: "om_role \<lparr>om_role = ''assistant'', om_content = [], om_tool_calls = Some [subtract_call]\<rparr> \<noteq> ''tool''" by simp
  show ?thesis using ollama_refines_resolution [of scenario_ollama "''qwen2.5:3b''", OF r1 c own args role] by simp
qed

theorem unknown_tool_divergence_witness:
  "o_messages (snd (run (\<lambda>rq. Inr \<lparr>om_role = ''assistant'', om_content = [],
      om_tool_calls = Some [\<lparr>oc_name = ''multiplyTwoNumbers'', oc_args = []\<rparr>]\<rparr>) ''qwen2.5:3b'')) = [user_msg prompt] \<and>
   resolve_calls ollama_registry (map call_pair [\<lparr>oc_name = ''multiplyTwoNumbers'', oc_args = []\<rparr>]) =
     [STool ''multiplyTwoNumbers'' ''tool not found'' False]"
proof -
  define reply where "reply = \<lparr>om_role = ''assistant'', om_content = [],
      om_tool_calls = Some [\<lparr>oc_name = ''multiplyTwoNumbers'', oc_args = ([] :: js_object)\<rparr>]\<rparr>"
  have r1: "(\<lambda>rq. Inr reply :: string + omessage) (ollama_request ''qwen2.5:3b'' [user_msg prompt] (Some ollama_tools)) = Inr reply"
    by simp
  have c: "om_tool_calls reply = Some [\<lparr>oc_name = ''multiplyTwoNumbers'', oc_args = []\<rparr>]" by (simp add: reply_def)
  have u: "\<forall>t \<in> set [\<lparr>oc_name = ''multiplyTwoNumbers'', oc_args = ([] :: js_object)\<rparr>]. available_functions (oc_name t) = None"
    by (simp add: available_functions_def object_prototype_prop_def throwing_proto_methods_def)
  show ?thesis using unknown_tool_divergence [of "\<lambda>rq. Inr reply" "''qwen2.5:3b''", OF r1 c u] by (simp add: reply_def)
qed

theorem resolution_turn_all_resolved_witness:
  "snd (resolution_turn (\<lambda>h. Inr \<lparr>s_text = [], s_calls = [(''getWeather'', [])]\<rparr>) ollama_registry ''Weather?'' []) =
     [SUser ''Weather?'', STool ''getWeather'' ''tool not found'' False]"
proof -
  have h1: "(\<lambda>h. Inr \<lparr>s_text = [], s_calls = [(''getWeather'', ([] :: js_object))]\<rparr>) ([] @ [SUser ''Weather?'']) =
      (Inr \<lparr>s_text = [], s_calls = [(''getWeather'', [])]\<rparr> :: sresponse result)" by simp
  have h2: "s_calls \<lparr>s_text = [], s_calls = [(''getWeather'', ([] :: js_object))]\<rparr> \<noteq> []" by simp
  show ?thesis
    using resolution_turn_all_resolved [of "\<lambda>h. Inr \<lparr>s_text = [], s_calls = [(''getWeather'', [])]\<rparr>" "[]" "''Weather?''",
        OF h1 h2, of ollama_registry]
    by (simp add: resolve_ollama_registry)
qed

theorem resolution_turn_transport_witness:
  "resolution_turn (\<lambda>h. Inl (TransportError ''down'')) ollama_registry ''q'' [] = (Inl (TransportError ''down''), [SUser ''q''])"
  using resolution_turn_transport [of "\<lambda>h. Inl (TransportError ''down'')" "[]" "''q''" "TransportError ''down''" ollama_registry]
  by simp

theorem register_then_resolve_witness:
  "resolve (reg_empty :: handler registry) ''addTwoNumbers'' = Inl (UnknownToolError ''addTwoNumbers'') \<and>
   resolve \<lparr>reg_entries = [(add_two_numbers_tool, ollama_handler AddTwoNumbers)]\<rparr> ''addTwoNumbers'' =
     Inr (ollama_handler AddTwoNumbers)"
proof -
  have fresh: "fd_name add_two_numbers_tool \<notin> set (reg_names (reg_empty :: handler registry))"
    by (simp add: reg_names_def reg_empty_def)
  show ?thesis
    using register_then_resolve [OF fresh, of "ollama_handler AddTwoNumbers"]
    by (auto simp: register_def reg_names_def reg_empty_def add_two_numbers_tool_def)
qed

theorem register_wf_witness: "reg_wf ollama_registry"
proof -
  have w0: "reg_wf \<lparr>reg_entries = [(add_two_numbers_tool, ollama_handler AddTwoNumbers)]\<rparr>"
    by (simp add: reg_wf_def reg_names_def)
  have r: "register subtract_two_numbers_tool (ollama_handler SubtractTwoNumbers)
     \<lparr>reg_entries = [(add_two_numbers_tool, ollama_handler AddTwoNumbers)]\<rparr> = Inr ollama_registry"
    by (simp add: register_def reg_names_def ollama_registry_def add_two_numbers_tool_def subtract_two_numbers_tool_def)
  show ?thesis by (rule register_wf [OF w0 r])
qed

end
