(* ===== verification/Ollama_History.thy ===== *)
theory Ollama_History
  imports Ollama_Fn_Call
begin

text \<open>
  The message history and the console of \<open>run\<close> in \<open>src/ollama/ollama_fn_call.ts\<close>
  for every provider, errors included: the history holds the prompt, the model's first
  reply (pushed once per found call) and tool messages only, at most two messages per
  tool call; and the console shows an error line exactly when \<open>run\<close> rejects, printed
  by the \<open>.catch\<close> of the last line.
\<close>

fun is_error_line :: "ocons \<Rightarrow> bool" where
  "is_error_line (OError _ _) = True"
| "is_error_line _ = False"

subsection \<open>The history after a tool loop\<close>

lemma appended_cases: "m \<in> set (appended reply t) \<Longrightarrow> m = reply \<or> (\<exists>c. m = tool_msg c)"
  by (auto simp: appended_def split: tool_outcome.splits)

lemma length_appended: "length (appended reply t) \<le> 2"
  by (simp add: appended_def split: tool_outcome.splits)

lemma tool_loop_messages:
  "\<exists>ts'. o_messages (snd (tool_loop reply ts st)) = o_messages st @ concat (map (appended reply) ts') \<and>
         length ts' \<le> length ts"
proof (induction ts arbitrary: st)
  case Nil
  then show ?case by (intro exI [of _ "[]"]) simp
next
  case (Cons t ts)
  obtain r st' where step: "tool_step reply t st = (r, st')" by fastforce
  have m: "o_messages st' = o_messages st @ appended reply t"
    using tool_step_result(2) [of reply t st] step by simp
  show ?case
  proof (cases r)
    case (Inl e)
    with step m show ?thesis by (intro exI [of _ "[t]"]) simp
  next
    case (Inr u)
    from Cons.IH [of st'] obtain ts' where
      "o_messages (snd (tool_loop reply ts st')) = o_messages st' @ concat (map (appended reply) ts')"
      and "length ts' \<le> length ts" by blast
    with Inr step m show ?thesis by (intro exI [of _ "t # ts'"]) simp
  qed
qed

lemma length_concat_appended: "length (concat (map (appended reply) ts)) \<le> 2 * length ts"
proof (induction ts)
  case (Cons t ts)
  then show ?case using length_appended [of reply t] by simp
qed simp

lemma tool_loop_console:
  "tool_loop reply ts st = (r, st') \<Longrightarrow> list_all (\<lambda>c. \<not> is_error_line c) (o_console st) \<Longrightarrow>
     list_all (\<lambda>c. \<not> is_error_line c) (o_console st')"
  by (induction ts arbitrary: st)
    (auto simp: tool_step_def log_def push_def Let_def split: option.splits sum.splits prod.splits)

lemma run_messages:
  "o_messages (snd (run ol model)) = [user_msg prompt] \<or>
   (\<exists>reply calls ts'. ol (ollama_request model [user_msg prompt] (Some ollama_tools)) = Inr reply \<and>
      om_tool_calls reply = Some calls \<and> length ts' \<le> length calls \<and>
      o_messages (snd (run ol model)) = user_msg prompt # concat (map (appended reply) ts'))"
proof (cases "ol (ollama_request model [user_msg prompt] (Some ollama_tools))")
  case (Inl msg)
  then show ?thesis by (simp add: run_def ollama_chat_def log_def Let_def)
next
  case (Inr reply)
  show ?thesis
  proof (cases "om_tool_calls reply")
    case None
    with Inr show ?thesis by (simp add: run_def ollama_chat_def log_def Let_def)
  next
    case (Some calls)
    let ?st1 = "log (OLogReply reply) (log (OLog [''Prompt:'', prompt]) \<lparr>o_messages = [user_msg prompt], o_console = []\<rparr>)"
    obtain r st2 where loop: "tool_loop reply calls ?st1 = (r, st2)" by fastforce
    obtain ts' where ts': "o_messages st2 = user_msg prompt # concat (map (appended reply) ts')"
      and len: "length ts' \<le> length calls"
      using tool_loop_messages [of reply calls ?st1] loop by (auto simp: log_def)
    have "o_messages (snd (run ol model)) = o_messages st2"
      using Inr Some loop by (cases r) (auto simp: run_def ollama_chat_def log_def Let_def split: sum.splits)
    with Inr Some ts' len show ?thesis
      by (intro disjI2 exI [of _ reply] exI [of _ calls] exI [of _ ts']) simp
  qed
qed

lemma run_console_no_error: "\<not> list_ex is_error_line (o_console (snd (run ol model)))"
proof -
  have "list_all (\<lambda>c. \<not> is_error_line c) (o_console (snd (run ol model)))"
    by (auto simp: run_def ollama_chat_def log_def Let_def split: sum.splits option.splits prod.splits
        dest!: tool_loop_console)
  then show ?thesis by (simp add: list_all_iff list_ex_iff)
qed

subsection \<open>Properties\<close>

text \<open>
  C23. Spec 3 (a message is a user, assistant or tool message): every message of
  \<open>run\<close>'s history, for every provider and on every path, is the prompt, a tool message
  with no tool calls, or the model's first reply itself.
\<close>

lemma run_history_typed:
  "list_all (\<lambda>m. m = user_msg prompt \<or> (\<exists>c. m = tool_msg c) \<or>
                  ol (ollama_request model [user_msg prompt] (Some ollama_tools)) = Inr m)
     (o_messages (snd (run ol model)))"
  using run_messages [of ol model] by (auto simp: list_all_iff dest: appended_cases)

text \<open>
  C24. The history \<open>run\<close> sends back holds at most \<open>1 + 2 * n\<close> messages for a
  reply with \<open>n\<close> tool calls: the prompt, and for each call at most the reply and
  one tool message.
\<close>

lemma run_history_bound:
  assumes "ol (ollama_request model [user_msg prompt] (Some ollama_tools)) = Inr reply"
    and "om_tool_calls reply = Some calls"
  shows "length (o_messages (snd (run ol model))) \<le> 1 + 2 * length calls"
proof -
  from run_messages [of ol model] assms obtain ts' where len: "length ts' \<le> length calls"
    and ms: "o_messages (snd (run ol model)) = [user_msg prompt] \<or>
             o_messages (snd (run ol model)) = user_msg prompt # concat (map (appended reply) ts')"
    by auto
  have "length (concat (map (appended reply) ts')) \<le> 2 * length calls"
    using length_concat_appended [of reply ts'] len by simp
  with ms show ?thesis by auto
qed

text \<open>
  C25. The script's last line prints an error exactly when \<open>run\<close> rejects: its console
  shows an \<open>An error occurred:\<close> line if and only if \<open>run\<close> fails, and \<open>run\<close>
  itself never prints one.
\<close>

lemma ollama_main_reports_error:
  "list_ex is_error_line (o_console (ollama_main ol)) \<longleftrightarrow> (\<exists>e. fst (run ol ''qwen2.5:3b'') = Inl e)"
  using run_console_no_error [of ol "''qwen2.5:3b''"]
  by (auto simp: ollama_main_def log_def split: prod.splits sum.splits)

subsection \<open>Witnesses\<close>

theorem run_history_bound_witness:
  "length (o_messages (snd (run batch_ollama ''qwen2.5:3b''))) \<le> 7"
proof -
  define reply where "reply = \<lparr>om_role = ''assistant'', om_content = [], om_tool_calls = Some batch_calls\<rparr>"
  have r: "batch_ollama (ollama_request ''qwen2.5:3b'' [user_msg prompt] (Some ollama_tools)) = Inr reply"
    by (simp add: batch_ollama_def ollama_request_def reply_def)
  have c: "om_tool_calls reply = Some batch_calls" by (simp add: reply_def)
  show ?thesis using run_history_bound [of batch_ollama "''qwen2.5:3b''", OF r c] by (simp add: batch_calls_def)
qed

end
