(* ===== verification/Ollama_Chained.thy ===== *)
theory Ollama_Chained
  imports Ollama_Fn_Call
begin

text \<open>
  Spec 4.3 (note) and 9 recommend generalising the script's single tool round to a loop
  over rounds, "with a max-rounds guard", until the model's reply has no tool calls. This
  theory builds that loop from the script's own parts (\<open>ollama_chat\<close>,
  \<open>tool_loop\<close>, \<open>log\<close>, and the script's test \<open>if (response.message.tool_calls)\<close>)
  without a guard, as a \<open>partial_function (option)\<close> \<open>chain\<close> whose \<open>None\<close> is
  "does not return".

  It proves that the unguarded loop returns for a model that makes progress (it stops
  calling tools once the history is long enough, and each reply with calls names a
  registered tool), that it does not return for a model that keeps calling an unknown
  tool (the script appends nothing for such a call, so the history never grows and the
  model is asked the same question again).
\<close>

partial_function (option) chain :: "ollama \<Rightarrow> string \<Rightarrow> orun \<Rightarrow> (unit result \<times> orun) option" where
  "chain ol model st =
     (case ollama_chat ol (ollama_request model (o_messages st) (Some ollama_tools)) of
        Inl e \<Rightarrow> Some (Inl e, st)
      | Inr reply \<Rightarrow>
          (let st1 = log (OLogReply reply) st in
           case om_tool_calls reply of
             None \<Rightarrow> Some (Inr (), log (OLog [''Final response:'', om_content reply]) st1)
           | Some calls \<Rightarrow>
               (case tool_loop reply calls st1 of
                  (Inl e, st2) \<Rightarrow> Some (Inl e, st2)
                | (Inr _, st2) \<Rightarrow> chain ol model st2)))"

text \<open>A model that makes progress: it calls tools only on histories shorter than
  \<open>bound\<close>, and each reply with calls names a registered tool.\<close>

definition progressing :: "ollama \<Rightarrow> string \<Rightarrow> nat \<Rightarrow> bool" where
  "progressing ol model bound \<longleftrightarrow>
     (\<forall>h reply calls. ol (ollama_request model h (Some ollama_tools)) = Inr reply \<longrightarrow>
        om_tool_calls reply = Some calls \<longrightarrow>
        length h < bound \<and> list_ex (\<lambda>t. available_functions (oc_name t) \<noteq> None) calls)"

text \<open>Fixtures: a model that asks for \<open>subtractTwoNumbers\<close> once and then answers,
  and a model that asks for the unregistered \<open>getWeather\<close> on every history.\<close>

definition chain_ollama :: ollama where
  "chain_ollama rq =
     (if length (oq_messages rq) < 2
      then Inr \<lparr>om_role = ''assistant'', om_content = [], om_tool_calls = Some [subtract_call]\<rparr>
      else Inr \<lparr>om_role = ''assistant'', om_content = ''Three minus one is 2.'', om_tool_calls = None\<rparr>)"

definition weather_ollama :: ollama where
  "weather_ollama rq =
     Inr \<lparr>om_role = ''assistant'', om_content = [],
          om_tool_calls = Some [\<lparr>oc_name = ''getWeather'', oc_args = []\<rparr>]\<rparr>"

subsection \<open>Rounds of the loop\<close>

lemma tool_loop_Inr:
  "fst (tool_loop reply ts st) = Inr () \<Longrightarrow> list_all (\<lambda>t. \<not> raises (tool_outcome t)) ts"
proof (induction ts arbitrary: st)
  case Nil
  then show ?case by simp
next
  case (Cons t ts)
  obtain r st' where step: "tool_step reply t st = (r, st')" by fastforce
  with Cons.prems have r: "r = Inr ()" and rest: "fst (tool_loop reply ts st') = Inr ()"
    by (auto split: sum.splits)
  from r step tool_step_result(1) [of reply t st] have "\<not> raises (tool_outcome t)"
    by (auto split: tool_outcome.splits)
  with Cons.IH [OF rest] show ?case by simp
qed

lemma found_call_grows:
  assumes "list_ex (\<lambda>t. available_functions (oc_name t) \<noteq> None) ts"
    and "tool_loop reply ts st = (Inr u, st')"
  shows "length (o_messages st) < length (o_messages st')"
proof -
  from assms(2) have ok: "list_all (\<lambda>t. \<not> raises (tool_outcome t)) ts"
    using tool_loop_Inr [of reply ts st] by simp
  with assms(2) have ms: "o_messages st' = o_messages st @ concat (map (appended reply) ts)"
    using tool_loop_ok [OF ok, of reply st] by simp
  from assms(1) obtain t where t: "t \<in> set ts" "available_functions (oc_name t) \<noteq> None"
    by (auto simp: list_ex_iff)
  from ok t(1) have nr: "\<not> raises (tool_outcome t)" by (simp add: list_all_iff)
  have "tool_outcome t \<noteq> NotFound" using t(2) by (auto simp: tool_outcome_def split: option.splits sum.splits)
  with nr have "appended reply t \<noteq> []" by (cases "tool_outcome t") (auto simp: appended_def)
  with t(1) have "concat (map (appended reply) ts) \<noteq> []" by auto
  with ms show ?thesis by simp
qed

subsection \<open>Properties\<close>

text \<open>
  C26. Termination of the chained loop: for a model that makes progress, the unguarded
  loop built from the script's round returns, from every state.
\<close>

lemma chain_terminates:
  assumes "progressing ol model bound"
  shows "\<exists>r. chain ol model st = Some r"
proof (induction "bound - length (o_messages st)" arbitrary: st rule: less_induct)
  case less
  show ?case
  proof (cases "ol (ollama_request model (o_messages st) (Some ollama_tools))")
    case (Inl msg)
    then show ?thesis by (simp add: chain.simps ollama_chat_def)
  next
    case (Inr reply)
    note rep = Inr
    show ?thesis
    proof (cases "om_tool_calls reply")
      case None
      with rep show ?thesis by (simp add: chain.simps ollama_chat_def Let_def)
    next
      case (Some calls)
      from assms rep Some have lt: "length (o_messages st) < bound"
        and found: "list_ex (\<lambda>t. available_functions (oc_name t) \<noteq> None) calls"
        unfolding progressing_def by blast+
      obtain r st2 where loop: "tool_loop reply calls (log (OLogReply reply) st) = (r, st2)" by fastforce
      show ?thesis
      proof (cases r)
        case (Inl e)
        with rep Some loop show ?thesis by (simp add: chain.simps ollama_chat_def Let_def)
      next
        case (Inr u)
        have "length (o_messages st) < length (o_messages st2)"
          using found_call_grows [OF found] loop Inr by (fastforce simp: log_def)
        with lt have "bound - length (o_messages st2) < bound - length (o_messages st)" by simp
        then obtain r' where "chain ol model st2 = Some r'" using less by blast
        with rep Some loop Inr show ?thesis by (simp add: chain.simps ollama_chat_def Let_def)
      qed
    qed
  qed
qed

text \<open>
  C27. Non-termination without the guard: when the model, asked with the history of the
  starting state, replies with calls only of tools that \<open>availableFunctions\<close> does not
  hold (spec scenario 3), the unguarded loop never returns: the script appends nothing
  for an unknown tool, so the next round sends the same history and gets the same reply.
  The max-rounds guard of spec 9 is needed.
\<close>

lemma chain_diverges_unknown_tools:
  assumes model: "ol (ollama_request model (o_messages st) (Some ollama_tools)) = Inr reply"
    and calls: "om_tool_calls reply = Some calls"
    and unknown: "list_all (\<lambda>t. available_functions (oc_name t) = None) calls"
  shows "chain ol model st = None"
proof -
  have "ol' = ol \<longrightarrow> model' = model \<longrightarrow> o_messages st' = o_messages st \<longrightarrow> False"
    if ret: "chain ol' model' st' = Some r" for ol' model' st' r
    apply (rule chain.raw_induct [where P = "\<lambda>ol' model' st' r. ol' = ol \<longrightarrow> model' = model \<longrightarrow>
        o_messages st' = o_messages st \<longrightarrow> False", OF _ ret])
    subgoal premises prems for f ol' model' st' r
    proof (intro impI)
      assume eq: "ol' = ol" "model' = model" "o_messages st' = o_messages st"
      note u = tool_loop_unknown [OF unknown, of reply "log (OLogReply reply) st'"]
      obtain st2 where "tool_loop reply calls (log (OLogReply reply) st') = (Inr (), st2)"
        and "o_messages st2 = o_messages st"
        using u eq(3) by (cases "tool_loop reply calls (log (OLogReply reply) st')") (simp add: log_def)
      with prems(2) eq model calls have "f ol model st2 = Some r" and "o_messages st2 = o_messages st"
        by (auto simp: ollama_chat_def Let_def)
      with prems(1) show False by blast
    qed
    done
  then have "chain ol model st \<noteq> Some r" for r by blast
  then show ?thesis by (cases "chain ol model st") auto
qed

subsection \<open>Witnesses\<close>

theorem chain_terminates_witness:
  "\<exists>r. chain chain_ollama ''qwen2.5:3b'' \<lparr>o_messages = [user_msg prompt], o_console = []\<rparr> = Some r"
proof -
  have "progressing chain_ollama ''qwen2.5:3b'' 2"
    by (simp add: progressing_def chain_ollama_def ollama_request_def subtract_call_def available_functions_def)
  then show ?thesis by (rule chain_terminates)
qed

theorem chain_diverges_witness:
  "chain weather_ollama ''qwen2.5:3b'' \<lparr>o_messages = [user_msg prompt], o_console = []\<rparr> = None"
proof -
  define reply where "reply = \<lparr>om_role = ''assistant'', om_content = [],
          om_tool_calls = Some [\<lparr>oc_name = ''getWeather'', oc_args = ([] :: js_object)\<rparr>]\<rparr>"
  have m: "weather_ollama (ollama_request ''qwen2.5:3b''
      (o_messages \<lparr>o_messages = [user_msg prompt], o_console = []\<rparr>) (Some ollama_tools)) = Inr reply"
    by (simp add: weather_ollama_def reply_def)
  have c: "om_tool_calls reply = Some [\<lparr>oc_name = ''getWeather'', oc_args = []\<rparr>]" by (simp add: reply_def)
  have u: "list_all (\<lambda>t. available_functions (oc_name t) = None) [\<lparr>oc_name = ''getWeather'', oc_args = ([] :: js_object)\<rparr>]"
    by (simp add: available_functions_def object_prototype_prop_def throwing_proto_methods_def)
  show ?thesis by (rule chain_diverges_unknown_tools [of weather_ollama "''qwen2.5:3b''" "\<lparr>o_messages = [user_msg prompt], o_console = []\<rparr>", OF m c u])
qed

end
