(* ===== verification/Spec2Isabelle.thy ===== *)
theory Spec2Isabelle
  imports Gemini_Trace Resolution Ollama_History Ollama_Chained
begin

text \<open>
  \<^bold>\<open>Verification development of llm-function-calling-ts.\<close>

  \<^bold>\<open>The program.\<close> Two independent scripts call a hosted language model with
  function calling. \<open>src/index.ts\<close> (the stock-price bot) declares one tool,
  \<open>getStockPrice\<close>, sends the user's query to Gemini through a chat session, runs the
  mock handler for the first \<open>getStockPrice\<close> call in the reply, sends its result back
  and returns the model's final text; every step is traced with Langfuse spans and
  events, and \<open>main\<close> runs a list of queries, each in its own \<open>try\<close>.
  \<open>src/ollama/ollama_fn_call.ts\<close> does the same against a local Ollama server with two
  arithmetic tools looked up in an object literal, appending the tool outputs to the
  message history before a second, tool-less chat call.

  \<^bold>\<open>Theories.\<close>
  \<^item> \<open>Prelude\<close>: the program's error taxonomy (\<open>TransportError\<close>,
    \<open>ResponseError\<close>, \<open>TypeError\<close>) and the exception monad on \<open>error + 'a\<close>.
  \<^item> \<open>JS_Values\<close>: the JavaScript values a model's JSON arguments become and the
    operators the handlers apply to them (\<open>+\<close>, \<open>-\<close>, \<open>toUpperCase\<close>,
    \<open>toString\<close>, property reads), after ECMAScript's ToPrimitive/ToString/ToNumber.
    The conversions are fallible: a parsed JSON object with an own \<open>toString\<close> key
    has no callable \<open>toString\<close> or \<open>valueOf\<close>, so ToPrimitive raises a
    \<open>TypeError\<close>, and \<open>output.toString()\<close> on it raises another; arrays print
    through \<open>join\<close> and pass their elements' errors on.
  \<^item> \<open>JS_Number\<close>: JavaScript numbers as IEEE 754 binary64 values (\<open>jsnum\<close>:
    \<open>Fin m e\<close> for \<open>m * 2^e\<close> in lowest terms, \<open>NegZero\<close>, the infinities, \<open>NaN\<close>),
    the operators \<open>+\<close>/\<open>-\<close> on numbers (\<open>num_add\<close>, \<open>num_sub\<close>, rounding to nearest
    even by integer arithmetic in \<open>round_dyadic\<close>), StringToNumber
    (\<open>str_to_num\<close>: decimal, exponent, \<open>Infinity\<close>, \<open>0x\<close>/\<open>0o\<close>/\<open>0b\<close>) and
    Number::toString (\<open>num_to_string\<close>: shortest round-tripping digits in the four
    ECMAScript formats). The rounding is read on the reals (\<open>rnd_real\<close>,
    \<open>round_real\<close>) for the proofs; executable definitions compute on integers.
  \<^item> \<open>Langfuse\<close>: the trace emitter (spec 4.4) as an append-only log with a counter
    for identifiers; the span discipline (\<open>lf_disciplined\<close>), open spans
    (\<open>span_open\<close>) and the invariant \<open>lf_ok\<close> with one preservation lemma per
    client operation. The SDK is not repository code; the model follows spec 4.4.
  \<^item> \<open>Tools\<close>: tool declarations as both sources write them, and the tool registry of
    spec 4.1 (modelled from the spec: the repository has none) with its abstraction to
    a partial map, and the argument check of spec 4.3.
  \<^item> \<open>Gemini_Bot\<close>: \<open>src/index.ts\<close>. \<open>get_stock_price\<close> is \<open>getStockPrice\<close>
    (lines 34-58), \<open>handle_stock_call\<close> the loop body for a matching call
    (117-150), \<open>function_call_loop\<close> the \<open>for\<close> loop (116-152),
    \<open>process_query_body\<close> the \<open>try\<close> block and \<open>process_query\<close> the whole
    \<open>processQuery\<close> with its \<open>catch\<close> (71-166), \<open>main_loop\<close>/\<open>main\<close> the entry
    point (169-188). The Gemini SDK is a parameter \<open>gm\<close> (request \<open>\<Rightarrow>\<close>
    response or \<open>TransportError\<close>); the chat session is \<open>chat_send\<close>.
  \<^item> \<open>Ollama_Fn_Call\<close>: \<open>src/ollama/ollama_fn_call.ts\<close>. \<open>add_two_numbers\<close>
    and \<open>subtract_two_numbers\<close> are the handlers (lines 4-11), the \<open>_tool\<close>
    definitions the declarations (14-45), \<open>available_functions\<close> the lookup in the
    object literal with the names it inherits from \<open>Object.prototype\<close> (53-72),
    \<open>call_fn\<close> the call (76), \<open>tool_step\<close>/\<open>tool_loop\<close> the \<open>for\<close> loop
    (68-88), \<open>run\<close> the whole function (47-99) and \<open>ollama_main\<close> the last line.
    The SDK is a parameter \<open>ol\<close>; the state is the message array and the console.
  \<^item> \<open>Resolution\<close>: the tool-resolution loop of spec 4.3 (\<open>resolve_calls\<close>,
    \<open>resolution_turn\<close>, modelled from the spec) with its append-only and
    all-calls-resolved laws, and the Ollama script read as a registry
    (\<open>ollama_registry\<close>), against which the script is compared.
  \<^item> \<open>Gemini_Trace\<close>: what the trace of \<open>src/index.ts\<close> records. \<open>query_answer\<close>
    is \<open>processQuery\<close> with every Langfuse call erased, arguments included;
    \<open>query_result\<close> adds back the one erased argument that can throw, the
    \<open>response.text()\<close> of line 100. Per-operation lemmas bound the records and
    identifiers each operation adds.
  \<^item> \<open>Ollama_History\<close>: the shape of \<open>run\<close>'s message history and console on every
    path, errors included (\<open>run_messages\<close>).
  \<^item> \<open>Ollama_Chained\<close>: the chained loop that spec 9 recommends, built from the
    script's own round without a guard (\<open>chain\<close>, a \<open>partial_function (option)\<close>).

  \<^bold>\<open>What is proved about the stock bot (C1-C8, C17, C19-C22, theories
  \<open>Gemini_Bot\<close> and \<open>Gemini_Trace\<close>).\<close> The stock question is answered through
  the tool with the upper-cased symbol (C1); the trace of a whole run of \<open>main\<close>
  stays well formed for every provider behaviour (C2); a successful query closes all
  its spans (C3), while a transport error leaves the \<open>sendMessage\<close> span open (C4,
  a divergence from spec 4.4); only the first \<open>getStockPrice\<close> call of a reply is
  handled (C5, the early return that spec 9 calls a bug); a missing or non-string
  \<open>symbol\<close> ends the query with a \<open>TypeError\<close> after an error event (C6); calls of
  unknown tools are skipped silently (C7). \<open>processQuery\<close> returns the answer of
  its untraced reference for every trace state, except that the \<open>text()\<close> of the
  trace payload at line 100 fails a blocked first response even when it calls
  \<open>getStockPrice\<close> (C19); \<open>main\<close> prints, query by query, the lines of that
  result, whatever the trace and the other queries did (C8). A run of \<open>main\<close> over
  \<open>n\<close> queries adds at most \<open>16 n\<close> records and \<open>5 n\<close> identifiers to the trace, a
  bound the stock scenario reaches (C20, lemma \<open>scenario_trace_length\<close>); the trace
  is flushed once, last (C21); the \<open>getStockPrice\<close> span is the one span outside
  the query's trace (C22).

  \<^bold>\<open>What is proved about the Ollama script (C9-C16, C18, C23-C29, theories
  \<open>Ollama_Fn_Call\<close>, \<open>Resolution\<close>, \<open>Ollama_History\<close>, \<open>Ollama_Chained\<close>
  and this one).\<close> Spec scenario 1 (\<open>3 - 1\<close>) gives the history prompt, reply, the
  string of the double \<open>2\<close> (C9); for every reply whose calls do not raise, the
  history is the prompt followed, per call, by the reply and the output for a found
  tool and nothing for an unknown one, so a reply with several calls is appended
  several times (C10, a bug against spec 3); \<open>run\<close> fails only on a transport
  error, a name inherited from \<open>Object.prototype\<close> that throws, or an argument
  object with an own \<open>toString\<close> key (C11). Numbers that meet the schema are added
  as doubles (C12), a string argument is concatenated with the other argument's
  string, whose conversion may throw (C13); integers up to \<open>2^53\<close> add and subtract
  exactly (C16); finite results are the nearest doubles to the exact sum and
  difference (C18); results are doubles, strings or \<open>TypeError\<close>s (C28); a
  missing argument gives the answer \<open>"NaN"\<close> (C29). \<open>run\<close> refines the spec's
  resolution loop when every call names an arithmetic tool with primitive
  arguments (C14) and diverges from it when every name is unknown (C15). The tool
  message reads back as the double result, \<open>-0\<close> as \<open>+0\<close> (C17). Every message of
  \<open>run\<close>'s history is the prompt, a tool message or the model's reply (C23), and
  there are at most \<open>1 + 2 n\<close> of them for \<open>n\<close> calls (C24); the script prints an
  error exactly when \<open>run\<close> fails (C25). The chained loop returns for a model that
  makes progress (C26) and never returns when the model's first reply calls only
  unknown tools (C27). The spec-level lemmas of \<open>Tools\<close> and \<open>Resolution\<close>
  (\<open>register_then_resolve\<close>, \<open>register_wf\<close>, \<open>resolution_turn_prefix\<close>,
  \<open>resolution_turn_all_resolved\<close>, \<open>resolution_turn_transport\<close>) show the registry
  and the loop themselves meet spec 3, 4.3 and 8. The library lemmas of
  \<open>JS_Number\<close> carry the arithmetic claims: ToNumber inverts Number::toString on
  every double but \<open>-0\<close> (\<open>str_to_num_num_to_string\<close>), addition and subtraction
  are the correctly rounded real operations (\<open>num_add_fin\<close>,
  \<open>num_add_nearest\<close>, \<open>num_sub_nearest\<close>), and a decimal numeral reads as the
  nearest double (\<open>parse_unsigned_nearest\<close>).

  \<^bold>\<open>Bounds and fuel.\<close> The scripts' own loops run over finite lists and are
  structural recursions. Number::toString searches digit counts \<open>k = 1, 2, ...\<close>
  with fuel \<open>dec_len M\<close>, the length of the exact decimal expansion \<open>M * 10^E\<close>
  of the number; the fallback at zero fuel prints that expansion, which reads back
  exactly (\<open>dec_round_exact\<close>), so the fuel never changes the round trip. The
  chained loop of spec 9 has no fuel: it is a \<open>partial_function (option)\<close>, and C26
  and C27 say when it returns. The trace bound 16 counts the records of the longest
  path of \<open>processQuery\<close>: the successful stock call.

  \<^bold>\<open>Open.\<close> Argument validation is modelled (\<open>args_valid\<close>) but the code has
  none to prove it against; \<open>langfuse.shutdownAsync()\<close> is recorded as a
  \<open>Flushed\<close> entry of the log, and the delivery of the log to the server is not
  modelled.

  \<^bold>\<open>Not modelled.\<close> Configuration (\<open>dotenv\<close>, API keys and URLs), console
  formatting of objects, the network behaviour of the SDKs (a provider is an
  arbitrary function, so every theorem holds for every model reply), and asynchrony:
  the scripts await each call in turn, so the model is sequential. Strings are
  byte strings, not UTF-16, so \<open>toUpperCase\<close> and white space cover ASCII (and
  U+00A0) only. Among shortest digit strings Number::toString takes the one nearest
  the number; ties between two equally near strings go to the even last digit,
  where ECMAScript leaves the choice to the implementation.
\<close>

section \<open>Properties across components\<close>

text \<open>
  C17. Round trip through the message history: for a call of \<open>addTwoNumbers\<close> or
  \<open>subtractTwoNumbers\<close> on numbers, the tool message \<open>run\<close> appends holds a
  string that JavaScript's ToNumber reads back as exactly the sum or difference, so no
  information is lost by \<open>output.toString()\<close> on the way to the model.
\<close>

lemma arithmetic_tool_roundtrip:
  assumes name: "oc_name t \<in> {''addTwoNumbers'', ''subtractTwoNumbers''}"
    and a: "get_prop (oc_args t) ''a'' = JNum x" and b: "get_prop (oc_args t) ''b'' = JNum y"
    and ok: "jsnum_ok x" "jsnum_ok y"
  shows "\<exists>c. tool_outcome t = Output c \<and>
             to_number (JStr c) =
               Inr (let r = (if oc_name t = ''addTwoNumbers'' then num_add x y else num_sub x y) in
                    if r = NegZero then Fin 0 0 else r)"
proof -
  let ?r = "if oc_name t = ''addTwoNumbers'' then num_add x y else num_sub x y"
  have out: "tool_outcome t = Output (num_to_string ?r)"
    using name a b
    by (auto simp: tool_outcome_def available_functions_def add_two_numbers_def subtract_two_numbers_def
        call_to_string_prim)
  have "jsnum_ok ?r" using ok by (simp add: num_add_ok num_sub_def num_neg_ok)
  then have "to_number (JStr (num_to_string ?r)) = Inr (if ?r = NegZero then Fin 0 0 else ?r)"
    by (rule to_number_to_string)
  with out show ?thesis by (simp add: Let_def)
qed

theorem arithmetic_tool_roundtrip_witness:
  "\<exists>c. tool_outcome subtract_call = Output c \<and> to_number (JStr c) = Inr (Fin 1 1)"
proof -
  have n: "oc_name subtract_call \<in> {''addTwoNumbers'', ''subtractTwoNumbers''}" by (simp add: subtract_call_def)
  have a: "get_prop (oc_args subtract_call) ''a'' = JNum (Fin 3 0)"
    and b: "get_prop (oc_args subtract_call) ''b'' = JNum (Fin 1 0)"
    by (simp_all add: subtract_call_def get_prop_def)
  have ok: "jsnum_ok (Fin 3 0)" "jsnum_ok (Fin 1 0)" by (simp_all add: is_double_def)
  show ?thesis using arithmetic_tool_roundtrip [OF n a b ok] by (simp add: subtract_call_def num_eval)
qed

text \<open>
  C29. Error path of the arithmetic tools: when the model omits the argument \<open>b\<close>,
  \<open>args.b\<close> is \<open>undefined\<close>, ToNumber makes it \<open>NaN\<close>, the sum or difference is
  \<open>NaN\<close>, and the tool message sent back to the model is the string \<open>NaN\<close>:
  no exception is raised and the call counts as answered.
\<close>

lemma missing_argument_nan:
  assumes name: "oc_name t \<in> {''addTwoNumbers'', ''subtractTwoNumbers''}"
    and a: "get_prop (oc_args t) ''a'' = JNum x" and b: "get_prop (oc_args t) ''b'' = JUndef"
  shows "tool_outcome t = Output ''NaN''"
proof -
  have "num_add x NaN = NaN" "num_sub x NaN = NaN" by (cases x; simp add: num_sub_def)+
  with name a b show ?thesis
    by (auto simp: tool_outcome_def available_functions_def add_two_numbers_def subtract_two_numbers_def
        js_add_def js_sub_def to_primitive_def call_to_string_prim)
qed

theorem missing_argument_nan_witness:
  "tool_outcome \<lparr>oc_name = ''addTwoNumbers'', oc_args = [(''a'', JNum (Fin 1 0))]\<rparr> = Output ''NaN''"
  using missing_argument_nan [of "\<lparr>oc_name = ''addTwoNumbers'', oc_args = [(''a'', JNum (Fin 1 0))]\<rparr>" "Fin 1 0"]
  by (simp add: get_prop_def)
end
